(* ===== verification/Prelude.thy ===== *)
theory Prelude
  imports Main "HOL-Library.Sublist"
begin

text \<open>
  The prelude of the development: the monad in which the C and C++ routines are written (explicit
  state, process exit, undefined behaviour and non-termination as values), its weakest
  preconditions, checked array reads, and the list facts that several components share.
\<close>

section \<open>Programs\<close>

text \<open>
  A routine of the source is a function of the state before the call. It may not return
  (\<^term>\<open>None\<close>), may return a value, may end the process with \<^verbatim>\<open>exit(code)\<close>, or may run into
  undefined behaviour (a null or dangling pointer, an access outside an array).
\<close>

datatype 'a res = Ok 'a | Exit int | Crash

type_synonym ('s, 'a) prog = "'s \<Rightarrow> ('a res \<times> 's) option"

definition ret :: "'a \<Rightarrow> ('s, 'a) prog" where
  "ret x = (\<lambda>s. Some (Ok x, s))"

definition bind :: "('s, 'a) prog \<Rightarrow> ('a \<Rightarrow> ('s, 'b) prog) \<Rightarrow> ('s, 'b) prog" where
  "bind m k = (\<lambda>s. case m s of
      None \<Rightarrow> None
    | Some (r, s') \<Rightarrow> (case r of Ok x \<Rightarrow> k x s' | Exit c \<Rightarrow> Some (Exit c, s') | Crash \<Rightarrow> Some (Crash, s')))"

definition seq :: "('s, 'a) prog \<Rightarrow> ('s, 'b) prog \<Rightarrow> ('s, 'b) prog" where
  "seq m n = bind m (\<lambda>_. n)"

definition exit_with :: "int \<Rightarrow> ('s, 'a) prog" where
  "exit_with c = (\<lambda>s. Some (Exit c, s))"

definition crash :: "('s, 'a) prog" where
  "crash = (\<lambda>s. Some (Crash, s))"

definition gets :: "('s \<Rightarrow> 'a) \<Rightarrow> ('s, 'a) prog" where
  "gets f = (\<lambda>s. Some (Ok (f s), s))"

definition modify :: "('s \<Rightarrow> 's) \<Rightarrow> ('s, unit) prog" where
  "modify f = (\<lambda>s. Some (Ok (), f s))"

text \<open>\<^verbatim>\<open>if (b) m;\<close> without an else branch.\<close>

definition when_do :: "bool \<Rightarrow> ('s, unit) prog \<Rightarrow> ('s, unit) prog" where
  "when_do b m = (if b then m else ret ())"

definition EXIT_FAILURE :: int where "EXIT_FAILURE = 1"
definition EXIT_SUCCESS :: int where "EXIT_SUCCESS = 0"

section \<open>Weakest preconditions\<close>

text \<open>
  \<open>wp m Q E s\<close>: from \<open>s\<close> the routine ends, without undefined behaviour, either returning with \<open>Q\<close>
  or leaving the process with \<open>E\<close>. \<open>wlp\<close> is the partial version: it also holds where the routine
  does not return.
\<close>

definition wp :: "('s, 'a) prog \<Rightarrow> ('a \<Rightarrow> 's \<Rightarrow> bool) \<Rightarrow> (int \<Rightarrow> 's \<Rightarrow> bool) \<Rightarrow> 's \<Rightarrow> bool" where
  "wp m Q E s = (case m s of
      None \<Rightarrow> False
    | Some (r, s') \<Rightarrow> (case r of Ok x \<Rightarrow> Q x s' | Exit c \<Rightarrow> E c s' | Crash \<Rightarrow> False))"

definition wlp :: "('s, 'a) prog \<Rightarrow> ('a \<Rightarrow> 's \<Rightarrow> bool) \<Rightarrow> (int \<Rightarrow> 's \<Rightarrow> bool) \<Rightarrow> 's \<Rightarrow> bool" where
  "wlp m Q E s = (case m s of
      None \<Rightarrow> True
    | Some (r, s') \<Rightarrow> (case r of Ok x \<Rightarrow> Q x s' | Exit c \<Rightarrow> E c s' | Crash \<Rightarrow> False))"

named_theorems wp_simps "equations that compute weakest preconditions"
named_theorems run_simps "equations that run a program on a state"

lemma run_ret [run_simps]: "ret x s = Some (Ok x, s)"
  by (simp add: ret_def)

lemma run_gets [run_simps]: "gets f s = Some (Ok (f s), s)"
  by (simp add: gets_def)

lemma run_modify [run_simps]: "modify f s = Some (Ok (), f s)"
  by (simp add: modify_def)

lemma run_exit [run_simps]: "exit_with c s = Some (Exit c, s)"
  by (simp add: exit_with_def)

lemma run_crash [run_simps]: "crash s = Some (Crash, s)"
  by (simp add: crash_def)

lemma run_bind [run_simps]:
  "bind m k s = (case m s of None \<Rightarrow> None
     | Some (r, s') \<Rightarrow> (case r of Ok x \<Rightarrow> k x s' | Exit c \<Rightarrow> Some (Exit c, s') | Crash \<Rightarrow> Some (Crash, s')))"
  by (simp add: bind_def)

lemma run_seq [run_simps]:
  "seq m n s = (case m s of None \<Rightarrow> None
     | Some (r, s') \<Rightarrow> (case r of Ok x \<Rightarrow> n s' | Exit c \<Rightarrow> Some (Exit c, s') | Crash \<Rightarrow> Some (Crash, s')))"
  by (simp add: seq_def bind_def)

lemma run_when [run_simps]: "when_do b m s = (if b then m s else Some (Ok (), s))"
  by (simp add: when_do_def ret_def)

lemma run_if [run_simps]: "(if b then m else n) s = (if b then m s else n s)"
  by simp

lemma bind_ret [simp]: "bind (ret x) k = k x"
  by (simp add: bind_def ret_def)

lemma bind_ret_right [simp]: "bind m ret = m"
  by (rule ext) (auto simp: bind_def ret_def split: option.splits res.splits)

lemma bind_assoc: "bind (bind m k) l = bind m (\<lambda>x. bind (k x) l)"
  by (rule ext) (auto simp: bind_def split: option.splits res.splits)

lemma bind_exit [simp]: "bind (exit_with c) k = exit_with c"
  by (simp add: bind_def exit_with_def)

lemma seq_exit [simp]: "seq (exit_with c) n = exit_with c"
  by (simp add: seq_def)

lemma wp_ret [wp_simps]: "wp (ret x) Q E s = Q x s"
  by (simp add: wp_def ret_def)

lemma wp_gets [wp_simps]: "wp (gets f) Q E s = Q (f s) s"
  by (simp add: wp_def gets_def)

lemma wp_modify [wp_simps]: "wp (modify f) Q E s = Q () (f s)"
  by (simp add: wp_def modify_def)

lemma wp_exit [wp_simps]: "wp (exit_with c) Q E s = E c s"
  by (simp add: wp_def exit_with_def)

lemma wp_crash [wp_simps]: "wp crash Q E s = False"
  by (simp add: wp_def crash_def)

lemma wp_bind [wp_simps]: "wp (bind m k) Q E s = wp m (\<lambda>x. wp (k x) Q E) E s"
  by (auto simp: wp_def bind_def split: option.splits res.splits)

lemma wp_seq [wp_simps]: "wp (seq m n) Q E s = wp m (\<lambda>_. wp n Q E) E s"
  by (simp add: seq_def wp_bind)

lemma wp_if [wp_simps]: "wp (if b then m else n) Q E s = (if b then wp m Q E s else wp n Q E s)"
  by simp

lemma wp_when [wp_simps]: "wp (when_do b m) Q E s = (if b then wp m Q E s else Q () s)"
  by (simp add: when_do_def wp_ret)

lemma wp_option: "wp (case v of None \<Rightarrow> m | Some x \<Rightarrow> k x) Q E s = (case v of None \<Rightarrow> wp m Q E s | Some x \<Rightarrow> wp (k x) Q E s)"
  by (cases v) auto

lemma wp_prod: "wp (case p of (x, y) \<Rightarrow> k x y) Q E s = (case p of (x, y) \<Rightarrow> wp (k x y) Q E s)"
  by (cases p) auto

lemma wlp_ret [wp_simps]: "wlp (ret x) Q E s = Q x s"
  by (simp add: wlp_def ret_def)

lemma wlp_gets [wp_simps]: "wlp (gets f) Q E s = Q (f s) s"
  by (simp add: wlp_def gets_def)

lemma wlp_modify [wp_simps]: "wlp (modify f) Q E s = Q () (f s)"
  by (simp add: wlp_def modify_def)

lemma wlp_exit [wp_simps]: "wlp (exit_with c) Q E s = E c s"
  by (simp add: wlp_def exit_with_def)

lemma wlp_crash [wp_simps]: "wlp crash Q E s = False"
  by (simp add: wlp_def crash_def)

lemma wlp_bind [wp_simps]: "wlp (bind m k) Q E s = wlp m (\<lambda>x. wlp (k x) Q E) E s"
  by (auto simp: wlp_def bind_def split: option.splits res.splits)

lemma wlp_seq [wp_simps]: "wlp (seq m n) Q E s = wlp m (\<lambda>_. wlp n Q E) E s"
  by (simp add: seq_def wlp_bind)

lemma wlp_if [wp_simps]: "wlp (if b then m else n) Q E s = (if b then wlp m Q E s else wlp n Q E s)"
  by simp

lemma wlp_when [wp_simps]: "wlp (when_do b m) Q E s = (if b then wlp m Q E s else Q () s)"
  by (simp add: when_do_def wlp_ret)

lemma wp_imp_wlp: "wp m Q E s \<Longrightarrow> wlp m Q E s"
  by (auto simp: wp_def wlp_def split: option.splits res.splits)

lemma wp_mono:
  assumes "wp m Q E s" "\<And>x s'. Q x s' \<Longrightarrow> Q' x s'" "\<And>c s'. E c s' \<Longrightarrow> E' c s'"
  shows "wp m Q' E' s"
  using assms by (auto simp: wp_def split: option.splits res.splits)

lemma wlp_mono:
  assumes "wlp m Q E s" "\<And>x s'. Q x s' \<Longrightarrow> Q' x s'" "\<And>c s'. E c s' \<Longrightarrow> E' c s'"
  shows "wlp m Q' E' s"
  using assms by (auto simp: wlp_def split: option.splits res.splits)

lemma wp_conj:
  "wp m Q E s \<Longrightarrow> wp m Q' E' s \<Longrightarrow> wp m (\<lambda>x s'. Q x s' \<and> Q' x s') (\<lambda>c s'. E c s' \<and> E' c s') s"
  by (auto simp: wp_def split: option.splits res.splits)

lemma wp_iff:
  "wp m Q E s \<longleftrightarrow> (\<exists>x s'. m s = Some (Ok x, s') \<and> Q x s') \<or> (\<exists>c s'. m s = Some (Exit c, s') \<and> E c s')"
proof (cases "m s")
  case None
  then show ?thesis by (simp add: wp_def)
next
  case (Some p)
  obtain r s' where "p = (r, s')" by force
  with Some show ?thesis by (cases r) (auto simp: wp_def)
qed

lemma wp_returnsD:
  assumes "wp m Q (\<lambda>_ _. False) s"
  obtains x s' where "m s = Some (Ok x, s')" "Q x s'"
  using assms by (auto simp: wp_iff)

lemma wp_exitsD:
  assumes "wp m (\<lambda>_ _. False) E s"
  obtains c s' where "m s = Some (Exit c, s')" "E c s'"
  using assms by (auto simp: wp_iff)

text \<open>
  \<open>outcome m R s\<close>: whatever the run ends in, be it a value, an exit or undefined behaviour, satisfies
  \<open>R\<close>. It states what holds of every run that ends.
\<close>

definition outcome :: "('s, 'a) prog \<Rightarrow> ('a res \<Rightarrow> 's \<Rightarrow> bool) \<Rightarrow> 's \<Rightarrow> bool" where
  "outcome m R s = (case m s of None \<Rightarrow> True | Some (r, s') \<Rightarrow> R r s')"

named_theorems outcome_simps "equations that compute what every ending run satisfies"

lemma outcome_ret [outcome_simps]: "outcome (ret x) R s = R (Ok x) s"
  by (simp add: outcome_def ret_def)

lemma outcome_gets [outcome_simps]: "outcome (gets f) R s = R (Ok (f s)) s"
  by (simp add: outcome_def gets_def)

lemma outcome_modify [outcome_simps]: "outcome (modify f) R s = R (Ok ()) (f s)"
  by (simp add: outcome_def modify_def)

lemma outcome_exit [outcome_simps]: "outcome (exit_with c) R s = R (Exit c) s"
  by (simp add: outcome_def exit_with_def)

lemma outcome_crash [outcome_simps]: "outcome crash R s = R Crash s"
  by (simp add: outcome_def crash_def)

lemma outcome_bind [outcome_simps]:
  "outcome (bind m k) R s = outcome m (\<lambda>r s'. case r of
      Ok x \<Rightarrow> outcome (k x) R s' | Exit c \<Rightarrow> R (Exit c) s' | Crash \<Rightarrow> R Crash s') s"
  by (auto simp: outcome_def bind_def split: option.splits res.splits)

lemma outcome_seq [outcome_simps]:
  "outcome (seq m n) R s = outcome m (\<lambda>r s'. case r of
      Ok _ \<Rightarrow> outcome n R s' | Exit c \<Rightarrow> R (Exit c) s' | Crash \<Rightarrow> R Crash s') s"
  by (simp add: seq_def outcome_bind)

lemma outcome_if [outcome_simps]:
  "outcome (if b then m else n) R s = (if b then outcome m R s else outcome n R s)"
  by simp

lemma outcome_when [outcome_simps]:
  "outcome (when_do b m) R s = (if b then outcome m R s else R (Ok ()) s)"
  by (simp add: when_do_def outcome_ret)

lemma outcome_mono:
  assumes "outcome m R s" "\<And>r s'. R r s' \<Longrightarrow> R' r s'"
  shows "outcome m R' s"
  using assms by (auto simp: outcome_def split: option.splits)

lemma outcomeD: "outcome m R s \<Longrightarrow> m s = Some (r, s') \<Longrightarrow> R r s'"
  by (simp add: outcome_def)

lemma outcomeI: "(\<And>r s'. m s = Some (r, s') \<Longrightarrow> R r s') \<Longrightarrow> outcome m R s"
  by (auto simp: outcome_def split: option.splits)

section \<open>Inverting a run\<close>

named_theorems ok_simps "equations that take a run with a given result apart"

lemma ret_eq [ok_simps]: "ret x s = Some (r, s') \<longleftrightarrow> r = Ok x \<and> s' = s"
  by (auto simp: ret_def)

lemma gets_eq [ok_simps]: "gets f s = Some (r, s') \<longleftrightarrow> r = Ok (f s) \<and> s' = s"
  by (auto simp: gets_def)

lemma modify_eq [ok_simps]: "modify f s = Some (r, s') \<longleftrightarrow> r = Ok () \<and> s' = f s"
  by (auto simp: modify_def)

lemma exit_eq [ok_simps]: "exit_with c s = Some (r, s') \<longleftrightarrow> r = Exit c \<and> s' = s"
  by (auto simp: exit_with_def)

lemma crash_eq [ok_simps]: "crash s = Some (r, s') \<longleftrightarrow> r = Crash \<and> s' = s"
  by (auto simp: crash_def)

lemma bind_eq_Ok [ok_simps]:
  "bind m k s = Some (Ok x, s') \<longleftrightarrow> (\<exists>y t. m s = Some (Ok y, t) \<and> k y t = Some (Ok x, s'))"
  by (auto simp: bind_def split: option.splits res.splits)

lemma seq_eq_Ok [ok_simps]:
  "seq m n s = Some (Ok x, s') \<longleftrightarrow> (\<exists>y t. m s = Some (Ok y, t) \<and> n t = Some (Ok x, s'))"
  by (simp add: seq_def bind_eq_Ok)

lemma when_eq_Ok [ok_simps]:
  "when_do b m s = Some (Ok x, s') \<longleftrightarrow> (if b then m s = Some (Ok x, s') else s' = s)"
  by (auto simp: when_do_def ret_def)

section \<open>Sequences of operations\<close>

text \<open>
  A component is used through a sequence of operations. \<open>run_ops\<close> performs them one after the other;
  the locales give what holds of every sequence from what holds of one operation.
\<close>

fun run_ops :: "('op \<Rightarrow> ('s, 'a) prog) \<Rightarrow> 'op list \<Rightarrow> ('s, 'a list) prog" where
  "run_ops step [] = ret []"
| "run_ops step (op # ops) = bind (step op) (\<lambda>x. bind (run_ops step ops) (\<lambda>xs. ret (x # xs)))"

text \<open>Every operation returns, without undefined behaviour and without exit, and keeps the invariant.\<close>

locale safe_machine =
  fixes step :: "'op \<Rightarrow> ('s, 'a) prog" and inv :: "'s \<Rightarrow> bool"
  assumes step_safe: "inv s \<Longrightarrow> wp (step op) (\<lambda>_ s'. inv s') (\<lambda>_ _. False) s"
begin

lemma run_safe: "inv s \<Longrightarrow> wp (run_ops step ops) (\<lambda>xs s'. inv s' \<and> length xs = length ops) (\<lambda>_ _. False) s"
proof (induction ops arbitrary: s)
  case (Cons op ops)
  show ?case
    unfolding run_ops.simps wp_bind wp_ret
    by (rule wp_mono [OF step_safe [OF Cons.prems]]) (auto intro: wp_mono [OF Cons.IH])
qed (simp add: wp_simps)

lemma run_returns:
  assumes "inv s"
  shows "\<exists>xs s'. run_ops step ops s = Some (Ok xs, s') \<and> inv s' \<and> length xs = length ops"
  using run_safe [OF assms, of ops] by (auto simp: wp_iff)

end

text \<open>Every operation does what an abstract machine does.\<close>

fun run_abs :: "('op \<Rightarrow> 'b \<Rightarrow> 'a \<times> 'b) \<Rightarrow> 'op list \<Rightarrow> 'b \<Rightarrow> 'a list \<times> 'b" where
  "run_abs astep [] c = ([], c)"
| "run_abs astep (op # ops) c =
     (let (x, c') = astep op c; (xs, c'') = run_abs astep ops c' in (x # xs, c''))"

locale simulation =
  fixes step :: "'op \<Rightarrow> ('s, 'a) prog" and inv :: "'s \<Rightarrow> bool"
    and abs_of :: "'s \<Rightarrow> 'b" and astep :: "'op \<Rightarrow> 'b \<Rightarrow> 'a \<times> 'b"
  assumes step_simulates:
    "inv s \<Longrightarrow> wp (step op) (\<lambda>x s'. inv s' \<and> astep op (abs_of s) = (x, abs_of s')) (\<lambda>_ _. False) s"
begin

lemma run_simulates:
  "inv s \<Longrightarrow> wp (run_ops step ops) (\<lambda>xs s'. inv s' \<and> run_abs astep ops (abs_of s) = (xs, abs_of s')) (\<lambda>_ _. False) s"
proof (induction ops arbitrary: s)
  case (Cons op ops)
  show ?case
    unfolding run_ops.simps wp_bind wp_ret
  proof (rule wp_mono [OF step_simulates [OF Cons.prems]])
    fix x s' assume s': "inv s' \<and> astep op (abs_of s) = (x, abs_of s')"
    show "wp (run_ops step ops) (\<lambda>xs s''. inv s'' \<and> run_abs astep (op # ops) (abs_of s) = (x # xs, abs_of s''))
            (\<lambda>_ _. False) s'"
      by (rule wp_mono [OF Cons.IH]) (use s' in auto)
  qed simp
qed (simp add: wp_simps)

end

sublocale simulation \<subseteq> machine: safe_machine step inv
  by unfold_locales (rule wp_mono [OF step_simulates], auto)

section \<open>Frames\<close>

text \<open>
  \<open>keeps R m\<close>: whenever the routine ends, it has not left the process, and the states before and after
  are related by \<open>R\<close>. For a preorder this composes; the collection \<open>keeps_intros\<close> then takes a routine
  apart.
\<close>

definition keeps :: "('s \<Rightarrow> 's \<Rightarrow> bool) \<Rightarrow> ('s, 'a) prog \<Rightarrow> bool" where
  "keeps R m \<longleftrightarrow> (\<forall>s r s'. m s = Some (r, s') \<longrightarrow> R s s' \<and> (\<forall>c. r \<noteq> Exit c))"

lemma keepsI: "(\<And>s r s'. m s = Some (r, s') \<Longrightarrow> R s s' \<and> (\<forall>c. r \<noteq> Exit c)) \<Longrightarrow> keeps R m"
  by (simp add: keeps_def)

lemma keepsD: "keeps R m \<Longrightarrow> m s = Some (r, s') \<Longrightarrow> R s s'"
  by (simp add: keeps_def)

lemma keeps_no_exit: "keeps R m \<Longrightarrow> m s \<noteq> Some (Exit c, s')"
  by (auto simp: keeps_def)

lemma keeps_outcome: "keeps R m \<Longrightarrow> outcome m (\<lambda>r s'. R s s' \<and> (\<forall>c. r \<noteq> Exit c)) s"
  by (auto simp: keeps_def outcome_def split: option.splits)

lemma keeps_modify: "(\<And>s. R s (f s)) \<Longrightarrow> keeps R (modify f)"
  by (auto simp: keeps_def modify_def)

lemma keeps_mono: "keeps R m \<Longrightarrow> (\<And>s s'. R s s' \<Longrightarrow> R' s s') \<Longrightarrow> keeps R' m"
  by (auto simp: keeps_def)

lemma wp_keeps: "wp m Q E s \<Longrightarrow> keeps R m \<Longrightarrow> wp m (\<lambda>x s'. Q x s' \<and> R s s') E s"
  by (auto simp: wp_iff keeps_def)

lemma outcome_bind_keeps:
  assumes "keeps R m" "\<And>x s'. R s s' \<Longrightarrow> outcome (k x) Q s'" "\<And>s'. Q Crash s'"
  shows "outcome (bind m k) Q s"
  unfolding outcome_bind
  by (rule outcome_mono [OF keeps_outcome [OF assms(1)]]) (use assms(2,3) in \<open>auto split: res.split\<close>)

locale frame =
  fixes R :: "'s \<Rightarrow> 's \<Rightarrow> bool"
  assumes frame_refl: "R s s" and frame_trans: "R s s' \<Longrightarrow> R s' s'' \<Longrightarrow> R s s''"
begin

lemma keeps_ret: "keeps R (ret x)"
  by (auto simp: keeps_def ret_def frame_refl)

lemma keeps_gets: "keeps R (gets f)"
  by (auto simp: keeps_def gets_def frame_refl)

lemma keeps_crash: "keeps R crash"
  by (auto simp: keeps_def crash_def frame_refl)

lemma keeps_bind: "keeps R m \<Longrightarrow> (\<And>x. keeps R (k x)) \<Longrightarrow> keeps R (bind m k)"
  by (fastforce simp: keeps_def bind_def split: option.splits res.splits intro: frame_trans)

lemma keeps_seq: "keeps R m \<Longrightarrow> keeps R n \<Longrightarrow> keeps R (seq m n)"
  by (simp add: seq_def keeps_bind)

lemma keeps_if: "(b \<Longrightarrow> keeps R m) \<Longrightarrow> (\<not> b \<Longrightarrow> keeps R n) \<Longrightarrow> keeps R (if b then m else n)"
  by simp

lemma keeps_when: "(b \<Longrightarrow> keeps R m) \<Longrightarrow> keeps R (when_do b m)"
  by (simp add: when_do_def keeps_ret)

lemma keeps_option: "keeps R m \<Longrightarrow> (\<And>x. keeps R (k x)) \<Longrightarrow> keeps R (case v of None \<Rightarrow> m | Some x \<Rightarrow> k x)"
  by (cases v) auto

lemma keeps_prod: "(\<And>x y. keeps R (k x y)) \<Longrightarrow> keeps R (case p of (x, y) \<Rightarrow> k x y)"
  by (cases p) auto

lemmas keeps_rules = keeps_ret keeps_gets keeps_crash keeps_bind keeps_seq keeps_if keeps_when keeps_option keeps_prod

end

text \<open>The coarsest frame: a routine that does not leave the process.\<close>

interpretation exitless: frame "\<lambda>s s' :: 's. True"
  by unfold_locales auto

lemma exitless_of: "keeps R m \<Longrightarrow> keeps (\<lambda>_ _. True) m"
  by (erule keeps_mono) simp

text \<open>Replacing what follows a routine by what is equal on the values it can return.\<close>

lemma bind_cong_outcome:
  assumes "outcome m (\<lambda>r _. \<forall>x. r = Ok x \<longrightarrow> P x) s" "\<And>x s'. P x \<Longrightarrow> k x s' = l x s'"
  shows "bind m k s = bind m l s"
  using assms by (auto simp: outcome_def bind_def split: option.splits res.splits)

lemma seq_cong: "(\<And>s. n s = n' s) \<Longrightarrow> seq m n s = seq m n' s"
  by (simp add: run_seq split: option.splits res.splits)

text \<open>Programs that end from every state.\<close>

definition ends :: "('s, 'a) prog \<Rightarrow> bool" where
  "ends m \<longleftrightarrow> (\<forall>s. m s \<noteq> None)"

lemma ends_bind: "ends m \<Longrightarrow> (\<And>x. ends (k x)) \<Longrightarrow> ends (bind m k)"
  by (auto simp: ends_def run_bind split: option.splits res.splits)

lemma ends_seq: "ends m \<Longrightarrow> ends n \<Longrightarrow> ends (seq m n)"
  unfolding seq_def by (rule ends_bind)

lemma ends_basic: "ends (ret x)" "ends (gets f)" "ends (modify g)" "ends crash" "ends (exit_with c)"
  by (auto simp: ends_def run_simps)

lemma ends_if: "ends m \<Longrightarrow> ends n \<Longrightarrow> ends (if b then m else n)"
  by simp

lemma ends_when: "ends m \<Longrightarrow> ends (when_do b m)"
  by (simp add: when_do_def ends_basic)

lemma ends_prod: "(\<And>x y. ends (k x y)) \<Longrightarrow> ends (case p of (x, y) \<Rightarrow> k x y)"
  by (cases p) auto

section \<open>Recursive programs\<close>

text \<open>The monotonicity fact that lets \<^theory_text>\<open>partial_function (option)\<close> recurse under \<^const>\<open>bind\<close>.\<close>

lemma bind_mono [partial_function_mono]:
  fixes B :: "('f \<Rightarrow> 'r option) \<Rightarrow> ('s, 'a) prog" and C :: "'a \<Rightarrow> ('f \<Rightarrow> 'r option) \<Rightarrow> ('s, 'b) prog"
  assumes "\<And>s. mono_option (\<lambda>f. B f s)" "\<And>y s. mono_option (\<lambda>f. C y f s)"
  shows "mono_option (\<lambda>f. bind (B f) (\<lambda>y. C y f) s)"
proof (rule monotoneI)
  fix f g :: "'f \<Rightarrow> 'r option"
  assume fg: "fun_ord (flat_ord None) f g"
  have B: "flat_ord None (B f s) (B g s)" for s
    using assms(1) fg by (blast dest: monotoneD)
  have C: "flat_ord None (C y f s) (C y g s)" for y s
    using assms(2) fg by (blast dest: monotoneD)
  show "flat_ord None (bind (B f) (\<lambda>y. C y f) s) (bind (B g) (\<lambda>y. C y g) s)"
  proof (cases "B f s")
    case None
    then show ?thesis by (simp add: bind_def flat_ord_def)
  next
    case (Some p)
    obtain r s' where "p = (r, s')" by force
    moreover have "B g s = Some p" using B [of s] Some by (simp add: flat_ord_def)
    ultimately show ?thesis
      using Some C [of _ s'] by (cases r) (simp_all add: bind_def flat_ord_def)
  qed
qed

lemma seq_mono [partial_function_mono]:
  assumes "\<And>s. mono_option (\<lambda>f. B f s)" "\<And>s. mono_option (\<lambda>f. C f s)"
  shows "mono_option (\<lambda>f. seq (B f) (C f) s)"
  unfolding seq_def using assms by (rule bind_mono)

lemma when_mono [partial_function_mono]:
  assumes "\<And>s. mono_option (\<lambda>f. B f s)"
  shows "mono_option (\<lambda>f. when_do b (B f) s)"
  using assms by (cases b) (simp_all add: when_do_def ret_def monotone_def flat_ord_def)

lemma if_prog_mono [partial_function_mono]:
  assumes "\<And>s. mono_option (\<lambda>f. B f s)" "\<And>s. mono_option (\<lambda>f. C f s)"
  shows "mono_option (\<lambda>f. (if b then B f else C f) s)"
  using assms by (cases b) simp_all

section \<open>Checked reads and writes of arrays\<close>

text \<open>Reading outside an array, or reading a cell that was never written, is undefined behaviour.\<close>

definition rd :: "'a list \<Rightarrow> int \<Rightarrow> 'a option" where
  "rd xs i = (if 0 \<le> i \<and> i < int (length xs) then Some (xs ! nat i) else None)"

definition rd_init :: "'a option list \<Rightarrow> int \<Rightarrow> 'a option" where
  "rd_init xs i = (case rd xs i of None \<Rightarrow> None | Some v \<Rightarrow> v)"

definition wr :: "'a list \<Rightarrow> int \<Rightarrow> 'a \<Rightarrow> 'a list option" where
  "wr xs i v = (if 0 \<le> i \<and> i < int (length xs) then Some (xs[nat i := v]) else None)"

lemma rd_nat [simp]: "rd xs (int n) = (if n < length xs then Some (xs ! n) else None)"
  by (simp add: rd_def)

lemma wr_nat [simp]: "wr xs (int n) v = (if n < length xs then Some (xs[n := v]) else None)"
  by (simp add: wr_def)

section \<open>Lists\<close>

lemma take_drop_nth: "i < length xs \<Longrightarrow> drop i xs = xs ! i # drop (Suc i) xs"
  by (simp add: Cons_nth_drop_Suc)

lemma takeWhile_dropWhile_char:
  "c \<in> set xs \<Longrightarrow> dropWhile (\<lambda>x. x \<noteq> c) xs = c # tl (dropWhile (\<lambda>x. x \<noteq> c) xs)"
  by (induction xs) auto

section \<open>Invariants that pass values\<close>

text \<open>
  \<open>maintains I m V\<close>: from a state with the invariant \<open>I\<close>, every run that ends does so with \<open>I\<close> again,
  does not leave the process, and returns a value with \<open>V\<close>, which the rest of the routine may rely on.
\<close>

definition maintains :: "('s \<Rightarrow> bool) \<Rightarrow> ('s, 'a) prog \<Rightarrow> ('a \<Rightarrow> bool) \<Rightarrow> bool" where
  "maintains I m V \<longleftrightarrow> (\<forall>s. I s \<longrightarrow> outcome m (\<lambda>r s'. I s' \<and> (case r of Ok x \<Rightarrow> V x | Exit _ \<Rightarrow> False | Crash \<Rightarrow> True)) s)"

named_theorems maintains_intros "rules that take an invariant through a program"

lemma maintainsD: "maintains I m V \<Longrightarrow> I s \<Longrightarrow> outcome m (\<lambda>r s'. I s') s"
  by (auto simp: maintains_def elim!: outcome_mono)

lemma maintains_weaken: "maintains I m V \<Longrightarrow> (\<And>x. V x \<Longrightarrow> U x) \<Longrightarrow> maintains I m U"
  unfolding maintains_def by (auto elim!: outcome_mono split: res.splits)

lemma maintains_ret [maintains_intros]: "V x \<Longrightarrow> maintains I (ret x) V"
  by (simp add: maintains_def outcome_simps)

lemma maintains_gets: "(\<And>s. I s \<Longrightarrow> V (f s)) \<Longrightarrow> maintains I (gets f) V"
  by (simp add: maintains_def outcome_simps)

lemma maintains_modify: "V () \<Longrightarrow> (\<And>s. I s \<Longrightarrow> I (f s)) \<Longrightarrow> maintains I (modify f) V"
  by (simp add: maintains_def outcome_simps)

lemma maintains_crash [maintains_intros]: "maintains I crash V"
  by (simp add: maintains_def outcome_simps)

lemma maintains_bind:
  "maintains I m V \<Longrightarrow> (\<And>x. V x \<Longrightarrow> maintains I (k x) U) \<Longrightarrow> maintains I (bind m k) U"
  unfolding maintains_def outcome_bind by (fastforce elim!: outcome_mono split: res.splits)

lemma maintains_seq:
  "maintains I m V \<Longrightarrow> (\<And>x. V x \<Longrightarrow> maintains I n U) \<Longrightarrow> maintains I (seq m n) U"
  unfolding seq_def by (rule maintains_bind)

lemma maintains_if [maintains_intros]:
  "(b \<Longrightarrow> maintains I m V) \<Longrightarrow> (\<not> b \<Longrightarrow> maintains I n V) \<Longrightarrow> maintains I (if b then m else n) V"
  by simp

lemma maintains_when [maintains_intros]:
  "(b \<Longrightarrow> maintains I m V) \<Longrightarrow> V () \<Longrightarrow> maintains I (when_do b m) V"
  by (simp add: when_do_def maintains_ret)

lemma maintains_prod [maintains_intros]:
  "(\<And>x y. p = (x, y) \<Longrightarrow> maintains I (k x y) V) \<Longrightarrow> maintains I (case p of (x, y) \<Rightarrow> k x y) V"
  by (cases p) simp

text \<open>The rules with a trivial condition on the value.\<close>

lemmas maintains_any = maintains_bind [where V = "\<lambda>_. True"] maintains_seq [where V = "\<lambda>_. True"]

end
