(* ===== verification/CString.thy ===== *)
theory CString
  imports Prelude "HOL-Library.Word"
begin

text \<open>
  The C library routines on strings and lines that the components use: terminated strings,
  character classes, \<^verbatim>\<open>atoi\<close>, \<^verbatim>\<open>strstr\<close>, \<^verbatim>\<open>strtok\<close>, \<^verbatim>\<open>strchr\<close> and \<^verbatim>\<open>fgets\<close>. Strings are lists of
  bytes; a C string is the part of a buffer before its first zero byte.
\<close>

abbreviation NUL :: char where "NUL \<equiv> CHR 0x00"
abbreviation NL :: char where "NL \<equiv> CHR 0x0A"
abbreviation TAB :: char where "TAB \<equiv> CHR 0x09"

definition cstr :: "string \<Rightarrow> string" where
  "cstr buf = takeWhile (\<lambda>c. c \<noteq> NUL) buf"

text \<open>\<^verbatim>\<open>isblank\<close> and \<^verbatim>\<open>isspace\<close> in the C locale.\<close>

definition isblank :: "char \<Rightarrow> bool" where
  "isblank c \<longleftrightarrow> c = CHR '' '' \<or> c = TAB"

definition isspace :: "char \<Rightarrow> bool" where
  "isspace c \<longleftrightarrow> c = CHR '' '' \<or> c = TAB \<or> c = NL \<or> c = CHR 0x0B \<or> c = CHR 0x0C \<or> c = CHR 0x0D"

definition isdigit :: "char \<Rightarrow> bool" where
  "isdigit c \<longleftrightarrow> of_char c \<in> {48 .. (57 :: nat)}"

definition digit_value :: "char \<Rightarrow> int" where
  "digit_value c = of_char c - 48"

text \<open>
  \<^verbatim>\<open>atoi\<close> as the platform's C library computes it: \<^verbatim>\<open>strtol\<close> in base ten, which stops at the first
  character that is no digit and saturates at the 64-bit limits; the caller keeps the low bits.
\<close>

definition strtol10 :: "string \<Rightarrow> int" where
  "strtol10 str =
     (let s = dropWhile isspace str;
          neg = (case s of c # _ \<Rightarrow> c = CHR ''-'' | [] \<Rightarrow> False);
          ds = takeWhile isdigit (case s of c # s' \<Rightarrow> if c = CHR ''-'' \<or> c = CHR ''+'' then s' else s | [] \<Rightarrow> []);
          v = foldl (\<lambda>a d. 10 * a + digit_value d) 0 ds
      in if neg then max (- (2 ^ 63)) (- v) else min (2 ^ 63 - 1) v)"

definition atoi :: "string \<Rightarrow> 32 word" where
  "atoi str = word_of_int (strtol10 str)"

text \<open>Conversions to a 32-bit \<^verbatim>\<open>int\<close> and to a 64-bit \<^verbatim>\<open>size_t\<close>.\<close>

definition to_int32 :: "int \<Rightarrow> int" where
  "to_int32 n = sint (word_of_int n :: 32 word)"

definition to_size_t :: "int \<Rightarrow> nat" where
  "to_size_t n = nat (n mod 2 ^ 64)"

text \<open>The decimal digits of a number, as \<^verbatim>\<open>%d\<close> prints a non-negative one.\<close>

fun show_nat :: "nat \<Rightarrow> string" where
  "show_nat n = (if n < 10 then [char_of (48 + n)] else show_nat (n div 10) @ [char_of (48 + n mod 10)])"

declare show_nat.simps [simp del]

text \<open>
  \<^verbatim>\<open>strtoull\<close> in base sixteen: an optional sign and \<^verbatim>\<open>0x\<close>, then digits; saturates at the 64-bit limit.
\<close>

definition hex_value :: "char \<Rightarrow> int option" where
  "hex_value c =
     (let n = of_char c :: int in
      if 48 \<le> n \<and> n \<le> 57 then Some (n - 48)
      else if 97 \<le> n \<and> n \<le> 102 then Some (n - 87)
      else if 65 \<le> n \<and> n \<le> 70 then Some (n - 55) else None)"

definition strtoull16 :: "string \<Rightarrow> 64 word" where
  "strtoull16 str =
     (let s = dropWhile isspace str;
          neg = take 1 s = ''-'';
          s = (if take 1 s \<in> {''-'', ''+''} then drop 1 s else s);
          s = (if take 2 s \<in> {''0x'', ''0X''} then drop 2 s else s);
          ds = takeWhile (\<lambda>c. hex_value c \<noteq> None) s;
          v = foldl (\<lambda>a d. 16 * a + the (hex_value d)) 0 ds
      in if 2 ^ 64 \<le> v then -1 else if neg then word_of_int (- v) else word_of_int v)"

text \<open>\<^verbatim>\<open>strstr\<close>: the rest of the first string from the first occurrence of the second.\<close>

fun strstr :: "string \<Rightarrow> string \<Rightarrow> string option" where
  "strstr [] pat = (if pat = [] then Some [] else None)"
| "strstr (c # cs) pat = (if prefix pat (c # cs) then Some (c # cs) else strstr cs pat)"

text \<open>\<^verbatim>\<open>strchr\<close> for a character other than the terminator.\<close>

fun strchr :: "string \<Rightarrow> char \<Rightarrow> string option" where
  "strchr [] c = None"
| "strchr (d # ds) c = (if d = c then Some (d # ds) else strchr ds c)"

text \<open>
  One call of \<^verbatim>\<open>strtok\<close>: the token at or after the current position and the position behind the
  delimiter that ended it; no token is the null pointer.
\<close>

definition strtok :: "char set \<Rightarrow> string \<Rightarrow> (string \<times> string) option" where
  "strtok delims str =
     (case dropWhile (\<lambda>c. c \<in> delims) str of
        [] \<Rightarrow> None
      | c # cs \<Rightarrow> Some (takeWhile (\<lambda>c. c \<notin> delims) (c # cs),
                       drop 1 (dropWhile (\<lambda>c. c \<notin> delims) (c # cs))))"

text \<open>
  \<^verbatim>\<open>fgets(buf, n, f)\<close> takes at most \<open>n - 1\<close> bytes, up to and with the next newline.
  \<open>fgets_all n\<close> lists the successive lines that a loop over \<^verbatim>\<open>fgets\<close> sees.
\<close>

fun fgets :: "nat \<Rightarrow> string \<Rightarrow> string \<times> string" where
  "fgets 0 str = ([], str)"
| "fgets (Suc n) [] = ([], [])"
| "fgets (Suc n) (c # cs) =
     (if n = 0 then ([], c # cs)
      else if c = NL then ([c], cs)
      else (let (l, rest) = fgets n cs in (c # l, rest)))"

lemma fgets_concat: "fgets n str = (l, rest) \<Longrightarrow> l @ rest = str"
  by (induction n str arbitrary: l rest rule: fgets.induct) (auto split: if_splits prod.splits)

lemma fgets_progress: "1 < n \<Longrightarrow> str \<noteq> [] \<Longrightarrow> fst (fgets n str) \<noteq> []"
  by (cases n; cases str) (auto split: prod.splits)

lemma fgets_rest_less: "1 < n \<Longrightarrow> str \<noteq> [] \<Longrightarrow> length (snd (fgets n str)) < length str"
  using fgets_concat [of n str "fst (fgets n str)" "snd (fgets n str)", THEN arg_cong [where f = length]]
    fgets_progress [of n str] by (simp add: length_greater_0_conv [symmetric] del: length_greater_0_conv)

function fgets_all :: "nat \<Rightarrow> string \<Rightarrow> string list" where
  "fgets_all n str =
     (if n \<le> 1 \<or> str = [] then []
      else fst (fgets n str) # fgets_all n (snd (fgets n str)))"
  by pat_completeness auto
termination
  by (relation "measure (\<lambda>(n, str). length str)") (auto simp: fgets_rest_less)

declare fgets_all.simps [simp del]

lemma fgets_all_concat: "1 < n \<Longrightarrow> concat (fgets_all n str) = str"
proof (induction n str rule: fgets_all.induct)
  case (1 n str)
  show ?case
  proof (cases "str = []")
    case True
    then show ?thesis by (simp add: fgets_all.simps)
  next
    case False
    then have "concat (fgets_all n (snd (fgets n str))) = snd (fgets n str)"
      using 1 by simp
    then show ?thesis
      using False "1.prems" fgets_concat [of n str "fst (fgets n str)" "snd (fgets n str)"]
      by (simp add: fgets_all.simps [of n str])
  qed
qed

lemma fgets_length: "0 < n \<Longrightarrow> length (fst (fgets n str)) < n"
  by (induction n str rule: fgets.induct) (auto split: prod.splits)

lemma fgets_all_length: "l \<in> set (fgets_all n str) \<Longrightarrow> length l < n"
proof (induction n str rule: fgets_all.induct)
  case (1 n str)
  then show ?case
    using fgets_length [of n str] by (subst (asm) fgets_all.simps) (auto split: if_splits)
qed

text \<open>A line that ends in its only newline and fits the buffer is read in one call.\<close>

lemma fgets_line:
  "NL \<notin> set l \<Longrightarrow> length l + 1 < n \<Longrightarrow> fgets n (l @ NL # rest) = (l @ [NL], rest)"
proof (induction l arbitrary: n)
  case Nil
  then show ?case by (cases n) auto
next
  case (Cons c l)
  then show ?case by (cases n) auto
qed

lemma fgets_all_lines:
  assumes "\<forall>l \<in> set ls. NL \<notin> set l \<and> length l + 1 < n"
  shows "fgets_all n (concat (map (\<lambda>l. l @ [NL]) ls)) = map (\<lambda>l. l @ [NL]) ls"
  using assms
proof (induction ls)
  case Nil
  then show ?case by (simp add: fgets_all.simps)
next
  case (Cons l ls)
  then have "fgets n (l @ NL # concat (map (\<lambda>l. l @ [NL]) ls)) = (l @ [NL], concat (map (\<lambda>l. l @ [NL]) ls))"
    by (intro fgets_line) auto
  then show ?case
    using Cons by (subst fgets_all.simps) auto
qed

section \<open>Facts on the string routines\<close>

lemma strstr_None_iff: "strstr s pat = None \<longleftrightarrow> \<not> sublist pat s"
  by (induction s) (auto simp: sublist_Cons_right)

lemma strstr_Some:
  "strstr s pat = Some r \<Longrightarrow> prefix pat r \<and> suffix r s"
  by (induction s) (auto split: if_splits simp: suffix_Cons)

lemma strstr_append:
  assumes "\<And>k. k < length pre \<Longrightarrow> \<not> prefix pat (drop k (pre @ pat @ post))"
  shows "strstr (pre @ pat @ post) pat = Some (pat @ post)"
  using assms
proof (induction pre)
  case Nil
  show ?case
  proof (cases "pat @ post")
    case (Cons c cs)
    then have "prefix pat (c # cs)" by (metis prefixI)
    then show ?thesis using Cons by simp
  qed simp
next
  case (Cons c pre)
  have "\<not> prefix pat (drop k (pre @ pat @ post))" if "k < length pre" for k
    using Cons.prems [of "Suc k"] that by simp
  moreover have "\<not> prefix pat (c # pre @ pat @ post)" using Cons.prems [of 0] by simp
  ultimately show ?case using Cons.IH by simp
qed

lemma cstr_no_NUL: "NUL \<notin> set s \<Longrightarrow> cstr (s @ NUL # r) = s"
  unfolding cstr_def by (subst takeWhile_append2) auto

lemma cstr_idem: "NUL \<notin> set s \<Longrightarrow> cstr s = s"
  unfolding cstr_def by (subst takeWhile_eq_all_conv) auto

lemma cstr_clean: "NUL \<notin> set (cstr s)"
  by (auto simp: cstr_def dest: set_takeWhileD)

text \<open>Printing a number and reading it back.\<close>

lemma isdigit_digit [simp]: "d < 10 \<Longrightarrow> isdigit (char_of (48 + d :: nat))"
  by (simp add: isdigit_def)

lemma digit_value_digit [simp]: "d < 10 \<Longrightarrow> digit_value (char_of (48 + d :: nat)) = int d"
proof -
  assume "d < 10"
  moreover have "(of_char (char_of (48 + d)) :: int) = int (of_char (char_of (48 + d)))" by (rule of_nat_of_char [symmetric])
  moreover have "(of_char (char_of (48 + d)) :: nat) = (48 + d) mod 256" by (rule of_char_of)
  ultimately show ?thesis by (simp only: digit_value_def) simp
qed

lemma show_nat_digits: "\<forall>c \<in> set (show_nat n). isdigit c"
proof (induction n rule: show_nat.induct)
  case (1 n)
  then show ?case by (subst show_nat.simps) auto
qed

lemma show_nat_nonempty [simp]: "show_nat n \<noteq> []"
  by (subst show_nat.simps) auto

lemma show_nat_value: "foldl (\<lambda>a d. 10 * a + digit_value d) 0 (show_nat n) = int n"
proof (induction n rule: show_nat.induct)
  case (1 n)
  have "int (10 * (n div 10) + n mod 10) = int n" by (simp only: mult_div_mod_eq)
  then have *: "10 * int (n div 10) + int (n mod 10) = int n" by (simp only: of_nat_add of_nat_mult of_nat_numeral)
  show ?case
  proof (cases "n < 10")
    case True
    then show ?thesis by (subst show_nat.simps) simp
  next
    case False
    then show ?thesis using 1 * by (subst show_nat.simps) (simp del: of_nat_div of_nat_mod add: zdiv_int [symmetric])
  qed
qed

lemma digit_no_space: "isdigit c \<Longrightarrow> \<not> isspace c \<and> c \<noteq> CHR ''-'' \<and> c \<noteq> CHR ''+''"
  by (auto simp: isdigit_def isspace_def)

lemma strtol10_show: "n < 2 ^ 63 \<Longrightarrow> strtol10 (show_nat n) = int n"
proof -
  assume n: "n < 2 ^ 63"
  obtain c cs where c: "show_nat n = c # cs" by (cases "show_nat n") auto
  have d: "isdigit c" "\<not> isspace c" "c \<noteq> CHR ''-''" "c \<noteq> CHR ''+''" using show_nat_digits [of n] digit_no_space [of c] c by auto
  have t: "takeWhile isdigit cs = cs" using show_nat_digits [of n] c by (subst takeWhile_eq_all_conv) auto
  show ?thesis
    unfolding strtol10_def Let_def using d n show_nat_value [of n] by (simp add: c t)
qed

lemma atoi_show: "atoi (show_nat (unat (x :: 32 word))) = x"
proof -
  have "unat x < 2 ^ 63" by (rule order.strict_trans2 [OF unsigned_less [of x, where ?'a = nat]]) simp
  then show ?thesis by (simp add: atoi_def strtol10_show)
qed

lemma length_show_nat: "n < 10 ^ k \<Longrightarrow> 0 < k \<Longrightarrow> length (show_nat n) \<le> k"
proof (induction n arbitrary: k rule: show_nat.induct)
  case (1 n)
  show ?case
  proof (cases "n < 10")
    case True
    then show ?thesis using "1.prems" by (subst show_nat.simps) simp
  next
    case False
    then obtain k' where k: "k = Suc k'" "0 < k'" using "1.prems" by (cases k; cases "k - 1") auto
    then have "n div 10 < 10 ^ k'" using "1.prems" by (simp add: div_less_iff_less_mult)
    then show ?thesis using "1.IH" [OF False _ k(2)] False k by (subst show_nat.simps) simp
  qed
qed

lemma length_show_nat_ge: "10 ^ k \<le> n \<Longrightarrow> k < length (show_nat n)"
proof (induction n arbitrary: k rule: show_nat.induct)
  case (1 n)
  show ?case
  proof (cases k)
    case 0
    then show ?thesis by simp
  next
    case (Suc k')
    then have p: "10 * 10 ^ k' \<le> n" using "1.prems" by simp
    then have "10 ^ k' \<le> n div 10" by (simp add: less_eq_div_iff_mult_less_eq mult.commute)
    moreover have "10 \<le> n" using p one_le_power [of "10 :: nat" k'] by linarith
    ultimately have "\<not> n < 10" "10 ^ k' \<le> n div 10" by simp_all
    then show ?thesis using "1.IH" [of k'] Suc by (subst show_nat.simps) simp
  qed
qed

end
