(* ===== verification/Sinetcc_Kmp.thy ===== *)
theory Sinetcc_Kmp
  imports Prelude
begin

text \<open>
  The substring search of the smart image NETCONF client
  (\<^verbatim>\<open>src/3pp_cnz/tinycore/tinycore_caa/sinetcc/src/sinetcc.c\<close>, \<^verbatim>\<open>compute_prefix_function\<close> and
  \<^verbatim>\<open>kmp_search\<close>). Arrays are lists; every read and write is checked, and a cell of the
  freshly allocated table that was not written yet is \<^term>\<open>None\<close>. The result \<^term>\<open>None\<close> of a
  definition stands for undefined behaviour or a loop that does not end. The main results are that
  neither can happen for a non-empty pattern and that the search returns the first occurrence.
\<close>

section \<open>The routines\<close>

text \<open>\<^verbatim>\<open>while (k > -1 && pattern[k+1] != c) k = pi[k];\<close>, which both routines run.\<close>

partial_function (option) kmp_fallback ::
  "'a list \<Rightarrow> int option list \<Rightarrow> 'a \<Rightarrow> int \<Rightarrow> int option" where
  "kmp_fallback pattern pi c k =
     (if k > -1 then
        (case rd pattern (k + 1) of
           None \<Rightarrow> None
         | Some d \<Rightarrow>
             (if d \<noteq> c then
                (case rd_init pi k of
                   None \<Rightarrow> None
                 | Some k' \<Rightarrow> kmp_fallback pattern pi c k')
              else Some k))
      else Some k)"

declare kmp_fallback.simps [code]

text \<open>The loop body after the inner loop: \<^verbatim>\<open>if (c == pattern[k+1]) k++;\<close>.\<close>

definition kmp_advance :: "'a list \<Rightarrow> int option list \<Rightarrow> 'a \<Rightarrow> int \<Rightarrow> int option" where
  "kmp_advance pattern pi c k =
     (case kmp_fallback pattern pi c k of
        None \<Rightarrow> None
      | Some k \<Rightarrow>
          (case rd pattern (k + 1) of
             None \<Rightarrow> None
           | Some d \<Rightarrow> Some (if c = d then k + 1 else k)))"

function prefix_loop ::
  "'a list \<Rightarrow> int \<Rightarrow> int \<Rightarrow> int \<Rightarrow> int option list \<Rightarrow> int option list option" where
  "prefix_loop pattern psize i k pi =
     (if i < psize then
        (case rd pattern i of
           None \<Rightarrow> None
         | Some c \<Rightarrow>
             (case kmp_advance pattern pi c k of
                None \<Rightarrow> None
              | Some k \<Rightarrow>
                  (case wr pi i (Some k) of
                     None \<Rightarrow> None
                   | Some pi \<Rightarrow> prefix_loop pattern psize (i + 1) k pi)))
      else Some pi)"
  by pat_completeness auto
termination
  by (relation "measure (\<lambda>(pattern, psize, i, k, pi). nat (psize - i))") auto

declare prefix_loop.simps [simp del]

text \<open>
  \<open>malloc_ok\<close> is whether \<^verbatim>\<open>malloc\<close> returned memory; the inner \<^term>\<open>None\<close> is the null pointer the
  routine then returns.
\<close>

definition compute_prefix_function :: "bool \<Rightarrow> 'a list \<Rightarrow> int \<Rightarrow> int option list option option" where
  "compute_prefix_function malloc_ok pattern psize =
     (if \<not> malloc_ok then Some None
      else (case wr (replicate (nat psize) None) 0 (Some (-1)) of
              None \<Rightarrow> None
            | Some pi \<Rightarrow> map_option Some (prefix_loop pattern psize 1 (-1) pi)))"

function search_loop ::
  "'a list \<Rightarrow> int \<Rightarrow> 'a list \<Rightarrow> int \<Rightarrow> int option list \<Rightarrow> int \<Rightarrow> int \<Rightarrow> int option" where
  "search_loop target tsize pattern psize pi i k =
     (if i < tsize then
        (case rd target i of
           None \<Rightarrow> None
         | Some c \<Rightarrow>
             (case kmp_advance pattern pi c k of
                None \<Rightarrow> None
              | Some k \<Rightarrow>
                  (if k = psize - 1 then Some (i - k)
                   else search_loop target tsize pattern psize pi (i + 1) k)))
      else Some (-1))"
  by pat_completeness auto
termination
  by (relation "measure (\<lambda>(target, tsize, pattern, psize, pi, i, k). nat (tsize - i))") auto

declare search_loop.simps [simp del]

definition kmp_search :: "bool \<Rightarrow> 'a list \<Rightarrow> int \<Rightarrow> 'a list \<Rightarrow> int \<Rightarrow> int option" where
  "kmp_search malloc_ok target tsize pattern psize =
     (case compute_prefix_function malloc_ok pattern psize of
        None \<Rightarrow> None
      | Some None \<Rightarrow> Some (-1)
      | Some (Some pi) \<Rightarrow> search_loop target tsize pattern psize pi 0 (-1))"

section \<open>What the table means\<close>

text \<open>
  \<open>fits p t n\<close>: the first \<open>n\<close> symbols of the pattern are the last \<open>n\<close> symbols of the text \<open>t\<close> read
  so far. The variable \<open>k\<close> of the source is \<open>n - 1\<close> for the largest such \<open>n\<close>.
\<close>

definition fits :: "'a list \<Rightarrow> 'a list \<Rightarrow> nat \<Rightarrow> bool" where
  "fits p t n \<longleftrightarrow> n \<le> length p \<and> suffix (take n p) t"

definition max_fit :: "'a list \<Rightarrow> 'a list \<Rightarrow> nat \<Rightarrow> bool" where
  "max_fit p t n \<longleftrightarrow> fits p t n \<and> (\<forall>m. fits p t m \<longrightarrow> m \<le> n)"

text \<open>The first \<open>n\<close> cells of the table are right.\<close>

definition table_upto :: "'a list \<Rightarrow> int option list \<Rightarrow> nat \<Rightarrow> bool" where
  "table_upto p pi n \<longleftrightarrow>
     n \<le> length pi \<and>
     (\<forall>j < n. \<exists>b. pi ! j = Some (int b - 1) \<and> max_fit p (tl (take (Suc j) p)) b)"

definition occurs_at :: "'a list \<Rightarrow> 'a list \<Rightarrow> nat \<Rightarrow> bool" where
  "occurs_at p t i \<longleftrightarrow> take (length p) (drop i t) = p"

lemma fits_0 [simp]: "fits p t 0"
  by (simp add: fits_def)

lemma fits_length: "fits p t n \<Longrightarrow> n \<le> length t"
  using suffix_length_le [of "take n p" t] by (simp add: fits_def)

lemma fits_snoc:
  "fits p (t @ [c]) (Suc n) \<longleftrightarrow> n < length p \<and> fits p t n \<and> p ! n = c"
  by (auto simp: fits_def take_Suc_conv_app_nth)

text \<open>Below a fit of length \<open>m\<close>, the fits are those of the pattern's own prefix.\<close>

lemma fits_below:
  assumes "fits p t m" "n < m"
  shows "fits p t n \<longleftrightarrow> fits p (tl (take m p)) n"
proof -
  have m: "m \<le> length p" "suffix (take m p) t" using assms by (auto simp: fits_def)
  have "suffix (tl (take m p)) (take m p)" by (cases "take m p") (auto simp: suffix_def)
  then have sub: "suffix (tl (take m p)) t" using m suffix_order.trans by blast
  show ?thesis
  proof
    assume "fits p t n"
    then have "suffix (take n p) t" by (simp add: fits_def)
    moreover have "length (take n p) \<le> length (tl (take m p))" using assms m by simp
    ultimately have "suffix (take n p) (tl (take m p))" using sub suffix_length_suffix by blast
    then show "fits p (tl (take m p)) n" using assms m by (simp add: fits_def)
  next
    assume "fits p (tl (take m p)) n"
    then show "fits p t n" using sub by (auto simp: fits_def intro: suffix_order.trans)
  qed
qed

lemma max_fit_unique: "max_fit p t n \<Longrightarrow> max_fit p t m \<Longrightarrow> n = m"
  by (auto simp: max_fit_def intro: antisym)

lemma table_cell_less:
  assumes "max_fit p (tl (take (Suc j) p)) b" "j < length p"
  shows "b \<le> j"
  using assms fits_length [of p "tl (take (Suc j) p)" b] by (auto simp: max_fit_def)

section \<open>The inner loop\<close>

text \<open>
  Starting from a fit, the inner loop ends, reads only inside the arrays, and stops at the largest
  fit not above its start after which the pattern continues with \<open>c\<close> (or at 0).
\<close>

lemma kmp_fallback_spec:
  assumes "fits p t m" "m < length p" "table_upto p pi m"
  shows "\<exists>m'. kmp_fallback (p @ rest) pi c (int m - 1) = Some (int m' - 1) \<and>
           m' \<le> m \<and> fits p t m' \<and> (m' = 0 \<or> p ! m' = c) \<and>
           (\<forall>n \<le> m. fits p t n \<and> p ! n = c \<longrightarrow> n \<le> m')"
  using assms
proof (induction m rule: less_induct)
  case (less m)
  show ?case
  proof (cases "m = 0 \<or> p ! m = c")
    case True
    have "kmp_fallback (p @ rest) pi c (int m - 1) = Some (int m - 1)"
      using True less.prems by (subst kmp_fallback.simps) (auto simp: nth_append)
    then show ?thesis using True less.prems by blast
  next
    case False
    then obtain j where j: "m = Suc j" by (cases m) auto
    from less.prems j obtain b where
      b: "pi ! j = Some (int b - 1)" "max_fit p (tl (take (Suc j) p)) b" and len: "j < length pi"
      by (auto simp: table_upto_def)
    have bm: "b < m" using table_cell_less [OF b(2)] less.prems j by simp
    have cell: "rd_init pi (int m - 1) = Some (int b - 1)"
      using b len j by (simp add: rd_init_def)
    have step: "kmp_fallback (p @ rest) pi c (int m - 1) = kmp_fallback (p @ rest) pi c (int b - 1)"
      using False less.prems cell by (subst kmp_fallback.simps) (auto simp: nth_append)
    have below: "fits p t n \<longleftrightarrow> fits p (tl (take m p)) n" if "n < m" for n
      using fits_below [OF less.prems(1) that] .
    have fb: "fits p t b" using below [OF bm] b(2) j by (simp add: max_fit_def)
    have "table_upto p pi b" using less.prems bm by (auto simp: table_upto_def)
    then obtain m' where m': "kmp_fallback (p @ rest) pi c (int b - 1) = Some (int m' - 1)"
      "m' \<le> b" "fits p t m'" "m' = 0 \<or> p ! m' = c" "\<forall>n \<le> b. fits p t n \<and> p ! n = c \<longrightarrow> n \<le> m'"
      using less.IH [OF bm fb] less.prems bm by auto
    have "n \<le> m'" if "n \<le> m" "fits p t n" "p ! n = c" for n
    proof -
      have "n < m" using that False by (cases "n = m") auto
      then have "n \<le> b" using below that b(2) j by (auto simp: max_fit_def)
      then show ?thesis using m' that by blast
    qed
    then show ?thesis using m' bm step by (intro exI [of _ m']) auto
  qed
qed

text \<open>One step of either outer loop keeps \<open>k\<close> at the largest fit.\<close>

lemma kmp_advance_spec:
  assumes "max_fit p t m" "m < length p" "table_upto p pi m"
  shows "\<exists>m'. kmp_advance (p @ rest) pi c (int m - 1) = Some (int m' - 1) \<and> max_fit p (t @ [c]) m'"
proof -
  have fm: "fits p t m" and mx: "\<And>n. fits p t n \<Longrightarrow> n \<le> m"
    using assms by (auto simp: max_fit_def)
  obtain f where f: "kmp_fallback (p @ rest) pi c (int m - 1) = Some (int f - 1)"
    "f \<le> m" "fits p t f" "f = 0 \<or> p ! f = c" "\<forall>n \<le> m. fits p t n \<and> p ! n = c \<longrightarrow> n \<le> f"
    using kmp_fallback_spec [OF fm assms(2,3)] by blast
  have fl: "f < length p" using f assms by simp
  define m' where "m' = (if p ! f = c then Suc f else f)"
  have run: "kmp_advance (p @ rest) pi c (int m - 1) = Some (int m' - 1)"
    using f fl by (auto simp: kmp_advance_def nth_append m'_def)
  have fit: "fits p (t @ [c]) m'"
    using f fl by (auto simp: m'_def fits_snoc)
  have "n \<le> m'" if "fits p (t @ [c]) n" for n
  proof (cases n)
    case (Suc j)
    then have "fits p t j" "p ! j = c" using that by (auto simp: fits_snoc)
    then have "j \<le> f" using f mx by blast
    moreover have "p ! f = c" using f \<open>p ! j = c\<close> \<open>j \<le> f\<close> by auto
    ultimately show ?thesis using Suc by (simp add: m'_def)
  qed simp
  then show ?thesis using run fit by (auto simp: max_fit_def)
qed

section \<open>The two outer loops\<close>

lemma tl_take_snoc: "0 < i \<Longrightarrow> i < length p \<Longrightarrow> tl (take i p) @ [p ! i] = tl (take (Suc i) p)"
  by (cases p; cases i) (auto simp: take_Suc_conv_app_nth)

lemma table_upto_extend:
  assumes "table_upto p pi i" "i < length pi" "max_fit p (tl (take (Suc i) p)) b"
  shows "table_upto p (pi[i := Some (int b - 1)]) (Suc i)"
  using assms by (auto simp: table_upto_def less_Suc_eq)

lemma prefix_loop_spec:
  assumes "0 < i" "i \<le> length p" "length pi = length p" "table_upto p pi i"
    "max_fit p (tl (take i p)) m"
  shows "\<exists>pi'. prefix_loop (p @ rest) (int (length p)) (int i) (int m - 1) pi = Some pi' \<and>
               table_upto p pi' (length p)"
  using assms
proof (induction "length p - i" arbitrary: i m pi)
  case 0
  then show ?case by (subst prefix_loop.simps) simp
next
  case (Suc d)
  then have il: "i < length p" by simp
  have "m \<le> i - 1" using Suc.prems fits_length [of p "tl (take i p)" m] by (simp add: max_fit_def)
  then have mi: "m < i" using Suc.prems by simp
  have "table_upto p pi m" using Suc.prems mi by (auto simp: table_upto_def)
  then obtain m' where m': "kmp_advance (p @ rest) pi (p ! i) (int m - 1) = Some (int m' - 1)"
    "max_fit p (tl (take (Suc i) p)) m'"
    using kmp_advance_spec [of p "tl (take i p)" m pi rest "p ! i"] Suc.prems mi il tl_take_snoc [of i p]
    by auto
  have tab: "table_upto p (pi[i := Some (int m' - 1)]) (Suc i)"
    using table_upto_extend [OF Suc.prems(4) _ m'(2)] Suc.prems il by simp
  have "\<exists>pi'. prefix_loop (p @ rest) (int (length p)) (int (Suc i)) (int m' - 1) (pi[i := Some (int m' - 1)])
              = Some pi' \<and> table_upto p pi' (length p)"
    using Suc.hyps(1) [of "Suc i" "pi[i := Some (int m' - 1)]" m'] Suc.hyps(2) Suc.prems il tab m' by simp
  then show ?case
    using il m' Suc.prems by (subst prefix_loop.simps) (simp add: nth_append add.commute)
qed

lemma max_fit_Nil: "max_fit p [] 0"
  by (auto simp: max_fit_def dest: fits_length)

lemma compute_prefix_function_spec:
  assumes "p \<noteq> []"
  shows "\<exists>pi. compute_prefix_function True (p @ rest) (int (length p)) = Some (Some pi) \<and>
              table_upto p pi (length p)"
proof -
  let ?pi = "(replicate (length p) None)[0 := Some (-1 :: int)]"
  have "max_fit p (tl (take 1 p)) 0" using max_fit_Nil by (cases p) auto
  then have "table_upto p ?pi 1" using assms by (cases p) (auto simp: table_upto_def)
  moreover have "max_fit p (tl (take 1 p)) 0" using max_fit_Nil by (cases p) auto
  ultimately obtain pi' where
    "prefix_loop (p @ rest) (int (length p)) 1 (-1) ?pi = Some pi'" "table_upto p pi' (length p)"
    using prefix_loop_spec [of 1 p ?pi 0 rest] assms by (cases p) auto
  then show ?thesis
    using assms by (auto simp: compute_prefix_function_def wr_def)
qed

lemma fits_full_occurs:
  assumes "i \<le> length t"
  shows "fits p (take i t) (length p) \<longleftrightarrow> length p \<le> i \<and> occurs_at p t (i - length p)"
proof -
  have "suffix p (take i t) \<longleftrightarrow> length p \<le> i \<and> take (length p) (drop (i - length p) t) = p"
  proof
    assume s: "suffix p (take i t)"
    then have "length p \<le> i" using suffix_length_le [OF s] assms by simp
    moreover obtain zs where zs: "take i t = zs @ p" using s by (auto simp: suffix_def)
    moreover have "i - length p = length zs" using arg_cong [OF zs, of length] assms by simp
    ultimately have "length p \<le> i" "drop (i - length p) (take i t) = p" by auto
    then show "length p \<le> i \<and> take (length p) (drop (i - length p) t) = p"
      by (simp add: drop_take)
  next
    assume a: "length p \<le> i \<and> take (length p) (drop (i - length p) t) = p"
    then have "drop (i - length p) (take i t) = p" by (simp add: drop_take)
    then show "suffix p (take i t)" by (metis suffix_drop)
  qed
  then show ?thesis by (simp add: fits_def occurs_at_def)
qed

text \<open>The result of a search: the first occurrence, or -1 when there is none.\<close>

definition first_occurrence :: "'a list \<Rightarrow> 'a list \<Rightarrow> int \<Rightarrow> bool" where
  "first_occurrence p t r \<longleftrightarrow>
     (if r = -1 then (\<forall>j. \<not> occurs_at p t j)
      else 0 \<le> r \<and> occurs_at p t (nat r) \<and> (\<forall>j < nat r. \<not> occurs_at p t j))"

lemma first_occurrenceI:
  "occurs_at p t n \<Longrightarrow> (\<And>j. j < n \<Longrightarrow> \<not> occurs_at p t j) \<Longrightarrow> first_occurrence p t (int n)"
  by (simp add: first_occurrence_def)

lemma occurs_at_bound: "occurs_at p t j \<Longrightarrow> p \<noteq> [] \<Longrightarrow> j + length p \<le> length t"
  unfolding occurs_at_def by (cases p) (auto dest!: arg_cong [where f = length])

lemma search_loop_spec:
  assumes "i \<le> length t" "p \<noteq> []" "table_upto p pi (length p)" "max_fit p (take i t) m" "m < length p"
    "\<And>j. j + length p \<le> i \<Longrightarrow> \<not> occurs_at p t j"
  shows "\<exists>r. search_loop (t @ trest) (int (length t)) (p @ prest) (int (length p)) pi (int i) (int m - 1) = Some r
             \<and> first_occurrence p t r"
  using assms
proof (induction "length t - i" arbitrary: i m)
  case 0
  then have "\<not> occurs_at p t j" for j using occurs_at_bound [of p t j] by auto
  then show ?case using 0 by (subst search_loop.simps) (simp add: first_occurrence_def)
next
  case (Suc d)
  then have il: "i < length t" by simp
  have "table_upto p pi m" using Suc.prems by (auto simp: table_upto_def)
  then obtain m' where m': "kmp_advance (p @ prest) pi (t ! i) (int m - 1) = Some (int m' - 1)"
    "max_fit p (take (Suc i) t) m'"
    using kmp_advance_spec [of p "take i t" m pi prest "t ! i"] Suc.prems il
    by (auto simp: take_Suc_conv_app_nth)
  have m'l: "m' \<le> length p" using m' by (auto simp: max_fit_def fits_def)
  have unfold: "search_loop (t @ trest) (int (length t)) (p @ prest) (int (length p)) pi (int i) (int m - 1)
     = (if m' = length p then Some (int i - (int m' - 1))
        else search_loop (t @ trest) (int (length t)) (p @ prest) (int (length p)) pi (int (Suc i)) (int m' - 1))"
    using il m' by (subst search_loop.simps) (auto simp: nth_append add.commute)
  show ?case
  proof (cases "m' = length p")
    case True
    then have occ: "length p \<le> Suc i" "occurs_at p t (Suc i - length p)"
      using m' fits_full_occurs [of "Suc i" t p] il by (auto simp: max_fit_def)
    have "\<not> occurs_at p t j" if "j < Suc i - length p" for j
      using Suc.prems(6) [of j] that by simp
    then have "first_occurrence p t (int (Suc i - length p))" using occ by (blast intro: first_occurrenceI)
    moreover have "int i - (int m' - 1) = int (Suc i - length p)" using True occ by simp
    ultimately show ?thesis using unfold True by simp
  next
    case False
    then have "\<not> fits p (take (Suc i) t) (length p)" using m' m'l by (auto simp: max_fit_def)
    then have last: "\<not> occurs_at p t (Suc i - length p)" if "length p \<le> Suc i"
      using that fits_full_occurs [of "Suc i" t p] il by simp
    have "\<not> occurs_at p t j" if "j + length p \<le> Suc i" for j
    proof (cases "j + length p = Suc i")
      case True
      then have "j = Suc i - length p" "length p \<le> Suc i" by simp_all
      then show ?thesis using last by blast
    next
      case False
      then show ?thesis using that Suc.prems(6) [of j] by simp
    qed
    then show ?thesis
      using unfold False m' m'l Suc.hyps(1) [of "Suc i" m'] Suc.hyps(2) Suc.prems il by auto
  qed
qed

lemma kmp_search_spec:
  assumes "p \<noteq> []"
  shows "\<exists>r. kmp_search True (t @ trest) (int (length t)) (p @ prest) (int (length p)) = Some r
             \<and> first_occurrence p t r"
proof -
  obtain pi where pi: "compute_prefix_function True (p @ prest) (int (length p)) = Some (Some pi)"
    "table_upto p pi (length p)"
    using compute_prefix_function_spec assms by blast
  have "\<not> occurs_at p t j" if "j + length p \<le> 0" for j using that assms by simp
  then show ?thesis
    using search_loop_spec [of 0 t p pi 0 trest prest] assms pi max_fit_Nil [of p]
    by (auto simp: kmp_search_def)
qed

section \<open>The search as an interface\<close>

text \<open>
  What the callers of a substring search rely on: the result is the index of the first occurrence,
  or -1. The KMP search and the library's \<^verbatim>\<open>strstr\<close> both provide it.
\<close>

fun replace_first :: "'a list \<Rightarrow> 'a list \<Rightarrow> 'a list \<Rightarrow> 'a list" where
  "replace_first p v [] = []"
| "replace_first p v (c # cs) =
     (if prefix p (c # cs) then v @ drop (length p) (c # cs) else c # replace_first p v cs)"

lemma occurs_at_prefix: "occurs_at p t j \<longleftrightarrow> prefix p (drop j t)"
proof
  assume "occurs_at p t j"
  then have "take (length p) (drop j t) = p" by (simp add: occurs_at_def)
  then show "prefix p (drop j t)" using take_is_prefix [of "length p" "drop j t"] by simp
qed (auto simp: occurs_at_def elim!: prefixE)

lemma replace_first_absent: "p \<noteq> [] \<Longrightarrow> (\<And>j. \<not> prefix p (drop j t)) \<Longrightarrow> replace_first p v t = t"
proof (induction t)
  case (Cons c t)
  have "\<not> prefix p (drop j t)" for j using Cons.prems(2) [of "Suc j"] by simp
  moreover have "\<not> prefix p (c # t)" using Cons.prems(2) [of 0] by simp
  ultimately show ?case using Cons by simp
qed simp

lemma replace_first_at:
  assumes "p \<noteq> []" "prefix p (drop n t)" "\<And>j. j < n \<Longrightarrow> \<not> prefix p (drop j t)"
  shows "replace_first p v t = take n t @ v @ drop (n + length p) t"
  using assms
proof (induction t arbitrary: n)
  case Nil
  then show ?case by simp
next
  case (Cons c t)
  show ?case
  proof (cases n)
    case 0
    then show ?thesis using Cons.prems by simp
  next
    case (Suc m)
    have "\<not> prefix p (drop j t)" if "j < m" for j using Cons.prems(3) [of "Suc j"] that Suc by simp
    moreover have "\<not> prefix p (c # t)" using Cons.prems(3) [of 0] Suc by simp
    ultimately show ?thesis using Cons.IH [of m] Cons.prems(1,2) Suc by simp
  qed
qed

lemma sublist_drop_prefix: "sublist p t \<longleftrightarrow> (\<exists>j. prefix p (drop j t))"
proof
  assume "sublist p t"
  then obtain a b where "t = a @ p @ b" by (auto simp: sublist_def)
  then have "prefix p (drop (length a) t)" by simp
  then show "\<exists>j. prefix p (drop j t)" ..
next
  assume "\<exists>j. prefix p (drop j t)"
  then obtain j b where "drop j t = p @ b" by (auto elim: prefixE)
  then have "t = take j t @ p @ b" by (metis append_take_drop_id)
  then show "sublist p t" unfolding sublist_def by blast
qed

locale first_search =
  fixes search :: "'a list \<Rightarrow> 'a list \<Rightarrow> int"
  assumes search_first: "p \<noteq> [] \<Longrightarrow> first_occurrence p t (search t p)"
begin

lemma absent_iff: "p \<noteq> [] \<Longrightarrow> search t p = -1 \<longleftrightarrow> \<not> sublist p t"
  using search_first [of p t]
  by (cases "search t p = -1") (auto simp: first_occurrence_def occurs_at_prefix sublist_drop_prefix)

lemma splice:
  assumes "p \<noteq> []"
  shows "(if search t p \<noteq> -1 then take (nat (search t p)) t @ v @ drop (nat (search t p) + length p) t else t)
         = replace_first p v t"
proof (cases "search t p = -1")
  case True
  then show ?thesis
    using search_first [OF assms, of t] replace_first_absent [OF assms, of t v]
    by (simp add: first_occurrence_def occurs_at_prefix)
next
  case False
  then show ?thesis
    using search_first [OF assms, of t] replace_first_at [OF assms, of "nat (search t p)" t v]
    by (simp add: first_occurrence_def occurs_at_prefix)
qed

lemma unique:
  assumes "p \<noteq> []" "first_occurrence p t r"
  shows "r = search t p"
proof -
  have *: "first_occurrence p t (search t p)" by (rule search_first [OF assms(1)])
  show ?thesis
  proof (cases "r = -1 \<or> search t p = -1")
    case True
    then show ?thesis
      using * assms(2) by (cases "r = -1"; cases "search t p = -1") (auto simp: first_occurrence_def)
  next
    case False
    then have "\<not> nat r < nat (search t p)" "\<not> nat (search t p) < nat r" "0 \<le> r" "0 \<le> search t p"
      using * assms(2) by (auto simp: first_occurrence_def)
    then show ?thesis by linarith
  qed
qed

end

definition kmp_index :: "'a list \<Rightarrow> 'a list \<Rightarrow> 'a \<Rightarrow> int" where
  "kmp_index t p z = the (kmp_search True (t @ [z]) (int (length t)) (p @ [z]) (int (length p)))"

interpretation kmp: first_search "\<lambda>t p. kmp_index t p z" for z
proof
  show "first_occurrence p t (kmp_index t p z)" if "p \<noteq> []" for p t :: "'a list"
    using kmp_search_spec [OF that, of t "[z]" "[z]"] by (auto simp: kmp_index_def)
qed

lemma kmp_search_index:
  "p \<noteq> [] \<Longrightarrow> kmp_search True (t @ [z]) (int (length t)) (p @ [z]) (int (length p)) = Some (kmp_index t p z)"
  using kmp_search_spec [of p t "[z]" "[z]"] by (auto simp: kmp_index_def)

end
