(* ===== verification/Sinetcc.thy ===== *)
theory Sinetcc
  imports Sinetcc_Kmp CString
begin

text \<open>
  The smart image NETCONF client
  (\<^verbatim>\<open>src/3pp_cnz/tinycore/tinycore_caa/sinetcc/src/sinetcc.c\<close>): option parsing, the connection, the
  receive loop, the template substitution and the session of \<^verbatim>\<open>main\<close>. The kernel, the resolver,
  the server and the file system are the parameter \<open>w\<close>; each answer may depend on all calls made so
  far, which the state records newest first. The optional log file is not modelled.
\<close>

section \<open>State and environment\<close>

datatype ncall =
    GetAddrInfo string | Socket | FcntlGet int | FcntlSet int int | Connect int "16 word" | Select int
  | GetSoError int | Close int | Poll int | Recv int nat | Usleep nat | Write int string
  | Malloc nat | Free | Fopen string | Stat string | Print string

record sinet =
  sockfd :: int
  meid_value :: string
  logging :: bool
  calls :: "ncall list"

definition sinet_init :: sinet where
  "sinet_init = \<lparr>sockfd = -1, meid_value = [], logging = False, calls = []\<rparr>"

text \<open>\<^verbatim>\<open>poll\<close> fails, times out, or reports \<^verbatim>\<open>POLLIN\<close>, \<^verbatim>\<open>POLLRDHUP\<close> and \<^verbatim>\<open>POLLERR\<close>.\<close>

datatype poll_res = PollFail | PollTimeout | PollEvents bool bool bool

datatype connect_res = ConnectOk | ConnectInProgress | ConnectError

record sworld =
  sw_getaddrinfo :: "ncall list \<Rightarrow> string \<Rightarrow> bool"
  sw_socket :: "ncall list \<Rightarrow> int"
  sw_fcntl_get :: "ncall list \<Rightarrow> int"
  sw_fcntl_set :: "ncall list \<Rightarrow> bool"
  sw_connect :: "ncall list \<Rightarrow> connect_res"
  sw_select :: "ncall list \<Rightarrow> int"
  sw_so_error :: "ncall list \<Rightarrow> int"
  sw_poll :: "ncall list \<Rightarrow> poll_res"
  sw_recv :: "ncall list \<Rightarrow> string \<times> bool" \<comment> \<open>bytes delivered, and whether errno is EAGAIN\<close>
  sw_write :: "ncall list \<Rightarrow> string \<Rightarrow> bool"
  sw_malloc :: "ncall list \<Rightarrow> nat \<Rightarrow> string option" \<comment> \<open>the old contents of the block, or null\<close>
  sw_fopen :: "ncall list \<Rightarrow> string \<Rightarrow> string option"
  sw_stat_size :: "ncall list \<Rightarrow> string \<Rightarrow> int"

definition call :: "(ncall list \<Rightarrow> 'r) \<Rightarrow> ncall \<Rightarrow> (sinet, 'r) prog" where
  "call f c = (\<lambda>s. Some (Ok (f (calls s)), s\<lparr>calls := c # calls s\<rparr>))"

section \<open>Constants\<close>

definition MAX_ATTEMPTS :: nat where "MAX_ATTEMPTS = 20"
definition MAXDATASIZE :: nat where "MAXDATASIZE = 4096"
definition MEID :: string where "MEID = ''#MEID''"

definition unlines :: "string list \<Rightarrow> string" where
  "unlines ls = concat (map (\<lambda>l. l @ [NL]) ls)"

definition HELLO_MESSAGE :: string where
  \<open>HELLO_MESSAGE = unlines
     [''<hello xmlns="urn:ietf:params:xml:ns:netconf:base:1.0">'', ''<capabilities>'', ''<capability>'',
      ''urn:ietf:params:netconf:base:1.0'', ''</capability>'', ''</capabilities>'', ''</hello>'', '']]>]]>'']\<close>

definition GET_MANAGED_ELEMENT_ID_MESSAGE :: string where
  \<open>GET_MANAGED_ELEMENT_ID_MESSAGE = unlines
     [''<rpc message-id="1" xmlns="urn:ietf:params:xml:ns:netconf:base:1.0">'', ''<get>'',
      ''<filter type="subtree">'', ''<ManagedElement>'', ''<managedElementId/>'', ''</ManagedElement>'',
      ''</filter>'', ''</get>'', ''</rpc>'', '']]>]]>'']\<close>

definition EDIT_CONFIG_PREFIX :: string where
  \<open>EDIT_CONFIG_PREFIX = unlines
     [''<rpc message-id="2" xmlns="urn:ietf:params:xml:ns:netconf:base:1.0">'', ''<edit-config>'', ''<config>'']\<close>

definition EDIT_CONFIG_SUFFIX :: string where
  \<open>EDIT_CONFIG_SUFFIX = unlines ['''', ''</config>'', ''</edit-config>'', ''</rpc>'', '']]>]]>'']\<close>

definition CLOSE_MESSAGE :: string where
  \<open>CLOSE_MESSAGE = unlines
     [''<rpc message-id="3" xmlns="urn:ietf:params:xml:ns:netconf:base:1.0">'', ''<close-session/>'',
      ''</rpc>'', '']]>]]>'']\<close>

definition MEID_TAG :: string where "MEID_TAG = ''<managedElementId>''"
definition OK_RESP :: string where "OK_RESP = ''<ok/>''"
definition EOM :: string where "EOM = '']]>]]>''"

section \<open>Receiving and sending\<close>

text \<open>A buffer of \<open>buff_size\<close> bytes, zeroed before, in which \<open>content\<close> was received, holds a C string.\<close>

definition terminated :: "nat \<Rightarrow> string \<Rightarrow> bool" where
  "terminated buff_size content \<longleftrightarrow> NUL \<in> set content \<or> length content < buff_size"

text \<open>
  One pass of the loop of \<^verbatim>\<open>recv_msg\<close>. The pass ends the routine with a return code, leaves the
  loop by \<^verbatim>\<open>break\<close>, or goes on to the loop condition with the new values of \<open>attempts\<close> and of the
  buffer.
\<close>

datatype recv_next = Again nat string | Return int | Break string

definition recv_step :: "sworld \<Rightarrow> nat \<Rightarrow> bool \<Rightarrow> nat \<Rightarrow> string \<Rightarrow> (sinet, recv_next) prog" where
  "recv_step w buff_size error_on_connection_closure attempts content =
     bind (gets sockfd) (\<lambda>fd.
     bind (call (sw_poll w) (Poll fd)) (\<lambda>poll_res.
     case poll_res of
       PollFail \<Rightarrow> ret (Again (attempts + 1) content)
     | PollTimeout \<Rightarrow> ret (Again (attempts + 1) content)
     | PollEvents pollin pollrdhup pollerr \<Rightarrow>
         if pollerr \<and> error_on_connection_closure then ret (Return (-1))
         else if pollrdhup \<and> error_on_connection_closure then ret (Return (-1))
         else if pollin then
           bind (call (sw_recv w) (Recv fd (buff_size - length content))) (\<lambda>(bytes, eagain).
           let got = take (buff_size - length content) bytes in
           if got = [] then
             bind (call (\<lambda>_. ()) (Usleep 100000)) (\<lambda>_.
             if eagain then ret (Again (attempts + 1) content)
             else if attempts + 1 = MAX_ATTEMPTS then ret (Return (-1))
             else ret (Again (attempts + 1) content))
           else
             (let content = content @ got in
              if \<not> terminated buff_size content then crash
              else if sublist EOM (cstr content) then ret (Break content)
              else ret (Again attempts content)))
         else ret (Again attempts content)))"

partial_function (option) recv_loop ::
  "sworld \<Rightarrow> nat \<Rightarrow> bool \<Rightarrow> nat \<Rightarrow> string \<Rightarrow> sinet \<Rightarrow> ((int \<times> string) res \<times> sinet) option" where
  "recv_loop w buff_size closure attempts content s =
     bind (recv_step w buff_size closure attempts content) (\<lambda>next s.
       case next of
         Return rc \<Rightarrow> Some (Ok (rc, content), s)
       | Break content \<Rightarrow> Some (Ok (0, content), s)
       | Again attempts content \<Rightarrow>
           if attempts \<le> MAX_ATTEMPTS then recv_loop w buff_size closure attempts content s
           else Some (Ok (0, content), s)) s"

declare recv_loop.simps [code]

text \<open>\<^verbatim>\<open>recv_msg\<close> on a zeroed buffer: the return code and the received bytes.\<close>

definition recv_msg :: "sworld \<Rightarrow> nat \<Rightarrow> bool \<Rightarrow> (sinet, int \<times> string) prog" where
  "recv_msg w buff_size error_on_connection_closure =
     recv_loop w buff_size error_on_connection_closure 0 []"

definition send_msg :: "sworld \<Rightarrow> string \<Rightarrow> (sinet, int) prog" where
  "send_msg w buff =
     bind (gets sockfd) (\<lambda>fd.
     bind (call (\<lambda>t. sw_write w t buff) (Write fd buff)) (\<lambda>ok.
     ret (if \<not> ok then -1 else 0)))"

definition handle_hello_netconf_message :: "sworld \<Rightarrow> (sinet, int) prog" where
  "handle_hello_netconf_message w =
     bind (recv_msg w MAXDATASIZE True) (\<lambda>(rc, buff).
     if rc < 0 then ret (-1)
     else bind (send_msg w HELLO_MESSAGE) (\<lambda>rc.
     if rc < 0 then ret (-1) else ret 0))"

section \<open>Connecting\<close>

definition O_NONBLOCK :: int where "O_NONBLOCK = 2048"

definition client_connect :: "sworld \<Rightarrow> string \<Rightarrow> string \<Rightarrow> (sinet, int) prog" where
  "client_connect w ipaddress port =
     bind (call (\<lambda>t. sw_getaddrinfo w t ipaddress) (GetAddrInfo ipaddress)) (\<lambda>found.
     if \<not> found then ret (-1)
     else bind (call (sw_socket w) Socket) (\<lambda>fd.
     seq (modify (\<lambda>s. s\<lparr>sockfd := fd\<rparr>)) (
     if fd = -1 then ret (-1)
     else bind (call (sw_fcntl_get w) (FcntlGet fd)) (\<lambda>flags.
     if flags < 0 then ret (-1)
     else bind (call (sw_fcntl_set w) (FcntlSet fd O_NONBLOCK)) (\<lambda>ok.
     if \<not> ok then ret (-1)
     else bind (call (sw_connect w) (Connect fd (word_of_int (uint (atoi port))))) (\<lambda>conn.
     bind (case conn of
             ConnectOk \<Rightarrow> ret True
           | ConnectError \<Rightarrow> seq (call (\<lambda>_. ()) (Close fd)) (ret False)
           | ConnectInProgress \<Rightarrow>
               bind (call (sw_select w) (Select fd)) (\<lambda>n.
               if n \<le> 0 then seq (call (\<lambda>_. ()) (Close fd)) (ret False)
               else bind (call (sw_so_error w) (GetSoError fd)) (\<lambda>so_error.
               if so_error \<noteq> 0 then seq (call (\<lambda>_. ()) (Close fd)) (ret False)
               else ret True))) (\<lambda>connected.
     if \<not> connected then ret (-1)
     else bind (call (sw_fcntl_set w) (FcntlSet fd flags)) (\<lambda>ok.
     if \<not> ok then seq (call (\<lambda>_. ()) (Close fd)) (ret (-1))
     else ret 0))))))))"

section \<open>Filling the template and reading replies\<close>

text \<open>
  The search on a C string and a constant pattern; the table of \<^verbatim>\<open>compute_prefix_function\<close> is
  allocated and released again.
\<close>

definition search_str :: "sworld \<Rightarrow> string \<Rightarrow> string \<Rightarrow> (sinet, int) prog" where
  "search_str w target pattern =
     bind (call (\<lambda>t. sw_malloc w t (4 * length pattern)) (Malloc (4 * length pattern))) (\<lambda>block.
     case kmp_search (block \<noteq> None) (target @ [NUL]) (int (length target)) (pattern @ [NUL]) (int (length pattern)) of
       None \<Rightarrow> crash
     | Some r \<Rightarrow> seq (when_do (block \<noteq> None) (call (\<lambda>_. ()) Free)) (ret r))"

text \<open>The body of the loop over the template's lines up to the \<^verbatim>\<open>strcat\<close>.\<close>

definition rework_line :: "sworld \<Rightarrow> string \<Rightarrow> (sinet, string) prog" where
  "rework_line w line =
     bind (search_str w line MEID) (\<lambda>j.
     if j \<noteq> -1 then
       bind (gets meid_value) (\<lambda>value.
       ret (take (MAXDATASIZE - 1) (take (nat j) line @ value @ drop (nat j + length MEID) line)))
     else ret line)"

text \<open>
  \<open>xmlbuff\<close> is the C string in the output block (\<^term>\<open>None\<close> for a null block or a block without a
  terminator), \<open>cap\<close> the size of the block.
\<close>

fun fill_lines :: "sworld \<Rightarrow> nat \<Rightarrow> string list \<Rightarrow> string option \<Rightarrow> (sinet, string option) prog" where
  "fill_lines w cap [] xmlbuff = ret xmlbuff"
| "fill_lines w cap (l # ls) xmlbuff =
     bind (rework_line w (cstr l)) (\<lambda>line.
     case xmlbuff of
       None \<Rightarrow> crash
     | Some xml \<Rightarrow>
         if length xml + length line < cap then fill_lines w cap ls (Some (xml @ line)) else crash)"

definition fill_xml_template ::
  "sworld \<Rightarrow> string \<Rightarrow> nat \<Rightarrow> string option \<Rightarrow> (sinet, int \<times> string option) prog" where
  "fill_xml_template w filename cap xmlbuff =
     bind (call (\<lambda>t. sw_fopen w t filename) (Fopen filename)) (\<lambda>fp.
     case fp of
       None \<Rightarrow> ret (-1, xmlbuff)
     | Some content \<Rightarrow>
         bind (fill_lines w cap (fgets_all MAXDATASIZE content) xmlbuff) (\<lambda>xml. ret (0, xml)))"

text \<open>
  \<^verbatim>\<open>extract_meid\<close>: the second token from the tag on is copied into \<^verbatim>\<open>meid.value\<close>, which has 128
  bytes.
\<close>

definition extract_meid :: "string \<Rightarrow> (sinet, int) prog" where
  "extract_meid resp =
     (case strstr resp MEID_TAG of
        None \<Rightarrow> ret (-1)
      | Some pch1 \<Rightarrow>
          (case strtok {CHR ''<'', CHR ''>''} pch1 of
             None \<Rightarrow> crash
           | Some (_, rest) \<Rightarrow>
               (case strtok {CHR ''<'', CHR ''>''} rest of
                  None \<Rightarrow> crash
                | Some (value, _) \<Rightarrow>
                    if length value < 128 then seq (modify (\<lambda>s. s\<lparr>meid_value := value\<rparr>)) (ret 0)
                    else crash)))"

definition get_managedelement_id :: "sworld \<Rightarrow> (sinet, int) prog" where
  "get_managedelement_id w =
     bind (send_msg w GET_MANAGED_ELEMENT_ID_MESSAGE) (\<lambda>rc.
     if rc < 0 then ret (-1)
     else bind (recv_msg w MAXDATASIZE True) (\<lambda>(rc, buff).
     if rc < 0 then ret (-1)
     else bind (extract_meid (cstr buff)) (\<lambda>rc.
     if rc < 0 then ret (-1) else ret 0)))"

definition check_ok_resp :: "sworld \<Rightarrow> string \<Rightarrow> (sinet, int) prog" where
  "check_ok_resp w xmlbuff =
     bind (search_str w xmlbuff OK_RESP) (\<lambda>pch. if pch = -1 then ret (-1) else ret 0)"

definition send_edit_config_query :: "sworld \<Rightarrow> string option \<Rightarrow> int \<Rightarrow> (sinet, int) prog" where
  "send_edit_config_query w xmlbuff xmlbuff_size =
     (let buff_size = to_size_t (to_int32 (xmlbuff_size * 2)) in
      bind (call (\<lambda>t. sw_malloc w t buff_size) (Malloc buff_size)) (\<lambda>block.
      case (block, xmlbuff) of
        (Some _, Some xml) \<Rightarrow>
          if buff_size = 0 then crash
          else bind (send_msg w (take (buff_size - 1) (EDIT_CONFIG_PREFIX @ xml @ EDIT_CONFIG_SUFFIX))) (\<lambda>rc.
          if rc < 0 then ret (-1)
          else bind (recv_msg w buff_size True) (\<lambda>(rc, resp).
          if rc < 0 then ret (-1)
          else bind (check_ok_resp w (cstr resp)) (\<lambda>rc.
          if rc < 0 then ret (-1)
          else seq (call (\<lambda>_. ()) Free) (ret 0))))
      | _ \<Rightarrow> crash))"

definition close_session :: "sworld \<Rightarrow> (sinet, int) prog" where
  "close_session w =
     bind (send_msg w CLOSE_MESSAGE) (\<lambda>rc.
     if rc < 0 then ret (-1)
     else bind (recv_msg w MAXDATASIZE False) (\<lambda>(rc, buff).
     if rc < 0 then ret (-1)
     else bind (check_ok_resp w (cstr buff)) (\<lambda>rc.
     if rc < 0 then ret (-1) else ret 0)))"

section \<open>The main program\<close>

record options =
  opt_ipaddress :: "string option"
  opt_port :: "string option"
  opt_m :: bool
  opt_f :: "string option"
  opt_d :: "bool option"

definition no_options :: options where
  "no_options = \<lparr>opt_ipaddress = None, opt_port = None, opt_m = False, opt_f = None, opt_d = None\<rparr>"

text \<open>
  The option loop. \<^verbatim>\<open>strcpy\<close> into \<^verbatim>\<open>char ipaddress[15]\<close>, \<^verbatim>\<open>char port[5]\<close> and
  \<^verbatim>\<open>char xml_template[128]\<close>, and the use of a missing argument, are undefined outside the buffers.
\<close>

fun parse_options :: "string list \<Rightarrow> options \<Rightarrow> (sinet, options) prog" where
  "parse_options [] opts = ret opts"
| "parse_options (arg # args) opts =
     (if arg = ''-m'' then parse_options args (opts\<lparr>opt_m := True\<rparr>)
      else if arg \<in> {''-s'', ''-p'', ''-f'', ''-d''} then
        (case args of
           [] \<Rightarrow> crash
         | v # args' \<Rightarrow>
             if arg = ''-s'' then
               (if length v < 15 then parse_options args' (opts\<lparr>opt_ipaddress := Some v\<rparr>) else crash)
             else if arg = ''-p'' then
               (if length v < 5 then parse_options args' (opts\<lparr>opt_port := Some v\<rparr>) else crash)
             else if arg = ''-f'' then
               (if length v < 128 then parse_options args' (opts\<lparr>opt_f := Some v\<rparr>) else crash)
             else parse_options args' (opts\<lparr>opt_d := Some (v \<noteq> ''0'' \<or> opt_d opts = Some True)\<rparr>))
      else parse_options args opts)"

definition print_usage :: "(sinet, 'a) prog" where
  "print_usage = exit_with EXIT_FAILURE"

text \<open>The transaction of \<^verbatim>\<open>main\<close> with \<^verbatim>\<open>-f\<close>: fill the template and send it.\<close>

definition edit_transaction :: "sworld \<Rightarrow> string \<Rightarrow> (sinet, int) prog" where
  "edit_transaction w xml_template =
     bind (call (\<lambda>t. sw_stat_size w t xml_template) (Stat xml_template)) (\<lambda>st_size.
     let buff_size = to_int32 (st_size * 2); cap = to_size_t buff_size in
     bind (call (\<lambda>t. sw_malloc w t cap) (Malloc cap)) (\<lambda>block.
     let xmlbuff = (case block of
           None \<Rightarrow> None
         | Some mem \<Rightarrow> (if NUL \<in> set (take cap mem) then Some (cstr mem) else None)) in
     bind (fill_xml_template w xml_template cap xmlbuff) (\<lambda>(rc, xml).
     if rc < 0 then ret (-1)
     else bind (send_edit_config_query w xml buff_size) (\<lambda>rc.
     if rc < 0 then ret (-1)
     else seq (call (\<lambda>_. ()) Free) (ret 0)))))"

definition transaction :: "sworld \<Rightarrow> string option \<Rightarrow> (sinet, int) prog" where
  "transaction w option_f =
     (case option_f of
        Some xml_template \<Rightarrow> edit_transaction w xml_template
      | None \<Rightarrow> bind (gets meid_value) (\<lambda>v. seq (call (\<lambda>_. ()) (Print (''MEID:'' @ v))) (ret 0)))"

text \<open>The run after the options are validated.\<close>

definition close_sock :: "(sinet, unit) prog" where
  "close_sock = bind (gets sockfd) (\<lambda>fd. call (\<lambda>_. ()) (Close fd))"

definition session :: "sworld \<Rightarrow> string \<Rightarrow> string \<Rightarrow> string option \<Rightarrow> (sinet, int) prog" where
  "session w ipaddress port option_f =
     bind (client_connect w ipaddress port) (\<lambda>rc.
     if rc < 0 then seq close_sock (ret EXIT_FAILURE)
     else bind (handle_hello_netconf_message w) (\<lambda>rc.
     if rc < 0 then seq close_sock (ret EXIT_FAILURE)
     else bind (get_managedelement_id w) (\<lambda>rc.
     if rc < 0 then seq close_sock (ret EXIT_FAILURE)
     else bind (transaction w option_f) (\<lambda>rc.
     if rc < 0 then seq close_sock (ret EXIT_FAILURE)
     else bind (close_session w) (\<lambda>rc.
     seq close_sock (ret (if rc < 0 then EXIT_FAILURE else EXIT_SUCCESS)))))))"

definition sinetcc_main :: "sworld \<Rightarrow> string list \<Rightarrow> (sinet, int) prog" where
  "sinetcc_main w args =
     (if args = [] then print_usage
      else bind (parse_options args no_options) (\<lambda>opts.
      case (opt_ipaddress opts, opt_port opts, opt_d opts) of
        (Some ipaddress, Some port, Some debug) \<Rightarrow>
          if opt_m opts \<longleftrightarrow> opt_f opts \<noteq> None then print_usage
          else seq (modify (\<lambda>s. s\<lparr>logging := debug\<rparr>)) (session w ipaddress port (opt_f opts))
      | _ \<Rightarrow> print_usage))"

section \<open>Running the calls\<close>

lemma run_call [run_simps]: "call f c s = Some (Ok (f (calls s)), s\<lparr>calls := c # calls s\<rparr>)"
  by (simp add: call_def)

lemma call_eq [ok_simps]:
  "call f c s = Some (r, s') \<longleftrightarrow> r = Ok (f (calls s)) \<and> s' = s\<lparr>calls := c # calls s\<rparr>"
  by (auto simp: call_def)

lemma wp_call [wp_simps]: "wp (call f c) Q E s = Q (f (calls s)) (s\<lparr>calls := c # calls s\<rparr>)"
  by (simp add: wp_def call_def)

lemma outcome_call [outcome_simps]:
  "outcome (call f c) R s = R (Ok (f (calls s))) (s\<lparr>calls := c # calls s\<rparr>)"
  by (simp add: outcome_def call_def)

section \<open>The receive loop\<close>

text \<open>
  What a trace of calls says: the bytes that \<^verbatim>\<open>recv\<close> delivered, the passes that failed (a poll that
  failed or timed out, a \<^verbatim>\<open>recv\<close> without data), and the number of polls.
\<close>

fun received :: "sworld \<Rightarrow> ncall list \<Rightarrow> string" where
  "received w [] = []"
| "received w (c # t) =
     received w t @ (case c of Recv _ n \<Rightarrow> take n (fst (sw_recv w t)) | _ \<Rightarrow> [])"

fun failed_passes :: "sworld \<Rightarrow> ncall list \<Rightarrow> nat" where
  "failed_passes w [] = 0"
| "failed_passes w (c # t) =
     failed_passes w t +
     (case c of
        Poll _ \<Rightarrow> (case sw_poll w t of PollEvents _ _ _ \<Rightarrow> 0 | _ \<Rightarrow> 1)
      | Recv _ n \<Rightarrow> (if take n (fst (sw_recv w t)) = [] then 1 else 0)
      | _ \<Rightarrow> 0)"

fun polls :: "ncall list \<Rightarrow> nat" where
  "polls [] = 0"
| "polls (c # t) = polls t + (case c of Poll _ \<Rightarrow> 1 | _ \<Rightarrow> 0)"

text \<open>Whenever \<^verbatim>\<open>poll\<close> reports an event it is one that \<^verbatim>\<open>recv_msg\<close> acts on.\<close>

definition poll_acts :: "sworld \<Rightarrow> bool \<Rightarrow> bool" where
  "poll_acts w closure \<longleftrightarrow>
     (\<forall>t pollin pollrdhup pollerr. sw_poll w t = PollEvents pollin pollrdhup pollerr \<longrightarrow>
        pollin \<or> closure \<and> (pollrdhup \<or> pollerr))"

lemma recv_step_spec:
  assumes "poll_acts w closure" "length content \<le> n"
  shows "\<exists>r s'. recv_step w n closure a content s = Some (r, s') \<and>
    polls (calls s') = Suc (polls (calls s)) \<and>
    (r = Ok (Again (a + 1) content) \<and> received w (calls s') = received w (calls s) \<and>
       failed_passes w (calls s') = Suc (failed_passes w (calls s)) \<or>
     r = Ok (Return (-1)) \<and> received w (calls s') = received w (calls s) \<or>
     (\<exists>b. b \<noteq> [] \<and> length (content @ b) \<le> n \<and> received w (calls s') = received w (calls s) @ b \<and>
       failed_passes w (calls s') = failed_passes w (calls s) \<and>
       (if \<not> terminated n (content @ b) then r = Crash
        else if sublist EOM (cstr (content @ b)) then r = Ok (Break (content @ b))
        else r = Ok (Again a (content @ b)))))"
proof (cases "sw_poll w (calls s)")
  case PollFail
  then show ?thesis by (simp add: recv_step_def run_simps)
next
  case PollTimeout
  then show ?thesis by (simp add: recv_step_def run_simps)
next
  case (PollEvents i h e)
  have acts: "i \<or> closure \<and> (h \<or> e)"
    using assms PollEvents by (auto simp: poll_acts_def)
  obtain bytes eagain where rv: "sw_recv w (Poll (sockfd s) # calls s) = (bytes, eagain)"
    by fastforce
  define b where "b = take (n - length content) bytes"
  show ?thesis
  proof (cases "closure \<and> (h \<or> e)")
    case True
    then show ?thesis using PollEvents by (auto simp: recv_step_def run_simps)
  next
    case False
    then have i: "i" "\<not> (e \<and> closure)" "\<not> (h \<and> closure)" using acts by auto
    show ?thesis
    proof (cases "b = []")
      case True
      then show ?thesis
        using PollEvents i rv by (auto simp: recv_step_def run_simps b_def Let_def)
    next
      case nb: False
      then show ?thesis
        using PollEvents i rv assms(2)
        by (simp add: recv_step_def run_simps Let_def flip: b_def) (auto simp: b_def)
    qed
  qed
qed

text \<open>What the loop guarantees from a state with \<open>a\<close> failed passes and \<open>content\<close> in the buffer.\<close>

definition recv_ends :: "nat \<Rightarrow> string \<Rightarrow> nat \<Rightarrow> (int \<times> string) res \<Rightarrow> bool" where
  "recv_ends n got failed r =
     (case r of
        Ok (rc, content) \<Rightarrow>
          rc = -1 \<or>
          rc = 0 \<and> content = got \<and> terminated n got \<and> (sublist EOM (cstr got) \<or> failed = Suc MAX_ATTEMPTS)
      | Crash \<Rightarrow> \<not> terminated n got
      | Exit _ \<Rightarrow> False)"

lemma recv_loop_spec:
  assumes "poll_acts w closure" "length content \<le> n" "a \<le> MAX_ATTEMPTS" "terminated n content"
    "received w (calls s) = r0 @ content" "failed_passes w (calls s) = f0 + a"
  shows "\<exists>r s' got. recv_loop w n closure a content s = Some (r, s') \<and>
    received w (calls s') = r0 @ got \<and> length got \<le> n \<and>
    recv_ends n got (failed_passes w (calls s') - f0) r \<and>
    polls (calls s') \<le> polls (calls s) + (Suc MAX_ATTEMPTS - a) + (n - length content)"
  using assms
proof (induction "(Suc MAX_ATTEMPTS - a) + (n - length content)" arbitrary: a content s rule: less_induct)
  case less
  obtain r s1 where step: "recv_step w n closure a content s = Some (r, s1)"
      and p: "polls (calls s1) = Suc (polls (calls s))"
      and r: "r = Ok (Again (a + 1) content) \<and> received w (calls s1) = received w (calls s) \<and>
         failed_passes w (calls s1) = Suc (failed_passes w (calls s)) \<or>
       r = Ok (Return (-1)) \<and> received w (calls s1) = received w (calls s) \<or>
       (\<exists>b. b \<noteq> [] \<and> length (content @ b) \<le> n \<and> received w (calls s1) = received w (calls s) @ b \<and>
         failed_passes w (calls s1) = failed_passes w (calls s) \<and>
         (if \<not> terminated n (content @ b) then r = Crash
          else if sublist EOM (cstr (content @ b)) then r = Ok (Break (content @ b))
          else r = Ok (Again a (content @ b))))"
    using recv_step_spec [OF less.prems(1,2)] by blast
  note unf = recv_loop.simps [of w n closure a content s] run_bind step
  from r consider
      (fail) "r = Ok (Again (a + 1) content)" "received w (calls s1) = received w (calls s)"
        "failed_passes w (calls s1) = Suc (failed_passes w (calls s))"
    | (stop) "r = Ok (Return (-1))" "received w (calls s1) = received w (calls s)"
    | (data) b where "b \<noteq> []" "length (content @ b) \<le> n" "received w (calls s1) = received w (calls s) @ b"
        "failed_passes w (calls s1) = failed_passes w (calls s)"
        "if \<not> terminated n (content @ b) then r = Crash
         else if sublist EOM (cstr (content @ b)) then r = Ok (Break (content @ b))
         else r = Ok (Again a (content @ b))"
    by blast
  then show ?case
  proof cases
    case fail
    show ?thesis
    proof (cases "a + 1 \<le> MAX_ATTEMPTS")
      case True
      then show ?thesis
        using less.hyps [of "a + 1" content s1] less.prems fail p by (fastforce simp: unf)
    next
      case False
      then show ?thesis using less.prems fail p by (auto simp: unf recv_ends_def)
    qed
  next
    case stop
    then show ?thesis using less.prems p by (auto simp: unf recv_ends_def)
  next
    case data
    consider "\<not> terminated n (content @ b)" | "terminated n (content @ b)" "sublist EOM (cstr (content @ b))"
      | (more) "terminated n (content @ b)" "\<not> sublist EOM (cstr (content @ b))" by blast
    then show ?thesis
    proof cases
      case more
      have "n - length (content @ b) < n - length content" using data(1,2) by (cases b) auto
      then show ?thesis
        using less.hyps [of a "content @ b" s1] less.prems data p more by (fastforce simp: unf)
    qed (use less.prems p data in \<open>auto simp: unf recv_ends_def\<close>)
  qed
qed


lemmas recv_loop_induct [consumes 1, case_names step] = recv_loop.raw_induct [rotated]

lemma recv_loop_never:
  assumes "recv_loop w n closure a content s = Some y"
  shows "closure \<or> \<not> a \<le> MAX_ATTEMPTS \<or> (\<exists>t. \<forall>h e. sw_poll w t \<noteq> PollEvents False h e)"
  using assms
proof (induction rule: recv_loop_induct)
  case (step rec w n closure a content s y)
  show ?case
  proof (rule ccontr)
    assume "\<not> ?case"
    then have c: "\<not> closure" "a \<le> MAX_ATTEMPTS" and a: "\<forall>t. \<exists>h e. sw_poll w t = PollEvents False h e" by auto
    then obtain h e where "sw_poll w (calls s) = PollEvents False h e" by blast
    then have "recv_step w n closure a content s = Some (Ok (Again a content), s\<lparr>calls := Poll (sockfd s) # calls s\<rparr>)"
      using c by (simp add: recv_step_def run_simps)
    then show False
      using step.hyps step.IH [of w n closure a content "s\<lparr>calls := Poll (sockfd s) # calls s\<rparr>" y] c a
      by (auto simp: run_bind)
  qed
qed

text \<open>
  C31: without the closure flag, as \<^verbatim>\<open>close_session\<close> calls it, \<^verbatim>\<open>recv_msg\<close> never returns against a
  socket on which \<^verbatim>\<open>poll\<close> keeps reporting an error or a hang-up and no data.
\<close>

theorem recv_msg_diverges:
  assumes "\<And>t. \<exists>h e. sw_poll w t = PollEvents False h e"
  shows "recv_msg w n False s = None"
proof (rule ccontr)
  assume "recv_msg w n False s \<noteq> None"
  then obtain y where "recv_loop w n False 0 [] s = Some y" by (auto simp: recv_msg_def)
  then show False using recv_loop_never [of w n False 0 "[]" s y] assms by auto
qed

section \<open>Frames of the operations\<close>

text \<open>The messages written to the server, oldest first.\<close>

fun writes :: "ncall list \<Rightarrow> string list" where
  "writes [] = []"
| "writes (c # t) = writes t @ (case c of Write _ m \<Rightarrow> [m] | _ \<Rightarrow> [])"

definition nothing_sent :: "sinet \<Rightarrow> sinet \<Rightarrow> bool" where
  "nothing_sent s s' \<longleftrightarrow> writes (calls s') = writes (calls s) \<and> sockfd s' = sockfd s \<and> meid_value s' = meid_value s"

lemma nothing_sent_refl [simp]: "nothing_sent s s"
  by (simp add: nothing_sent_def)

lemma nothing_sent_trans: "nothing_sent s s' \<Longrightarrow> nothing_sent s' s'' \<Longrightarrow> nothing_sent s s''"
  by (simp add: nothing_sent_def)

lemma recv_step_quiet: "recv_step w n cl a c s = Some (r, s') \<Longrightarrow> nothing_sent s s'"
  by (auto simp: recv_step_def run_simps nothing_sent_def Let_def
      split: poll_res.splits if_splits prod.splits option.splits res.splits)

lemma recv_loop_quiet: "recv_loop w n cl a c s = Some y \<Longrightarrow> nothing_sent s (snd y)"
proof (induction rule: recv_loop_induct)
  case (step rec w n cl a c s y)
  then show ?case
    by (auto simp: run_bind dest!: recv_step_quiet
        split: option.splits res.splits recv_next.splits if_splits) (metis nothing_sent_trans prod.collapse)
qed

lemma recv_msg_quiet: "recv_msg w n cl s = Some (r, s') \<Longrightarrow> nothing_sent s s'"
  using recv_loop_quiet [of w n cl 0 "[]" s "(r, s')"] by (simp add: recv_msg_def)

lemma search_str_quiet: "search_str w t p s = Some (Ok r, s') \<Longrightarrow> nothing_sent s s'"
  by (auto simp: search_str_def ok_simps nothing_sent_def split: option.splits if_splits)

section \<open>Template, replies and session\<close>

text \<open>The library's \<^verbatim>\<open>strstr\<close> provides the same search.\<close>

definition strstr_index :: "string \<Rightarrow> string \<Rightarrow> int" where
  "strstr_index t p = (case strstr t p of None \<Rightarrow> -1 | Some r \<Rightarrow> int (length t) - int (length r))"

lemma strstr_first:
  "p \<noteq> [] \<Longrightarrow> strstr t p = Some r \<Longrightarrow>
     \<exists>n \<le> length t. r = drop n t \<and> prefix p (drop n t) \<and> (\<forall>j < n. \<not> prefix p (drop j t))"
proof (induction t)
  case (Cons c t)
  show ?case
  proof (cases "prefix p (c # t)")
    case True
    then show ?thesis using Cons.prems by (intro exI [of _ 0]) auto
  next
    case False
    then obtain n where n: "n \<le> length t" "r = drop n t" "prefix p (drop n t)" "\<forall>j < n. \<not> prefix p (drop j t)"
      using Cons by auto
    have "\<not> prefix p (drop j (c # t))" if "j < Suc n" for j
      using that False n(4) by (cases j) auto
    then show ?thesis using n by (intro exI [of _ "Suc n"]) auto
  qed
qed simp

interpretation lib: first_search strstr_index
proof
  show "first_occurrence p t (strstr_index t p)" if p: "p \<noteq> []" for p t :: string
  proof (cases "strstr t p")
    case None
    then have "\<not> prefix p (drop j t)" for j using strstr_None_iff [of t p] by (auto simp: sublist_drop_prefix)
    then show ?thesis using None by (simp add: strstr_index_def first_occurrence_def occurs_at_prefix)
  next
    case (Some r)
    from strstr_first [OF p Some] obtain n where
      "n \<le> length t" "r = drop n t" "prefix p (drop n t)" "\<forall>j < n. \<not> prefix p (drop j t)" by blast
    then show ?thesis
      using Some first_occurrenceI [of p t n] by (simp add: strstr_index_def occurs_at_prefix of_nat_diff)
  qed
qed

text \<open>
  C1: the search is safe and right: with the table allocated it reads neither string outside its
  bounds, never uses an entry of the table before it is set, ends, and finds what \<^verbatim>\<open>strstr\<close> finds.
\<close>

theorem kmp_search_strstr:
  assumes "p \<noteq> []"
  shows "kmp_search True (t @ trest) (int (length t)) (p @ prest) (int (length p)) = Some (strstr_index t p)"
  using kmp_search_spec [OF assms, of t trest prest] lib.unique [OF assms] by auto

definition malloc_ok :: "sworld \<Rightarrow> bool" where
  "malloc_ok w \<longleftrightarrow> (\<forall>t n. sw_malloc w t n \<noteq> None)"

lemma search_str_run:
  assumes "malloc_ok w" "p \<noteq> []"
  shows "search_str w t p s =
    Some (Ok (kmp_index t p NUL), s\<lparr>calls := Free # Malloc (4 * length p) # calls s\<rparr>)"
  using assms kmp_search_index [of p t NUL] by (auto simp: search_str_def run_simps malloc_ok_def)

definition expand_line :: "string \<Rightarrow> string \<Rightarrow> string" where
  "expand_line v l = (if sublist MEID l then take (MAXDATASIZE - 1) (replace_first MEID v l) else l)"

definition expand :: "string \<Rightarrow> string \<Rightarrow> string" where
  "expand v content = concat (map (\<lambda>l. expand_line v (cstr l)) (fgets_all MAXDATASIZE content))"

lemma MEID_nonempty [simp]: "MEID \<noteq> []" "OK_RESP \<noteq> []" "MEID_TAG \<noteq> []"
  by (simp_all add: MEID_def OK_RESP_def MEID_TAG_def)

lemma rework_line_run:
  assumes "malloc_ok w"
  shows "rework_line w l s =
    Some (Ok (expand_line (meid_value s) l), s\<lparr>calls := Free # Malloc (4 * length MEID) # calls s\<rparr>)"
  using kmp.splice [of MEID l NUL "meid_value s"] kmp.absent_iff [of MEID l NUL] assms
  by (auto simp: rework_line_def run_simps search_str_run expand_line_def simp del: take_append)

lemma fill_lines_run:
  assumes "malloc_ok w" "length xml < cap"
  shows "\<exists>s'. nothing_sent s s' \<and> fill_lines w cap ls (Some xml) s =
    Some (let out = xml @ concat (map (\<lambda>l. expand_line (meid_value s) (cstr l)) ls) in
          if length out < cap then Ok (Some out) else Crash, s')"
  using assms(2)
proof (induction ls arbitrary: xml s)
  case Nil
  then show ?case by (auto simp: run_simps)
next
  case (Cons l ls)
  let ?line = "expand_line (meid_value s) (cstr l)"
  let ?s = "s\<lparr>calls := Free # Malloc (4 * length MEID) # calls s\<rparr>"
  have q: "nothing_sent s ?s" by (simp add: nothing_sent_def)
  have run: "rework_line w (cstr l) s = Some (Ok ?line, ?s)" by (rule rework_line_run [OF assms(1)])
  show ?case
  proof (cases "length xml + length ?line < cap")
    case True
    then obtain s' where "nothing_sent ?s s'" and "fill_lines w cap ls (Some (xml @ ?line)) ?s =
       Some (let out = (xml @ ?line) @ concat (map (\<lambda>l. expand_line (meid_value ?s) (cstr l)) ls) in
          if length out < cap then Ok (Some out) else Crash, s')"
      using Cons.IH [of "xml @ ?line" ?s] by auto
    then show ?thesis using run True nothing_sent_trans [OF q] by (intro exI [of _ s']) (simp add: run_bind)
  next
    case False
    then show ?thesis using run q by (intro exI [of _ ?s]) (simp add: run_bind run_crash)
  qed
qed

text \<open>
  C36: filling the template is line by line substitution: the block holds what it held before
  (the block is not cleared after \<^verbatim>\<open>malloc\<close>) followed by every line of the file with its first place
  card replaced by the managed element id; the routine leaves the block's bounds exactly when that
  text has no room.
\<close>

theorem fill_xml_template_expands:
  assumes "malloc_ok w" "sw_fopen w (calls s) file = Some content" "length old < cap"
  shows "\<exists>s'. nothing_sent s s' \<and> fill_xml_template w file cap (Some old) s =
    Some (if length old + length (expand (meid_value s) content) < cap
          then Ok (0, Some (old @ expand (meid_value s) content)) else Crash, s')"
proof -
  let ?s = "s\<lparr>calls := Fopen file # calls s\<rparr>"
  have q: "nothing_sent s ?s" by (simp add: nothing_sent_def)
  obtain s' where s': "nothing_sent ?s s'" "fill_lines w cap (fgets_all MAXDATASIZE content) (Some old) ?s =
    Some (let out = old @ expand (meid_value s) content in if length out < cap then Ok (Some out) else Crash, s')"
    using fill_lines_run [OF assms(1,3), of ?s "fgets_all MAXDATASIZE content"] by (auto simp: expand_def)
  then show ?thesis
    using assms(2) nothing_sent_trans [OF q] by (intro exI [of _ s']) (simp add: fill_xml_template_def run_simps Let_def)
qed

text \<open>
  C35: \<^verbatim>\<open>extract_meid\<close> reads back the managed element id of a reply: a non-empty value without angle
  brackets that fits \<^verbatim>\<open>meid.value\<close>, between the first opening tag and the next bracket.
\<close>

lemma extract_meid_roundtrip:
  assumes "\<And>k. k < length pre \<Longrightarrow> \<not> prefix MEID_TAG (drop k (pre @ MEID_TAG @ value @ ''<'' @ post))"
    "value \<noteq> []" "set value \<inter> {CHR ''<'', CHR ''>''} = {}" "length value < 128"
  shows "extract_meid (pre @ MEID_TAG @ value @ ''<'' @ post) s = Some (Ok 0, s\<lparr>meid_value := value\<rparr>)"
proof -
  let ?d = "{CHR ''<'', CHR ''>''}"
  have first: "strtok ?d (MEID_TAG @ value @ ''<'' @ post) = Some (''managedElementId'', value @ ''<'' @ post)"
    by (simp add: MEID_TAG_def strtok_def)
  have "dropWhile (\<lambda>c. c \<in> ?d) (value @ ''<'' @ post) = value @ ''<'' @ post"
    using assms(2,3) by (cases "value") auto
  moreover have "takeWhile (\<lambda>c. c \<notin> ?d) (value @ ''<'' @ post) = value"
    using assms(3) by (subst takeWhile_append2) auto
  moreover obtain c cs where "value @ ''<'' @ post = c # cs" by (cases "value") auto
  ultimately have "\<exists>r. strtok ?d (value @ ''<'' @ post) = Some (value, r)"
    by (simp add: strtok_def)
  then show ?thesis
    using strstr_append [OF assms(1)] first assms(4) by (auto simp: extract_meid_def run_simps)
qed

text \<open>What the operations write and keep, when they return.\<close>

lemma send_msg_sent:
  "send_msg w m s = Some (Ok rc, s') \<Longrightarrow>
     writes (calls s') = writes (calls s) @ [m] \<and> sockfd s' = sockfd s \<and> meid_value s' = meid_value s"
  by (auto simp: send_msg_def ok_simps)

lemma check_ok_resp_quiet: "check_ok_resp w r s = Some (Ok rc, s') \<Longrightarrow> nothing_sent s s'"
  by (auto simp: check_ok_resp_def ok_simps dest: search_str_quiet split: if_splits)

lemma rework_line_quiet: "rework_line w l s = Some (Ok l', s') \<Longrightarrow> nothing_sent s s'"
  by (auto simp: rework_line_def ok_simps dest: search_str_quiet split: if_splits)

lemma fill_lines_quiet: "fill_lines w cap ls x s = Some (Ok x', s') \<Longrightarrow> nothing_sent s s'"
proof (induction ls arbitrary: x s)
  case (Cons l ls)
  then show ?case
    by (cases x) (auto simp: ok_simps split: if_splits dest!: rework_line_quiet intro: nothing_sent_trans)
qed (simp add: ok_simps)

lemma fill_xml_template_quiet: "fill_xml_template w f cap x s = Some (Ok rx, s') \<Longrightarrow> nothing_sent s s'"
  by (auto simp: fill_xml_template_def ok_simps nothing_sent_def split: option.splits dest!: fill_lines_quiet)

lemma client_connect_quiet:
  "client_connect w ip port s = Some (Ok rc, s') \<Longrightarrow> writes (calls s') = writes (calls s)"
  by (auto simp: client_connect_def ok_simps split: if_splits connect_res.splits)

lemma hello_sent:
  "handle_hello_netconf_message w s = Some (Ok rc, s') \<Longrightarrow> \<not> rc < 0 \<Longrightarrow>
     writes (calls s') = writes (calls s) @ [HELLO_MESSAGE] \<and> sockfd s' = sockfd s"
  by (auto simp: handle_hello_netconf_message_def ok_simps nothing_sent_def split: if_splits
      dest!: recv_msg_quiet send_msg_sent)

lemma extract_meid_kept:
  "extract_meid r s = Some (Ok rc, s') \<Longrightarrow> writes (calls s') = writes (calls s) \<and> sockfd s' = sockfd s"
  by (auto simp: extract_meid_def ok_simps split: option.splits if_splits)

lemma get_managedelement_id_sent:
  "get_managedelement_id w s = Some (Ok rc, s') \<Longrightarrow> \<not> rc < 0 \<Longrightarrow>
     writes (calls s') = writes (calls s) @ [GET_MANAGED_ELEMENT_ID_MESSAGE] \<and> sockfd s' = sockfd s"
  by (auto simp: get_managedelement_id_def ok_simps nothing_sent_def split: if_splits
      dest!: recv_msg_quiet send_msg_sent extract_meid_kept)

lemma close_session_sent:
  "close_session w s = Some (Ok rc, s') \<Longrightarrow>
     writes (calls s') = writes (calls s) @ [CLOSE_MESSAGE] \<and> sockfd s' = sockfd s"
  by (auto simp: close_session_def ok_simps nothing_sent_def split: if_splits
      dest!: recv_msg_quiet send_msg_sent check_ok_resp_quiet)

lemma send_edit_config_query_sent:
  "send_edit_config_query w x n s = Some (Ok rc, s') \<Longrightarrow> \<not> rc < 0 \<Longrightarrow>
     \<exists>xml k. x = Some xml \<and> writes (calls s') =
       writes (calls s) @ [take k (EDIT_CONFIG_PREFIX @ xml @ EDIT_CONFIG_SUFFIX)] \<and> sockfd s' = sockfd s"
  by (cases x) (auto simp: send_edit_config_query_def Let_def ok_simps nothing_sent_def
      simp del: take_append split: if_splits option.splits
      dest!: recv_msg_quiet send_msg_sent check_ok_resp_quiet)

definition edit_part :: "string option \<Rightarrow> string list \<Rightarrow> bool" where
  "edit_part f ms \<longleftrightarrow>
     (case f of
        None \<Rightarrow> ms = []
      | Some _ \<Rightarrow> (\<exists>xml k. ms = [take k (EDIT_CONFIG_PREFIX @ xml @ EDIT_CONFIG_SUFFIX)]))"

lemma edit_transaction_sent:
  assumes "edit_transaction w f s = Some (Ok rc, s')" "\<not> rc < 0"
  shows "\<exists>ms. edit_part (Some f) ms \<and> writes (calls s') = writes (calls s) @ ms \<and> sockfd s' = sockfd s"
  using assms
  by (auto simp: edit_transaction_def Let_def ok_simps nothing_sent_def edit_part_def simp del: take_append
      split: if_splits prod.splits dest!: fill_xml_template_quiet send_edit_config_query_sent) blast

lemma transaction_sent:
  assumes "transaction w f s = Some (Ok rc, s')" "\<not> rc < 0"
  shows "\<exists>ms. edit_part f ms \<and> writes (calls s') = writes (calls s) @ ms \<and> sockfd s' = sockfd s"
proof (cases f)
  case None
  then show ?thesis using assms by (auto simp: transaction_def ok_simps edit_part_def)
next
  case (Some t)
  then show ?thesis using assms edit_transaction_sent by (simp add: transaction_def)
qed

lemma session_sent:
  assumes "session w ip port f s = Some (Ok EXIT_SUCCESS, s')"
  shows "\<exists>ms. edit_part f ms \<and> writes (calls s') =
     writes (calls s) @ [HELLO_MESSAGE, GET_MANAGED_ELEMENT_ID_MESSAGE] @ ms @ [CLOSE_MESSAGE]"
  using assms
  by (auto simp: session_def close_sock_def ok_simps EXIT_SUCCESS_def EXIT_FAILURE_def split: if_splits
      dest!: client_connect_quiet hello_sent get_managedelement_id_sent transaction_sent close_session_sent)

lemma close_sock_last:
  "seq close_sock (ret x) s = Some (Ok y, s') \<Longrightarrow> \<exists>t. calls s' = Close (sockfd s') # t"
  by (auto simp: close_sock_def ok_simps)

lemma session_closes:
  "session w ip port f s = Some (Ok rc, s') \<Longrightarrow> \<exists>t. calls s' = Close (sockfd s') # t"
  unfolding session_def bind_eq_Ok by (elim exE conjE) (auto simp: bind_eq_Ok dest: close_sock_last split: if_split_asm)

lemma parse_options_pure: "parse_options args opts s = Some (Ok opts', s') \<Longrightarrow> s' = s"
proof (induction args opts arbitrary: s rule: parse_options.induct)
  case (2 arg args opts)
  show ?case
  proof (cases "arg = ''-m'' \<or> arg \<notin> {''-s'', ''-p'', ''-f'', ''-d''}")
    case True
    then show ?thesis using "2.prems" "2.IH"(1,6) by (simp split: if_splits)
  next
    case False
    then obtain v args' where "args = v # args'" using "2.prems" by (cases args) (auto simp: ok_simps)
    then show ?thesis using False "2.prems" "2.IH"(2-5) by (simp add: ok_simps split: if_splits)
  qed
qed (simp add: ok_simps)

lemma main_returns_from_session:
  assumes "sinetcc_main w args s = Some (Ok rc, s')"
  obtains opts ip port d where "parse_options args no_options s = Some (Ok opts, s)"
    "opt_ipaddress opts = Some ip" "opt_port opts = Some port" "opt_d opts = Some d"
    "opt_m opts \<noteq> (opt_f opts \<noteq> None)"
    "session w ip port (opt_f opts) (s\<lparr>logging := d\<rparr>) = Some (Ok rc, s')"
proof -
  have "args \<noteq> []" using assms by (auto simp: sinetcc_main_def print_usage_def ok_simps)
  then obtain opts where p: "parse_options args no_options s = Some (Ok opts, s)"
    and k: "(case (opt_ipaddress opts, opt_port opts, opt_d opts) of
        (Some ipaddress, Some port, Some debug) \<Rightarrow>
          if opt_m opts \<longleftrightarrow> opt_f opts \<noteq> None then print_usage
          else seq (modify (\<lambda>s. s\<lparr>logging := debug\<rparr>)) (session w ipaddress port (opt_f opts))
      | _ \<Rightarrow> print_usage) s = Some (Ok rc, s')"
    using assms unfolding sinetcc_main_def by (simp only: if_False bind_eq_Ok) (metis parse_options_pure)
  show ?thesis
    using k that [OF p]
    by (cases "opt_ipaddress opts"; cases "opt_port opts"; cases "opt_d opts")
      (auto simp: print_usage_def ok_simps split: if_splits)
qed

text \<open>
  C30: a run of \<^verbatim>\<open>main\<close> that succeeds has sent the messages of a session in order and nothing else:
  the hello, the query of the managed element id, with \<^verbatim>\<open>-f\<close> one edit-config query, and the close.
\<close>

theorem main_session_order:
  assumes "sinetcc_main w args sinet_init = Some (Ok EXIT_SUCCESS, s')"
  shows "\<exists>opts ms. parse_options args no_options sinet_init = Some (Ok opts, sinet_init) \<and>
    edit_part (opt_f opts) ms \<and>
    writes (calls s') = [HELLO_MESSAGE, GET_MANAGED_ELEMENT_ID_MESSAGE] @ ms @ [CLOSE_MESSAGE]"
  using assms by (elim main_returns_from_session) (auto simp: sinet_init_def dest!: session_sent)

text \<open>
  whenever \<^verbatim>\<open>main\<close> returns, with success or not, its last call closes the socket.
\<close>

lemma main_closes_socket:
  assumes "sinetcc_main w args s = Some (Ok rc, s')"
  shows "\<exists>t. calls s' = Close (sockfd s') # t"
  using assms by (elim main_returns_from_session) (rule session_closes)

text \<open>
  the address buffer holds fourteen characters: an argument of fifteen or more, such as
  255.255.255.255, makes \<^verbatim>\<open>main\<close> write outside the buffer before any option is validated.
\<close>

lemma main_address_overflow:
  assumes "15 \<le> length ip"
  shows "sinetcc_main w (''-s'' # ip # rest) s = Some (Crash, s)"
  using assms by (simp add: sinetcc_main_def run_simps)

section \<open>A concrete session\<close>

text \<open>A server that answers each request at once, used to run the program on concrete input.\<close>

definition demo_reply :: "nat \<Rightarrow> string" where
  "demo_reply n =
     (if n = 0 then ''<hello/>]]>]]>''
      else if n = 1 then ''<managedElementId>1</managedElementId>]]>]]>''
      else ''<ok/>]]>]]>'')"

fun recvs :: "ncall list \<Rightarrow> nat" where
  "recvs [] = 0"
| "recvs (c # t) = (case c of Recv _ _ \<Rightarrow> Suc (recvs t) | _ \<Rightarrow> recvs t)"

definition demo_world :: sworld where
  "demo_world =
     \<lparr>sw_getaddrinfo = \<lambda>_ _. True, sw_socket = \<lambda>_. 3, sw_fcntl_get = \<lambda>_. 2, sw_fcntl_set = \<lambda>_. True,
      sw_connect = \<lambda>_. ConnectInProgress, sw_select = \<lambda>_. 1, sw_so_error = \<lambda>_. 0,
      sw_poll = \<lambda>_. PollEvents True False False,
      sw_recv = \<lambda>t. (demo_reply (recvs t), False),
      sw_write = \<lambda>_ _. True, sw_malloc = \<lambda>_ n. Some (replicate n NUL),
      sw_fopen = \<lambda>_ _. Some (''<id>#MEID</id>'' @ [NL]), sw_stat_size = \<lambda>_ _. 100\<rparr>"

definition demo_args :: "string list" where
  "demo_args = [''-s'', ''10.0.0.1'', ''-p'', ''830'', ''-d'', ''0'', ''-f'', ''t.xml'']"

text \<open>A message that arrives whole is received by one poll and one \<^verbatim>\<open>recv\<close>.\<close>

lemma recv_msg_whole:
  assumes "sw_poll w (calls s) = PollEvents True False False"
    "sw_recv w (Poll (sockfd s) # calls s) = (b, e)" "length b < n" "sublist EOM (cstr b)"
  shows "recv_msg w n closure s = Some (Ok (0, b), s\<lparr>calls := Recv (sockfd s) n # Poll (sockfd s) # calls s\<rparr>)"
proof -
  have "b \<noteq> []" using assms(4) by (auto simp: cstr_def EOM_def)
  then have "recv_step w n closure 0 [] s =
    Some (Ok (Break b), s\<lparr>calls := Recv (sockfd s) n # Poll (sockfd s) # calls s\<rparr>)"
    using assms by (simp add: recv_step_def run_simps terminated_def)
  then show ?thesis by (simp add: recv_msg_def recv_loop.simps [of w n closure 0] run_bind)
qed

lemma check_ok_resp_run:
  assumes "malloc_ok w"
  shows "check_ok_resp w r s = Some (Ok (if sublist OK_RESP r then 0 else -1),
    s\<lparr>calls := Free # Malloc (4 * length OK_RESP) # calls s\<rparr>)"
  using kmp.absent_iff [of OK_RESP r NUL] assms
  by (simp add: check_ok_resp_def run_simps search_str_run)

lemma demo_malloc [simp]: "malloc_ok demo_world"
  by (simp add: malloc_ok_def demo_world_def)

lemma demo_fields [simp]:
  "sw_write demo_world t m" "sw_malloc demo_world t n = Some (replicate n NUL)"
  "sw_fopen demo_world t f = Some (''<id>#MEID</id>'' @ [NL])" "sw_stat_size demo_world t f = 100"
  "sw_poll demo_world t = PollEvents True False False"
  "sw_recv demo_world t = (demo_reply (recvs t), False)"
  by (simp_all add: demo_world_def)

lemma demo_connect:
  "client_connect demo_world ''10.0.0.1'' ''830'' s = Some (Ok 0, s\<lparr>sockfd := 3, calls :=
     [FcntlSet 3 2, GetSoError 3, Select 3, Connect 3 830, FcntlSet 3 2048, FcntlGet 3, Socket,
      GetAddrInfo ''10.0.0.1''] @ calls s\<rparr>)"
proof -
  have "atoi ''830'' = 830" by code_simp
  then show ?thesis by (simp add: client_connect_def run_simps demo_world_def O_NONBLOCK_def)
qed

lemma demo_recv_msg:
  "50 \<le> n \<Longrightarrow> recv_msg demo_world n closure s = Some (Ok (0, demo_reply (recvs (calls s))),
     s\<lparr>calls := Recv (sockfd s) n # Poll (sockfd s) # calls s\<rparr>)"
  by (rule recv_msg_whole) (auto simp: demo_reply_def EOM_def cstr_def sublist_code)

lemmas demo_receive = demo_recv_msg demo_reply_def cstr_def MAXDATASIZE_def

lemma demo_hello:
  "recvs (calls s) = 0 \<Longrightarrow> handle_hello_netconf_message demo_world s =
   Some (Ok 0, s\<lparr>calls := Write (sockfd s) HELLO_MESSAGE # Recv (sockfd s) 4096 # Poll (sockfd s) # calls s\<rparr>)"
  by (simp add: handle_hello_netconf_message_def run_simps send_msg_def demo_receive)

lemma demo_get:
  "recvs (calls s) = 1 \<Longrightarrow> get_managedelement_id demo_world s =
   Some (Ok 0, s\<lparr>calls := Recv (sockfd s) 4096 # Poll (sockfd s) #
     Write (sockfd s) GET_MANAGED_ELEMENT_ID_MESSAGE # calls s, meid_value := ''1''\<rparr>)"
  by (simp add: get_managedelement_id_def run_simps send_msg_def demo_receive extract_meid_def MEID_TAG_def strtok_def)

lemma demo_close:
  "recvs (calls s) \<ge> 2 \<Longrightarrow> \<exists>s'. close_session demo_world s = Some (Ok 0, s')"
  by (simp add: close_session_def run_simps send_msg_def demo_receive check_ok_resp_run OK_RESP_def sublist_code)

lemma demo_fill:
  "meid_value s = ''1'' \<Longrightarrow> fill_xml_template demo_world f 200 (Some []) s =
   Some (Ok (0, Some (''<id>1</id>'' @ [NL])), s\<lparr>calls := Free # Malloc (4 * length MEID) # Fopen f # calls s\<rparr>)"
  using fgets_all_lines [of "[''<id>#MEID</id>'']" 4096]
  by (simp add: fill_xml_template_def run_simps MAXDATASIZE_def rework_line_run cstr_def
      expand_line_def MEID_def sublist_code)

lemma demo_options:
  "parse_options demo_args no_options s = Some (Ok \<lparr>opt_ipaddress = Some ''10.0.0.1'', opt_port = Some ''830'',
     opt_m = False, opt_f = Some ''t.xml'', opt_d = Some False\<rparr>, s)"
  by (simp add: demo_args_def no_options_def run_simps)

lemma demo_query:
  "recvs (calls s) = 2 \<Longrightarrow>
     \<exists>s'. send_edit_config_query demo_world (Some xml) 200 s = Some (Ok 0, s') \<and> recvs (calls s') = 3"
  by (simp add: send_edit_config_query_def to_int32_def to_size_t_def run_simps Let_def
      send_msg_def demo_receive check_ok_resp_run OK_RESP_def sublist_code del: take_append)

lemma demo_edit:
  assumes "recvs (calls s) = 2" "meid_value s = ''1''"
  shows "\<exists>s'. transaction demo_world (Some f) s = Some (Ok 0, s') \<and> recvs (calls s') = 3"
proof -
  let ?s = "s\<lparr>calls := Free # Malloc (4 * length MEID) # Fopen f # Malloc 200 # Stat f # calls s\<rparr>"
  obtain s' where "send_edit_config_query demo_world (Some (''<id>1</id>'' @ [NL])) 200 ?s = Some (Ok 0, s')"
    "recvs (calls s') = 3"
    using demo_query [of ?s] assms(1) by auto
  then show ?thesis
    using assms(2)
    by (simp add: transaction_def edit_transaction_def run_simps Let_def to_int32_def to_size_t_def demo_fill cstr_def)
qed

lemma demo_run: "\<exists>s'. sinetcc_main demo_world demo_args sinet_init = Some (Ok EXIT_SUCCESS, s')"
proof -
  define s where "s = \<lparr>sockfd = 3, meid_value = ''1'', logging = False,
    calls = Recv 3 4096 # Poll 3 # Write 3 GET_MANAGED_ELEMENT_ID_MESSAGE # Write 3 HELLO_MESSAGE # Recv 3 4096 # Poll 3 #
      [FcntlSet 3 2, GetSoError 3, Select 3, Connect 3 830, FcntlSet 3 2048, FcntlGet 3, Socket,
      GetAddrInfo ''10.0.0.1'']\<rparr>"
  obtain s1 where 1: "transaction demo_world (Some ''t.xml'') s = Some (Ok 0, s1)" "recvs (calls s1) = 3"
    using demo_edit [of s "''t.xml''"] by (auto simp: s_def)
  obtain s2 where 2: "close_session demo_world s1 = Some (Ok 0, s2)"
    using demo_close [of s1] 1 by auto
  show ?thesis
    using 1 2 by (simp add: sinetcc_main_def session_def demo_args_def [symmetric] demo_options demo_connect demo_hello demo_get
      run_simps s_def sinet_init_def close_sock_def) (simp add: demo_args_def)
qed

section \<open>Witnesses\<close>

theorem kmp_search_strstr_witness:
  "kmp_search True (''ababac'' @ []) (int (length ''ababac'')) (''abac'' @ []) (int (length ''abac'')) = Some 2"
  using kmp_search_strstr [of "''abac''" "''ababac''" "[]" "[]"] by (simp add: strstr_index_def)


theorem recv_msg_diverges_witness:
  "recv_msg (demo_world\<lparr>sw_poll := \<lambda>_. PollEvents False False True\<rparr>) 4096 False sinet_init = None"
  by (rule recv_msg_diverges) auto

theorem fill_xml_template_expands_witness:
  "\<exists>s'. nothing_sent (sinet_init\<lparr>meid_value := ''1''\<rparr>) s' \<and>
     fill_xml_template demo_world ''t.xml'' 200 (Some []) (sinet_init\<lparr>meid_value := ''1''\<rparr>) =
     Some (Ok (0, Some (''<id>1</id>'' @ [NL])), s')"
  using fill_xml_template_expands [of demo_world "sinet_init\<lparr>meid_value := ''1''\<rparr>" "''t.xml''" _ "[]" 200]
    fgets_all_lines [of "[''<id>#MEID</id>'']" 4096]
  by (simp add: expand_def MAXDATASIZE_def cstr_def expand_line_def MEID_def sublist_code)

lemma extract_meid_roundtrip_witness:
  "extract_meid (''<me>'' @ MEID_TAG @ ''1'' @ ''<'' @ ''/managedElementId>'') sinet_init
   = Some (Ok 0, sinet_init\<lparr>meid_value := ''1''\<rparr>)"
proof (rule extract_meid_roundtrip)
  fix k :: nat
  assume "k < length ''<me>''"
  then show "\<not> prefix MEID_TAG (drop k (''<me>'' @ MEID_TAG @ ''1'' @ ''<'' @ ''/managedElementId>''))"
    by (auto simp: MEID_TAG_def less_Suc_eq numeral_eq_Suc)
qed auto

theorem main_session_order_witness:
  "\<exists>s' opts ms. sinetcc_main demo_world demo_args sinet_init = Some (Ok EXIT_SUCCESS, s') \<and>
    parse_options demo_args no_options sinet_init = Some (Ok opts, sinet_init) \<and> edit_part (opt_f opts) ms \<and>
    writes (calls s') = [HELLO_MESSAGE, GET_MANAGED_ELEMENT_ID_MESSAGE] @ ms @ [CLOSE_MESSAGE]"
  using demo_run main_session_order [of demo_world demo_args] by blast

lemma main_closes_socket_witness:
  "\<exists>s' t. sinetcc_main demo_world demo_args sinet_init = Some (Ok EXIT_SUCCESS, s') \<and>
    calls s' = Close (sockfd s') # t"
  using demo_run main_closes_socket [of demo_world demo_args sinet_init] by blast

lemma main_address_overflow_witness:
  "sinetcc_main demo_world [''-s'', ''255.255.255.255'', ''-p'', ''830'', ''-d'', ''0'', ''-m''] sinet_init
   = Some (Crash, sinet_init)"
  by (rule main_address_overflow) simp

end
