(* ===== verification/Nss_Fbs.thy ===== *)
theory Nss_Fbs
  imports CString
begin

text \<open>
  The name service module for users on a separate password database
  (\<^verbatim>\<open>src/cmd_cnz/nss/nsslib_caa/src/nss_fbs.c\<close>): reading the database's path from the configuration
  file, the enumeration (\<^verbatim>\<open>setpwent\<close>, \<^verbatim>\<open>getpwent_r\<close>, \<^verbatim>\<open>endpwent\<close>) and the lookups by name and by user
  id. The static variables are the state. The file system and the C library's \<^verbatim>\<open>fgetpwent_r\<close> are the
  parameter \<open>w\<close>; each answer depends on the number of calls made so far. An open stream holds the
  entries the file had when it was opened. The mutex and \<^verbatim>\<open>syslog\<close> are not modelled.
\<close>

section \<open>State and environment\<close>

record pwent =
  pw_name :: string
  pw_uid :: "32 word"
  pw_size :: nat \<comment> \<open>bytes of the caller's buffer the entry needs\<close>

datatype last_operation = no_op | getent_op | getby_op

datatype nss_status = TRYAGAIN | UNAVAIL | NOTFOUND | SUCCESS

record nss =
  passwd_filepath :: string
  passwd_stream :: "(pwent list \<times> nat) option"
  passwd_position :: nat
  last_op :: last_operation
  clock :: nat

definition nss_init :: nss where
  "nss_init = \<lparr>passwd_filepath = [], passwd_stream = None, passwd_position = 0, last_op = no_op, clock = 0\<rparr>"

text \<open>
  Opening the database fails with \<^verbatim>\<open>EAGAIN\<close> or another error (\<^term>\<open>Inl\<close>), or gives its entries. The
  position after a failed read is unspecified.
\<close>

record nworld =
  nw_config :: "nat \<Rightarrow> string option"
  nw_config_error :: "nat \<Rightarrow> bool"
  nw_open :: "nat \<Rightarrow> string \<Rightarrow> bool + pwent list"
  nw_getpos :: "nat \<Rightarrow> bool"
  nw_setpos :: "nat \<Rightarrow> bool"
  nw_read_error :: "nat \<Rightarrow> bool"
  nw_lost_pos :: "nat \<Rightarrow> nat"

definition ask :: "(nat \<Rightarrow> 'r) \<Rightarrow> (nss, 'r) prog" where
  "ask f = (\<lambda>s. Some (Ok (f (clock s)), s\<lparr>clock := Suc (clock s)\<rparr>))"

section \<open>The configuration file\<close>

definition PASSWD_FILE_PARAM_NAME :: string where "PASSWD_FILE_PARAM_NAME = ''R_FILE''"

definition skip_blanks :: "string \<Rightarrow> string" where
  "skip_blanks p = dropWhile (\<lambda>c. c \<noteq> NUL \<and> c \<noteq> NL \<and> isblank c) p"

text \<open>
  \<^verbatim>\<open>for(--r; r > q && isblank( *r); --r);\<close> from the newline behind the value: the blanks at the end
  go, the first character stays.
\<close>

definition trim_end :: "string \<Rightarrow> string" where
  "trim_end v = (case v of [] \<Rightarrow> [] | c # cs \<Rightarrow> c # rev (dropWhile isblank (rev cs)))"

datatype conf_match = NoMatch | TooLong | Value string

definition at_end :: "string \<Rightarrow> bool" where
  "at_end p \<longleftrightarrow> (case p of [] \<Rightarrow> True | c # _ \<Rightarrow> c = NL)"

text \<open>One line of the file, the body of the loop of \<^verbatim>\<open>get_passwd_filepath\<close>.\<close>

definition conf_line :: "string \<Rightarrow> conf_match" where
  "conf_line linebuf =
     (let p = skip_blanks linebuf in
      if at_end p then NoMatch
      else if prefix PASSWD_FILE_PARAM_NAME p then
        (let q = skip_blanks (drop (length PASSWD_FILE_PARAM_NAME) p) in
         if take 1 q \<noteq> ''='' then NoMatch
         else
           (let q = skip_blanks (drop 1 q) in
            if at_end q then NoMatch
            else if NL \<notin> set q then NoMatch
            else
              (let v = trim_end (takeWhile (\<lambda>c. c \<noteq> NL) q) in
               if length v > 1023 then TooLong else Value v)))
      else NoMatch)"

fun conf_lines :: "string list \<Rightarrow> string \<Rightarrow> string \<times> int" where
  "conf_lines [] path = (path, 0)"
| "conf_lines (l # ls) path =
     (case conf_line (cstr l) of
        NoMatch \<Rightarrow> conf_lines ls path
      | TooLong \<Rightarrow> (path, -1)
      | Value v \<Rightarrow> conf_lines ls v)"

definition get_passwd_filepath :: "nworld \<Rightarrow> bool \<Rightarrow> (nss, int) prog" where
  "get_passwd_filepath w force_read =
     bind (gets passwd_filepath) (\<lambda>path.
     if path \<noteq> [] \<and> \<not> force_read then ret 0
     else bind (ask (nw_config w)) (\<lambda>f.
     case f of
       None \<Rightarrow> ret (-1)
     | Some content \<Rightarrow>
         (let (path', retval) = conf_lines (fgets_all 1024 content) path in
          seq (modify (\<lambda>s. s\<lparr>passwd_filepath := path'\<rparr>)) (
          bind (ask (nw_config_error w)) (\<lambda>err.
          ret (if err then -1 else retval))))))"

section \<open>The database\<close>

text \<open>The \<^verbatim>\<open>fopen\<close> of \<^verbatim>\<open>init_passwd_database\<close> and its status.\<close>

definition open_stream :: "nworld \<Rightarrow> (nss, nss_status) prog" where
  "open_stream w =
     bind (gets passwd_filepath) (\<lambda>path.
     bind (ask (\<lambda>t. nw_open w t path)) (\<lambda>opened.
     case opened of
       Inl eagain \<Rightarrow> ret (if eagain then TRYAGAIN else UNAVAIL)
     | Inr db \<Rightarrow> seq (modify (\<lambda>s. s\<lparr>passwd_stream := Some (db, 0)\<rparr>)) (ret SUCCESS)))"

definition init_passwd_database :: "nworld \<Rightarrow> (nss, nss_status) prog" where
  "init_passwd_database w =
     bind (gets passwd_stream) (\<lambda>stream.
     case stream of
       None \<Rightarrow>
         bind (gets passwd_filepath) (\<lambda>path.
         if path = [] then seq (get_passwd_filepath w False) (open_stream w)
         else open_stream w)
     | Some (db, _) \<Rightarrow> seq (modify (\<lambda>s. s\<lparr>passwd_stream := Some (db, 0)\<rparr>)) (ret SUCCESS))"

definition close_passwd_database :: "(nss, unit) prog" where
  "close_passwd_database = modify (\<lambda>s. s\<lparr>passwd_stream := None\<rparr>)"

text \<open>
  \<^verbatim>\<open>fgetpwent_r\<close> on the stream and the mapping of its result; the second component is the entry in
  \<^verbatim>\<open>*result\<close>.
\<close>

definition getent_from_passwd :: "nworld \<Rightarrow> nat \<Rightarrow> (nss, nss_status \<times> pwent option) prog" where
  "getent_from_passwd w buflen =
     bind (gets passwd_stream) (\<lambda>stream.
     case stream of
       None \<Rightarrow> crash
     | Some (db, pos) \<Rightarrow>
         bind (ask (nw_read_error w)) (\<lambda>err.
         if err \<or> length db \<le> pos then ret (NOTFOUND, None)
         else if buflen < pw_size (db ! pos) then
           bind (ask (nw_lost_pos w)) (\<lambda>lost.
           seq (modify (\<lambda>s. s\<lparr>passwd_stream := Some (db, lost)\<rparr>)) (ret (TRYAGAIN, None)))
         else
           seq (modify (\<lambda>s. s\<lparr>passwd_stream := Some (db, Suc pos)\<rparr>)) (ret (SUCCESS, Some (db ! pos)))))"

text \<open>\<^verbatim>\<open>fgetpos\<close> and \<^verbatim>\<open>fsetpos\<close> between the stream and \<^verbatim>\<open>passwd_position\<close>; False is failure.\<close>

definition save_pos :: "nworld \<Rightarrow> (nss, bool) prog" where
  "save_pos w =
     bind (gets passwd_stream) (\<lambda>stream.
     case stream of
       None \<Rightarrow> crash
     | Some (_, pos) \<Rightarrow>
         bind (ask (nw_getpos w)) (\<lambda>ok.
         seq (when_do ok (modify (\<lambda>s. s\<lparr>passwd_position := pos\<rparr>))) (ret ok)))"

definition restore_pos :: "nworld \<Rightarrow> (nss, bool) prog" where
  "restore_pos w =
     bind (gets passwd_stream) (\<lambda>stream.
     case stream of
       None \<Rightarrow> crash
     | Some (db, _) \<Rightarrow>
         bind (ask (nw_setpos w)) (\<lambda>ok.
         seq (when_do ok (modify (\<lambda>s. s\<lparr>passwd_stream := Some (db, passwd_position s)\<rparr>))) (ret ok)))"

section \<open>The entry points\<close>

text \<open>Opening with the position saved, as \<^verbatim>\<open>setpwent\<close> and \<^verbatim>\<open>getpwent_r\<close> do it.\<close>

definition open_and_save :: "nworld \<Rightarrow> (nss, nss_status) prog" where
  "open_and_save w =
     bind (init_passwd_database w) (\<lambda>status.
     if status = SUCCESS then
       bind (save_pos w) (\<lambda>ok.
       if \<not> ok then seq close_passwd_database (ret UNAVAIL) else ret status)
     else ret status)"

definition setpwent :: "nworld \<Rightarrow> (nss, nss_status) prog" where
  "setpwent w =
     bind (open_and_save w) (\<lambda>status.
     seq (modify (\<lambda>s. s\<lparr>last_op := getent_op\<rparr>)) (ret status))"

definition endpwent :: "(nss, nss_status) prog" where
  "endpwent = seq close_passwd_database (ret SUCCESS)"

text \<open>The read of \<^verbatim>\<open>getpwent_r\<close>, and the part before it that positions the stream.\<close>

definition getpwent_read :: "nworld \<Rightarrow> nat \<Rightarrow> (nss, nss_status \<times> pwent option) prog" where
  "getpwent_read w buflen =
     bind (getent_from_passwd w buflen) (\<lambda>(status, result).
     seq (if status = SUCCESS then seq (save_pos w) (ret ())
          else modify (\<lambda>s. s\<lparr>last_op := no_op\<rparr>)) (
     ret (status, result)))"

definition getpwent_position :: "nworld \<Rightarrow> (nss, nss_status) prog" where
  "getpwent_position w =
     bind (gets last_op) (\<lambda>op.
     if op \<noteq> getent_op then
       bind (restore_pos w) (\<lambda>ok.
       if \<not> ok then ret UNAVAIL
       else seq (modify (\<lambda>s. s\<lparr>last_op := getent_op\<rparr>)) (ret SUCCESS))
     else ret SUCCESS)"

definition getpwent_r :: "nworld \<Rightarrow> nat \<Rightarrow> (nss, nss_status \<times> pwent option) prog" where
  "getpwent_r w buflen =
     bind (gets passwd_stream) (\<lambda>stream.
     bind (if stream = None then open_and_save w else ret SUCCESS) (\<lambda>status.
     if status = SUCCESS then
       bind (getpwent_position w) (\<lambda>status.
       if status = SUCCESS then getpwent_read w buflen else ret (status, None))
     else ret (status, None)))"

text \<open>The loops of the two lookups, with the condition that ends them.\<close>

partial_function (option) getby_loop ::
  "nworld \<Rightarrow> (pwent \<Rightarrow> bool) \<Rightarrow> nat \<Rightarrow> nss \<Rightarrow> ((nss_status \<times> pwent option) res \<times> nss) option" where
  "getby_loop w matches buflen s =
     bind (getent_from_passwd w buflen) (\<lambda>r s.
       case r of
         (SUCCESS, Some e) \<Rightarrow> (if matches e then Some (Ok r, s) else getby_loop w matches buflen s)
       | _ \<Rightarrow> Some (Ok r, s)) s"

definition getby :: "nworld \<Rightarrow> (pwent \<Rightarrow> bool) \<Rightarrow> nat \<Rightarrow> (nss, nss_status \<times> pwent option) prog" where
  "getby w matches buflen =
     bind (init_passwd_database w) (\<lambda>status.
     if status = SUCCESS then
       seq (modify (\<lambda>s. s\<lparr>last_op := getby_op\<rparr>)) (
       bind (getby_loop w matches buflen) (\<lambda>r.
       seq close_passwd_database (ret r)))
     else ret (status, None))"

text \<open>The first character of a C string, the terminator for the empty one.\<close>

definition hd0 :: "string \<Rightarrow> char" where
  "hd0 s = (case s of [] \<Rightarrow> NUL | c # _ \<Rightarrow> c)"

definition name_matches :: "string \<Rightarrow> pwent \<Rightarrow> bool" where
  "name_matches name e \<longleftrightarrow> hd0 name \<noteq> CHR ''+'' \<and> hd0 name \<noteq> CHR ''-'' \<and> name = pw_name e"

definition uid_matches :: "32 word \<Rightarrow> pwent \<Rightarrow> bool" where
  "uid_matches uid e \<longleftrightarrow> pw_uid e = uid \<and> hd0 (pw_name e) \<noteq> CHR ''+'' \<and> hd0 (pw_name e) \<noteq> CHR ''-''"

definition getpwnam_r :: "nworld \<Rightarrow> string \<Rightarrow> nat \<Rightarrow> (nss, nss_status \<times> pwent option) prog" where
  "getpwnam_r w name buflen = getby w (name_matches name) buflen"

definition getpwuid_r :: "nworld \<Rightarrow> 32 word \<Rightarrow> nat \<Rightarrow> (nss, nss_status \<times> pwent option) prog" where
  "getpwuid_r w uid buflen = getby w (uid_matches uid) buflen"

section \<open>Running the operations\<close>

lemma run_ask [run_simps]: "ask f s = Some (Ok (f (clock s)), s\<lparr>clock := Suc (clock s)\<rparr>)"
  by (simp add: ask_def)

lemma wp_ask [wp_simps]: "wp (ask f) Q E s = Q (f (clock s)) (s\<lparr>clock := Suc (clock s)\<rparr>)"
  by (simp add: wp_def ask_def)

text \<open>What a lookup answers: the first entry that matches, unless one before it needs a larger buffer.\<close>

fun scan :: "(pwent \<Rightarrow> bool) \<Rightarrow> nat \<Rightarrow> pwent list \<Rightarrow> nss_status \<times> pwent option" where
  "scan P n [] = (NOTFOUND, None)"
| "scan P n (e # es) =
     (if n < pw_size e then (TRYAGAIN, None) else if P e then (SUCCESS, Some e) else scan P n es)"

definition keeps_position :: "nss \<Rightarrow> nss \<Rightarrow> bool" where
  "keeps_position s s' \<longleftrightarrow>
     passwd_filepath s' = passwd_filepath s \<and> passwd_position s' = passwd_position s \<and> last_op s' = last_op s"

lemma getby_loop_spec:
  assumes "passwd_stream s = Some (db, pos)"
  shows "\<exists>r s'. getby_loop w P n s = Some (Ok r, s') \<and> keeps_position s s' \<and>
    ((\<forall>t. \<not> nw_read_error w t) \<longrightarrow> r = scan P n (drop pos db))"
  using assms
proof (induction "length db - pos" arbitrary: pos s)
  case 0
  then show ?case
    by (simp add: getby_loop.simps [of w P n s] getent_from_passwd_def run_simps keeps_position_def)
next
  case (Suc k)
  let ?s = "s\<lparr>clock := Suc (clock s)\<rparr>"
  have pos: "pos < length db" using Suc.hyps(2) by simp
  consider (err) "nw_read_error w (clock s)" | (small) "\<not> nw_read_error w (clock s)" "n < pw_size (db ! pos)"
    | (entry) "\<not> nw_read_error w (clock s)" "\<not> n < pw_size (db ! pos)" by blast
  then show ?case
  proof cases
    case err
    then show ?thesis
      using Suc.prems by (auto simp: getby_loop.simps [of w P n s] getent_from_passwd_def run_simps keeps_position_def)
  next
    case small
    then show ?thesis
      using Suc.prems pos
      by (simp add: getby_loop.simps [of w P n s] getent_from_passwd_def run_simps take_drop_nth keeps_position_def)
  next
    case entry
    let ?s1 = "s\<lparr>clock := Suc (clock s), passwd_stream := Some (db, Suc pos)\<rparr>"
    have run: "getent_from_passwd w n s = Some (Ok (SUCCESS, Some (db ! pos)), ?s1)"
      using entry Suc.prems pos by (simp add: getent_from_passwd_def run_simps)
    show ?thesis
    proof (cases "P (db ! pos)")
      case True
      then show ?thesis
        using run entry pos by (simp add: getby_loop.simps [of w P n s] run_bind take_drop_nth keeps_position_def)
    next
      case False
      have k: "k = length db - Suc pos" "passwd_stream ?s1 = Some (db, Suc pos)" using Suc.hyps(2) by auto
      obtain r s' where IH: "getby_loop w P n ?s1 = Some (Ok r, s')" "keeps_position ?s1 s'"
        "(\<forall>t. \<not> nw_read_error w t) \<longrightarrow> r = scan P n (drop (Suc pos) db)"
        using Suc.hyps(1) [OF k] by blast
      then have "getby_loop w P n s = Some (Ok r, s')"
        using run False by (subst getby_loop.simps) (simp add: run_bind)
      then show ?thesis
        using IH(2,3) entry(2) False pos by (simp add: take_drop_nth keeps_position_def)
    qed
  qed
qed

section \<open>Operations as a machine\<close>

datatype nss_op =
  Setpwent | Endpwent | Getpwent nat | Getpwnam string nat | Getpwuid "32 word" nat

definition nss_step :: "nworld \<Rightarrow> nss_op \<Rightarrow> (nss, nss_status \<times> pwent option) prog" where
  "nss_step w op =
     (case op of
        Setpwent \<Rightarrow> bind (setpwent w) (\<lambda>status. ret (status, None))
      | Endpwent \<Rightarrow> bind endpwent (\<lambda>status. ret (status, None))
      | Getpwent n \<Rightarrow> getpwent_r w n
      | Getpwnam name n \<Rightarrow> getpwnam_r w name n
      | Getpwuid uid n \<Rightarrow> getpwuid_r w uid n)"

lemma conf_line_bound: "length l \<le> 1023 \<Longrightarrow> conf_line l \<noteq> TooLong"
proof -
  assume "length l \<le> 1023"
  moreover have "length (trim_end (takeWhile P (skip_blanks (drop k q)))) \<le> length q" for P k q
  proof -
    have "length (trim_end v) \<le> length v" for v
      by (auto simp: trim_end_def split: list.splits) (metis length_dropWhile_le length_rev)
    moreover have "length (takeWhile P (skip_blanks (drop k q))) \<le> length q"
      using length_takeWhile_le [of P "skip_blanks (drop k q)"]
        length_dropWhile_le [of "\<lambda>c. c \<noteq> NUL \<and> c \<noteq> NL \<and> isblank c" "drop k q"]
      by (simp add: skip_blanks_def)
    ultimately show ?thesis using order_trans by blast
  qed
  moreover have "length (skip_blanks (drop k q)) \<le> length q" for k q
    using length_dropWhile_le [of "\<lambda>c. c \<noteq> NUL \<and> c \<noteq> NL \<and> isblank c" "drop k q"] by (simp add: skip_blanks_def)
  ultimately show ?thesis
    by (auto simp: conf_line_def Let_def split: if_splits) (metis drop0 le_trans not_le)
qed

lemma conf_line_Value: "conf_line l = Value v \<Longrightarrow> length v \<le> 1023"
  by (auto simp: conf_line_def Let_def split: if_splits)

lemma conf_lines_bound:
  "length path \<le> 1023 \<Longrightarrow> length (fst (conf_lines ls path)) \<le> 1023"
  by (induction ls path rule: conf_lines.induct) (auto split: conf_match.splits dest: conf_line_Value)

text \<open>The path fits its buffer.\<close>

definition nss_ok :: "nss \<Rightarrow> bool" where
  "nss_ok s \<longleftrightarrow> length (passwd_filepath s) \<le> 1023"

lemma get_passwd_filepath_wp:
  "nss_ok s \<Longrightarrow> wp (get_passwd_filepath w force)
     (\<lambda>_ s'. nss_ok s' \<and> passwd_stream s' = passwd_stream s \<and> passwd_position s' = passwd_position s \<and> last_op s' = last_op s)
     (\<lambda>_ _. False) s"
  using conf_lines_bound [of "passwd_filepath s"]
  by (auto simp: get_passwd_filepath_def wp_simps nss_ok_def split: option.splits prod.splits) (metis fst_conv)+

text \<open>What opening the database establishes.\<close>

definition opened :: "nworld \<Rightarrow> nss \<Rightarrow> nss_status \<Rightarrow> nss \<Rightarrow> bool" where
  "opened w s status s' \<longleftrightarrow>
     nss_ok s' \<and> passwd_position s' = passwd_position s \<and> last_op s' = last_op s \<and>
     (if status = SUCCESS
      then \<exists>db. passwd_stream s' = Some (db, 0) \<and>
             (case passwd_stream s of None \<Rightarrow> \<exists>t path. nw_open w t path = Inr db | Some (d, _) \<Rightarrow> db = d)
      else passwd_stream s' = None \<and> passwd_stream s = None \<and> (\<exists>t path b. nw_open w t path = Inl b))"

lemma open_stream_wp:
  "nss_ok s \<Longrightarrow> passwd_stream s = None \<Longrightarrow> wp (open_stream w) (opened w s) (\<lambda>_ _. False) s"
  by (cases "nw_open w (clock s) (passwd_filepath s)") (auto simp: open_stream_def wp_simps nss_ok_def opened_def)

lemma init_passwd_database_wp:
  assumes "nss_ok s"
  shows "wp (init_passwd_database w) (opened w s) (\<lambda>_ _. False) s"
proof (cases "passwd_stream s")
  case None
  have "wp (seq (get_passwd_filepath w False) (open_stream w)) (opened w s) (\<lambda>_ _. False) s"
    unfolding wp_seq
  proof (rule wp_mono [OF get_passwd_filepath_wp [OF assms]])
    fix s1 assume s1: "nss_ok s1 \<and> passwd_stream s1 = passwd_stream s \<and> passwd_position s1 = passwd_position s \<and> last_op s1 = last_op s"
    show "wp (open_stream w) (opened w s) (\<lambda>_ _. False) s1"
      by (rule wp_mono [OF open_stream_wp [of s1]]) (use s1 None in \<open>auto simp: opened_def\<close>)
  qed
  then show ?thesis
    using None open_stream_wp [OF assms None] by (simp add: init_passwd_database_def wp_bind wp_gets)
next
  case (Some a)
  then show ?thesis using assms
    by (cases a) (simp add: init_passwd_database_def wp_simps nss_ok_def opened_def)
qed

lemma getby_wp:
  assumes "nss_ok s"
  shows "wp (getby w P n)
    (\<lambda>r s'. nss_ok s' \<and> passwd_stream s' = None \<and> passwd_position s' = passwd_position s \<and>
       (fst r = SUCCESS \<longrightarrow> last_op s' = getby_op) \<and>
       (\<forall>db. (\<forall>t. \<not> nw_read_error w t) \<and> (\<forall>t path. nw_open w t path = Inr db) \<and>
             (\<forall>d p. passwd_stream s = Some (d, p) \<longrightarrow> d = db) \<longrightarrow> r = scan P n db))
    (\<lambda>_ _. False) s"
  unfolding getby_def wp_bind
proof (rule wp_mono [OF init_passwd_database_wp [OF assms]])
  fix status s1
  assume o: "opened w s status s1"
  show "wp (if status = SUCCESS then seq (modify (\<lambda>s. s\<lparr>last_op := getby_op\<rparr>))
             (bind (getby_loop w P n) (\<lambda>r. seq close_passwd_database (ret r))) else ret (status, None))
    (\<lambda>r s'. nss_ok s' \<and> passwd_stream s' = None \<and> passwd_position s' = passwd_position s \<and>
       (fst r = SUCCESS \<longrightarrow> last_op s' = getby_op) \<and>
       (\<forall>db. (\<forall>t. \<not> nw_read_error w t) \<and> (\<forall>t path. nw_open w t path = Inr db) \<and>
             (\<forall>d p. passwd_stream s = Some (d, p) \<longrightarrow> d = db) \<longrightarrow> r = scan P n db))
    (\<lambda>_ _. False) s1"
  proof (cases "status = SUCCESS")
    case True
    then obtain db where db: "passwd_stream s1 = Some (db, 0)"
      "case passwd_stream s of None \<Rightarrow> \<exists>t path. nw_open w t path = Inr db | Some (d, _) \<Rightarrow> db = d"
      using o by (auto simp: opened_def)
    obtain r s' where loop: "getby_loop w P n (s1\<lparr>last_op := getby_op\<rparr>) = Some (Ok r, s')"
      "keeps_position (s1\<lparr>last_op := getby_op\<rparr>) s'"
      "(\<forall>t. \<not> nw_read_error w t) \<longrightarrow> r = scan P n (drop 0 db)"
      using getby_loop_spec [of "s1\<lparr>last_op := getby_op\<rparr>" db 0 w P n] db by auto
    have "wp (getby_loop w P n) (\<lambda>r' s''. r' = r \<and> s'' = s') (\<lambda>_ _. False) (s1\<lparr>last_op := getby_op\<rparr>)"
      using loop(1) by (simp add: wp_def)
    from wp_mono [OF this] show ?thesis
      using True o loop(2,3) db
      by (auto simp: wp_simps close_passwd_database_def opened_def keeps_position_def nss_ok_def split: option.splits
          intro!: wp_mono [OF \<open>wp (getby_loop w P n) _ _ _\<close>])
  next
    case False
    then show ?thesis using o by (auto simp: wp_simps opened_def)
  qed
qed simp
lemma save_pos_wp:
  "passwd_stream s = Some (db, p) \<Longrightarrow> wp (save_pos w) (\<lambda>ok s'. ok = nw_getpos w (clock s) \<and>
     passwd_stream s' = Some (db, p) \<and> passwd_filepath s' = passwd_filepath s \<and> last_op s' = last_op s \<and>
     passwd_position s' = (if ok then p else passwd_position s)) (\<lambda>_ _. False) s"
  by (simp add: save_pos_def wp_simps)

lemma open_and_save_wp:
  assumes "nss_ok s"
  shows "wp (open_and_save w) (\<lambda>status s'. nss_ok s' \<and> last_op s' = last_op s \<and>
     (status = SUCCESS \<longrightarrow> passwd_position s' = 0 \<and> (\<exists>s1. opened w s SUCCESS s1 \<and> passwd_stream s' = passwd_stream s1)) \<and>
     (status \<noteq> SUCCESS \<longrightarrow> passwd_stream s' = None \<and> ((\<exists>t path b. nw_open w t path = Inl b) \<or> (\<exists>t. \<not> nw_getpos w t))))
     (\<lambda>_ _. False) s"
  unfolding open_and_save_def wp_bind
proof (rule wp_mono [OF init_passwd_database_wp [OF assms]])
  fix status s1
  assume o: "opened w s status s1"
  show "wp (if status = SUCCESS then bind (save_pos w)
          (\<lambda>ok. if \<not> ok then seq close_passwd_database (ret UNAVAIL) else ret status) else ret status)
     (\<lambda>status s'. nss_ok s' \<and> last_op s' = last_op s \<and>
     (status = SUCCESS \<longrightarrow> passwd_position s' = 0 \<and> (\<exists>s1. opened w s SUCCESS s1 \<and> passwd_stream s' = passwd_stream s1)) \<and>
     (status \<noteq> SUCCESS \<longrightarrow> passwd_stream s' = None \<and> ((\<exists>t path b. nw_open w t path = Inl b) \<or> (\<exists>t. \<not> nw_getpos w t))))
     (\<lambda>_ _. False) s1"
  proof (cases "status = SUCCESS")
    case True
    then obtain db where db: "passwd_stream s1 = Some (db, 0)" using o by (auto simp: opened_def)
    show ?thesis
      using True o db
      by (auto simp: wp_simps save_pos_def close_passwd_database_def nss_ok_def opened_def
          intro!: exI [of _ s1])
  next
    case False
    then show ?thesis using o by (auto simp: wp_simps opened_def)
  qed
qed simp

section \<open>Safety of every sequence of calls\<close>

lemma getpwent_read_wp:
  "nss_ok s \<Longrightarrow> passwd_stream s \<noteq> None \<Longrightarrow> wp (getpwent_read w n) (\<lambda>_ s'. nss_ok s') (\<lambda>_ _. False) s"
  by (auto simp: getpwent_read_def wp_simps getent_from_passwd_def save_pos_def nss_ok_def)

lemma getpwent_position_wp:
  "nss_ok s \<Longrightarrow> passwd_stream s \<noteq> None \<Longrightarrow>
     wp (getpwent_position w) (\<lambda>_ s'. nss_ok s' \<and> passwd_stream s' \<noteq> None) (\<lambda>_ _. False) s"
  by (auto simp: getpwent_position_def wp_simps restore_pos_def nss_ok_def)

lemma getpwent_open_wp:
  assumes "nss_ok s"
  shows "wp (if passwd_stream s = None then open_and_save w else ret SUCCESS)
    (\<lambda>status s'. nss_ok s' \<and> (status = SUCCESS \<longrightarrow> passwd_stream s' \<noteq> None)) (\<lambda>_ _. False) s"
  using assms by (auto simp: wp_ret opened_def intro!: wp_mono [OF open_and_save_wp])

lemma getpwent_r_wp:
  assumes "nss_ok s"
  shows "wp (getpwent_r w n) (\<lambda>_ s'. nss_ok s') (\<lambda>_ _. False) s"
  unfolding getpwent_r_def wp_bind wp_gets
  by (rule wp_mono [OF getpwent_open_wp [OF assms]])
    (auto simp: wp_simps intro!: wp_mono [OF getpwent_position_wp] getpwent_read_wp)

interpretation nss_calls: safe_machine "nss_step w" nss_ok for w
proof
  show "wp (nss_step w op) (\<lambda>_. nss_ok) (\<lambda>_ _. False) s" if ok: "nss_ok s" for op s
  proof (cases op)
    case Setpwent
    then show ?thesis
      by (auto simp: nss_step_def setpwent_def wp_simps nss_ok_def
          intro!: wp_mono [OF open_and_save_wp [OF ok]])
  next
    case Endpwent
    then show ?thesis using ok by (simp add: nss_step_def endpwent_def close_passwd_database_def wp_simps nss_ok_def)
  next
    case Getpwent
    then show ?thesis by (simp add: nss_step_def getpwent_r_wp [OF ok])
  next
    case Getpwnam
    then show ?thesis by (auto simp: nss_step_def getpwnam_r_def intro: wp_mono [OF getby_wp [OF ok]])
  next
    case Getpwuid
    then show ?thesis by (auto simp: nss_step_def getpwuid_r_def intro: wp_mono [OF getby_wp [OF ok]])
  qed
qed

text \<open>
  C27: no sequence of calls, whatever the file system answers, reads from a closed stream or writes
  outside the path buffer: every call of the sequence returns.
\<close>

theorem nss_calls_safe:
  "\<exists>rs s'. run_ops (nss_step w) ops nss_init = Some (Ok rs, s') \<and> length rs = length ops \<and>
     length (passwd_filepath s') \<le> 1023"
  using nss_calls.run_returns [of nss_init w ops] by (auto simp: nss_ok_def nss_init_def)

section \<open>Refinement of an abstract cursor\<close>

text \<open>
  On a database that opens and reads without errors the module is a cursor into its entries.
\<close>

definition steady :: "nworld \<Rightarrow> pwent list \<Rightarrow> bool" where
  "steady w db \<longleftrightarrow> (\<forall>t path. nw_open w t path = Inr db) \<and>
     (\<forall>t. nw_getpos w t \<and> nw_setpos w t \<and> \<not> nw_read_error w t)"

definition cursor_step :: "pwent list \<Rightarrow> nss_op \<Rightarrow> nat \<Rightarrow> (nss_status \<times> pwent option) \<times> nat" where
  "cursor_step db op c =
     (case op of
        Setpwent \<Rightarrow> ((SUCCESS, None), 0)
      | Endpwent \<Rightarrow> ((SUCCESS, None), 0)
      | Getpwent n \<Rightarrow>
          (if length db \<le> c then ((NOTFOUND, None), c)
           else if n < pw_size (db ! c) then ((TRYAGAIN, None), c)
           else ((SUCCESS, Some (db ! c)), Suc c))
      | Getpwnam name n \<Rightarrow> (scan (name_matches name) n db, 0)
      | Getpwuid uid n \<Rightarrow> (scan (uid_matches uid) n db, 0))"

definition cursor :: "nss \<Rightarrow> nat" where
  "cursor s = (case passwd_stream s of None \<Rightarrow> 0 | Some (_, p) \<Rightarrow> if last_op s = getent_op then p else passwd_position s)"

definition nss_inv :: "pwent list \<Rightarrow> nss \<Rightarrow> bool" where
  "nss_inv db s \<longleftrightarrow> nss_ok s \<and>
     (\<forall>d p. passwd_stream s = Some (d, p) \<longrightarrow> d = db \<and> (last_op s = getent_op \<longrightarrow> p = passwd_position s))"

lemma open_and_save_steady:
  assumes "steady w db" "nss_inv db s"
  shows "wp (open_and_save w) (\<lambda>status s'. status = SUCCESS \<and> nss_ok s' \<and> last_op s' = last_op s \<and>
     passwd_position s' = 0 \<and> passwd_stream s' = Some (db, 0)) (\<lambda>_ _. False) s"
proof (rule wp_mono [OF open_and_save_wp])
  show "nss_ok s" using assms by (simp add: nss_inv_def)
qed (use assms in \<open>auto simp: steady_def nss_inv_def opened_def split: option.splits prod.splits\<close>)

lemma getpwent_rest_steady:
  assumes "steady w db" "nss_ok s" "passwd_stream s = Some (db, p)" "last_op s = getent_op \<longrightarrow> p = passwd_position s"
  shows "wp (bind (getpwent_position w) (\<lambda>status.
       if status = SUCCESS then getpwent_read w n else ret (status, None)))
     (\<lambda>r s'. nss_inv db s' \<and> cursor_step db (Getpwent n) (passwd_position s) = (r, cursor s')) (\<lambda>_ _. False) s"
  using assms
  by (auto simp: wp_simps getpwent_position_def getpwent_read_def restore_pos_def getent_from_passwd_def save_pos_def
      steady_def nss_inv_def nss_ok_def cursor_step_def cursor_def)

lemma getby_steady:
  assumes "steady w db" "nss_inv db s"
  shows "wp (getby w P n) (\<lambda>r s'. nss_inv db s' \<and> r = scan P n db \<and> cursor s' = 0) (\<lambda>_ _. False) s"
proof (rule wp_mono [OF getby_wp])
  show "nss_ok s" using assms by (simp add: nss_inv_def)
qed (use assms in \<open>auto simp: steady_def nss_inv_def cursor_def\<close>)

lemma nss_step_simulates:
  assumes steady: "steady w db" and inv: "nss_inv db s"
  shows "wp (nss_step w op) (\<lambda>x s'. nss_inv db s' \<and> cursor_step db op (cursor s) = (x, cursor s')) (\<lambda>_ _. False) s"
proof (cases op)
  case Setpwent
  then show ?thesis
    by (auto simp: nss_step_def setpwent_def wp_simps cursor_step_def cursor_def nss_inv_def nss_ok_def
        intro!: wp_mono [OF open_and_save_steady [OF assms]])
next
  case Endpwent
  then show ?thesis
    using inv by (simp add: nss_step_def endpwent_def close_passwd_database_def wp_simps nss_inv_def nss_ok_def
        cursor_step_def cursor_def)
next
  case (Getpwent n)
  show ?thesis
  proof (cases "passwd_stream s")
    case None
    have rest: "wp (bind (getpwent_position w) (\<lambda>status. if status = SUCCESS then getpwent_read w n else ret (status, None)))
         (\<lambda>x s'. nss_inv db s' \<and> cursor_step db (Getpwent n) 0 = (x, cursor s')) (\<lambda>_ _. False) s1"
      if "nss_ok s1" "passwd_stream s1 = Some (db, 0)" "passwd_position s1 = 0" for s1
      using getpwent_rest_steady [OF steady that(1,2), of n] that(3) by simp
    have "cursor s = 0" using None by (simp add: cursor_def)
    then have "wp (open_and_save w) (\<lambda>status. wp (if status = SUCCESS then bind (getpwent_position w) (\<lambda>status.
       if status = SUCCESS then getpwent_read w n else ret (status, None)) else ret (status, None))
         (\<lambda>x s'. nss_inv db s' \<and> cursor_step db op (cursor s) = (x, cursor s')) (\<lambda>_ _. False)) (\<lambda>_ _. False) s"
      using rest Getpwent by (intro wp_mono [OF open_and_save_steady [OF assms]]) auto
    then show ?thesis using None Getpwent by (simp add: nss_step_def getpwent_r_def wp_bind wp_gets)
  next
    case (Some a)
    then show ?thesis
      using getpwent_rest_steady [OF steady, of s "snd a" n] inv Getpwent
      by (cases a) (auto simp: nss_step_def getpwent_r_def wp_bind wp_gets wp_ret nss_inv_def cursor_def split: if_splits)
  qed
next
  case (Getpwnam name n)
  then show ?thesis
    by (auto simp: nss_step_def getpwnam_r_def cursor_step_def intro!: wp_mono [OF getby_steady [OF assms]])
next
  case (Getpwuid uid n)
  then show ?thesis
    by (auto simp: nss_step_def getpwuid_r_def cursor_step_def intro!: wp_mono [OF getby_steady [OF assms]])
qed


interpretation nss_cursor: simulation "nss_step w" "\<lambda>s. steady w db \<and> nss_inv db s" cursor "cursor_step db" for w db
  by unfold_locales (auto intro: wp_mono [OF nss_step_simulates])

lemma nss_run_abs:
  assumes "steady w db"
  shows "\<exists>s'. run_ops (nss_step w) ops nss_init = Some (Ok (fst (run_abs (cursor_step db) ops 0)), s')"
proof -
  have "nss_inv db nss_init" "cursor nss_init = 0" by (simp_all add: nss_inv_def nss_init_def nss_ok_def cursor_def)
  then show ?thesis using nss_cursor.run_simulates [of w db nss_init ops] assms by (auto simp: wp_iff)
qed

text \<open>
  C3: on a database that opens and reads without errors, every sequence of calls answers as a cursor
  into its entries: \<^verbatim>\<open>getpwent_r\<close> delivers the entry under the cursor and moves on only when the entry
  fits the buffer, the lookups answer the first match and put the cursor back to the first entry.
\<close>

theorem nss_refines_cursor:
  assumes "steady w db"
  shows "\<exists>s'. run_ops (nss_step w) ops nss_init = Some (Ok (fst (run_abs (cursor_step db) ops 0)), s')"
  by (rule nss_run_abs [OF assms])

lemma run_abs_append:
  "run_abs f (xs @ ys) c = (let (a, c') = run_abs f xs c; (b, c'') = run_abs f ys c' in (a @ b, c''))"
  by (induction xs arbitrary: c) (auto split: prod.splits)

lemma run_abs_getents:
  assumes "\<forall>e \<in> set db. pw_size e \<le> n" "c + k \<le> length db"
  shows "run_abs (cursor_step db) (replicate k (Getpwent n)) c =
    (map (\<lambda>e. (SUCCESS, Some e)) (take k (drop c db)), c + k)"
  using assms(2)
proof (induction k arbitrary: c)
  case (Suc k)
  then have "c < length db" "\<not> n < pw_size (db ! c)" using assms(1) by (auto simp: not_less)
  then show ?case using Suc by (simp add: cursor_step_def take_drop_nth)
qed simp

text \<open>
  C28: an enumeration with a large enough buffer delivers every entry once, in the order of the file,
  and then the end.
\<close>

theorem enumeration_complete:
  assumes "steady w db" "\<forall>e \<in> set db. pw_size e \<le> n"
  shows "\<exists>s'. run_ops (nss_step w) (Setpwent # replicate (length db) (Getpwent n) @ [Getpwent n]) nss_init =
    Some (Ok ((SUCCESS, None) # map (\<lambda>e. (SUCCESS, Some e)) db @ [(NOTFOUND, None)]), s')"
  using nss_run_abs [OF assms(1), of "Setpwent # replicate (length db) (Getpwent n) @ [Getpwent n]"]
    run_abs_getents [OF assms(2), of 0 "length db"]
  by (simp add: run_abs_append cursor_step_def [of db Setpwent] cursor_step_def [of db "Getpwent n" "length db"])

text \<open>
  a call that failed because the buffer was too small loses nothing: wherever the C library
  leaves the stream, the next call with a large enough buffer delivers the entry that did not fit.
\<close>

lemma getpwent_retry:
  assumes "steady w db" "\<forall>e \<in> set db. pw_size e \<le> n" "k < length db" "m < pw_size (db ! k)"
  shows "\<exists>s'. run_ops (nss_step w) (replicate k (Getpwent n) @ [Getpwent m, Getpwent n]) nss_init =
    Some (Ok (map (\<lambda>e. (SUCCESS, Some e)) (take k db) @ [(TRYAGAIN, None), (SUCCESS, Some (db ! k))]), s')"
proof -
  have "\<not> n < pw_size (db ! k)" using assms(2,3) by (simp add: not_less)
  then show ?thesis
    using nss_run_abs [OF assms(1), of "replicate k (Getpwent n) @ [Getpwent m, Getpwent n]"]
    run_abs_getents [OF assms(2), of 0 k] assms
    by (simp add: run_abs_append cursor_step_def [of db "Getpwent m" k] cursor_step_def [of db "Getpwent n" k])
qed

text \<open>
  a lookup in the middle of an enumeration makes the enumeration start again: whatever was read
  before, the next \<^verbatim>\<open>getpwent_r\<close> delivers the first entry, although the module saves and restores the
  position for this case.
\<close>

lemma lookup_restarts_enumeration:
  assumes "steady w db" "\<forall>e \<in> set db. pw_size e \<le> n" "k \<le> length db" "db \<noteq> []"
  shows "\<exists>rs s'. run_ops (nss_step w) (replicate k (Getpwent n) @ [Getpwnam name n, Getpwent n]) nss_init =
    Some (Ok (rs @ [(SUCCESS, Some (db ! 0))]), s')"
  using nss_run_abs [OF assms(1), of "replicate k (Getpwent n) @ [Getpwnam name n, Getpwent n]"]
    run_abs_getents [OF assms(2), of 0 k] assms
  by (cases db) (auto simp: run_abs_append cursor_step_def [of _ "Getpwent n" 0] cursor_step_def [of _ "Getpwnam name n"] not_less)

lemma scan_find:
  "\<forall>e \<in> set db. pw_size e \<le> n \<Longrightarrow>
     scan P n db = (case find P db of None \<Rightarrow> (NOTFOUND, None) | Some e \<Rightarrow> (SUCCESS, Some e))"
  by (induction db) auto

text \<open>
  C33: \<^verbatim>\<open>getpwnam_r\<close>, after any calls before it, answers the first entry of that name, and that there
  is none for a name that starts with a plus or a minus; the buffer is large enough for all entries.
\<close>

lemma getpwnam_first:
  assumes "steady w db" "\<forall>e \<in> set db. pw_size e \<le> n"
  shows "\<exists>rs s'. run_ops (nss_step w) (ops @ [Getpwnam name n]) nss_init = Some (Ok (rs @
    [if hd0 name \<in> {CHR ''+'', CHR ''-''} then (NOTFOUND, None)
     else case find (\<lambda>e. pw_name e = name) db of None \<Rightarrow> (NOTFOUND, None) | Some e \<Rightarrow> (SUCCESS, Some e)]), s')"
proof -
  have "find (name_matches name) db =
    (if hd0 name \<in> {CHR ''+'', CHR ''-''} then None else find (\<lambda>e. pw_name e = name) db)"
    by (induction db) (auto simp: name_matches_def)
  then show ?thesis
    using nss_run_abs [OF assms(1), of "ops @ [Getpwnam name n]"] scan_find [OF assms(2), of "name_matches name"]
    by (auto simp: run_abs_append cursor_step_def [of _ "Getpwnam name n"] split: prod.splits)
qed


lemma getby_loop_matches:
  "getby_loop w P n s = Some y \<Longrightarrow> \<forall>e s'. y = (Ok (SUCCESS, Some e), s') \<longrightarrow> P e"
proof (induction rule: getby_loop.raw_induct [rotated, consumes 1])
  case (1 rec w P n s y)
  then show ?case
    by (auto simp: run_bind split: option.splits res.splits prod.splits nss_status.splits if_splits) (metis 1(1))
qed

text \<open>
  C34: \<^verbatim>\<open>getpwuid_r\<close>, in every state and whatever the file system does, only answers an entry that has
  the user id asked for and is not one of the plus and minus entries; the stream is closed then.
\<close>

lemma getpwuid_sound:
  assumes "getpwuid_r w uid n s = Some (Ok (SUCCESS, Some e), s')"
  shows "pw_uid e = uid \<and> hd0 (pw_name e) \<notin> {CHR ''+'', CHR ''-''} \<and> passwd_stream s' = None"
  using assms unfolding getpwuid_r_def getby_def bind_eq_Ok
  by (elim exE conjE)
    (auto simp: ok_simps close_passwd_database_def uid_matches_def split: if_split_asm dest!: getby_loop_matches)

section \<open>The configuration parser\<close>

lemma skip_blanks_blanks:
  "\<forall>c \<in> set b. isblank c \<Longrightarrow> skip_blanks (b @ p) = skip_blanks p"
  by (induction b) (auto simp: skip_blanks_def isblank_def)

lemma skip_blanks_stop: "\<not> isblank c \<Longrightarrow> skip_blanks (c # p) = c # p"
  by (simp add: skip_blanks_def)

lemma trim_end_blanks:
  assumes "path \<noteq> []" "\<not> isblank (last path)" "\<forall>c \<in> set b. isblank c"
  shows "trim_end (path @ b) = path"
proof (cases path)
  case (Cons c cs)
  have b: "dropWhile isblank (rev b @ xs) = dropWhile isblank xs" for xs
    using assms(3) by (subst dropWhile_append2) auto
  show ?thesis
  proof (cases cs rule: rev_cases)
    case Nil
    then show ?thesis using Cons b [of "[]"] by (simp add: trim_end_def)
  next
    case (snoc ds d)
    then show ?thesis using Cons assms(2) b [of "d # rev ds"] by (simp add: trim_end_def)
  qed
qed (use assms in simp)

lemma conf_line_steps:
  assumes "skip_blanks l = ''R_FILE'' @ x" "skip_blanks x = CHR ''='' # y" "skip_blanks y = z"
    "\<not> at_end z" "NL \<in> set z" "trim_end (takeWhile (\<lambda>c. c \<noteq> NL) z) = v" "length v \<le> 1023"
  shows "conf_line l = Value v"
proof -
  have "\<not> at_end (''R_FILE'' @ x)" by (simp add: at_end_def)
  moreover have "prefix PASSWD_FILE_PARAM_NAME (''R_FILE'' @ x)" "drop (length PASSWD_FILE_PARAM_NAME) (''R_FILE'' @ x) = x"
    by (simp_all add: PASSWD_FILE_PARAM_NAME_def)
  ultimately show ?thesis
    unfolding conf_line_def Let_def assms(1) using assms(2-7) by simp
qed

lemma conf_line_value:
  assumes blanks: "\<forall>c \<in> set b1. isblank c" "\<forall>c \<in> set b2. isblank c" "\<forall>c \<in> set b3. isblank c" "\<forall>c \<in> set b4. isblank c"
    and path: "path \<noteq> []" "\<not> isblank (hd path)" "\<not> isblank (last path)" "NL \<notin> set path" "length path \<le> 1023"
  shows "conf_line (b1 @ ''R_FILE'' @ b2 @ ''='' @ b3 @ path @ b4 @ [NL]) = Value path"
proof -
  obtain c cs where c: "path = c # cs" "\<not> isblank c" "c \<noteq> NL" using path by (cases path) auto
  have "\<not> isblank NL" by (simp add: isblank_def)
  then have nl: "NL \<notin> set (path @ b4)" using blanks(4) path(4) by auto
  show ?thesis
  proof (rule conf_line_steps)
    show "skip_blanks (b1 @ ''R_FILE'' @ b2 @ ''='' @ b3 @ path @ b4 @ [NL]) = ''R_FILE'' @ (b2 @ ''='' @ b3 @ path @ b4 @ [NL])"
      unfolding skip_blanks_blanks [OF blanks(1)] by (simp add: skip_blanks_stop isblank_def)
    show "skip_blanks (b2 @ ''='' @ b3 @ path @ b4 @ [NL]) = CHR ''='' # (b3 @ path @ b4 @ [NL])"
      unfolding skip_blanks_blanks [OF blanks(2)] by (simp add: skip_blanks_stop isblank_def)
    show "skip_blanks (b3 @ path @ b4 @ [NL]) = path @ b4 @ [NL]"
      unfolding skip_blanks_blanks [OF blanks(3)] using c by (simp add: skip_blanks_stop)
    show "\<not> at_end (path @ b4 @ [NL])" using c by (simp add: at_end_def)
    have "takeWhile (\<lambda>c. c \<noteq> NL) ((path @ b4) @ [NL]) = path @ b4"
      by (subst takeWhile_append2) (use nl in auto)
    then show "trim_end (takeWhile (\<lambda>c. c \<noteq> NL) (path @ b4 @ [NL])) = path"
      using trim_end_blanks [OF path(1,3) blanks(4)] by simp
  qed (use path in auto)
qed
lemma conf_lines_skip: "\<forall>l \<in> set ls. conf_line (cstr l) = NoMatch \<Longrightarrow> conf_lines ls path = (path, 0)"
  by (induction ls) auto

lemma conf_lines_last:
  assumes "\<forall>l \<in> set pre. length l \<le> 1023" "conf_line (cstr l) = Value v" "\<forall>l \<in> set post. conf_line (cstr l) = NoMatch"
  shows "conf_lines (pre @ l # post) path = (v, 0)"
  using assms
proof (induction pre arbitrary: path)
  case Nil
  then show ?case using conf_lines_skip by simp
next
  case (Cons k pre)
  have "length (cstr k) \<le> length k" by (simp add: cstr_def length_takeWhile_le)
  then have "conf_line (cstr k) \<noteq> TooLong" using Cons.prems(1) conf_line_bound by fastforce
  then show ?case using Cons by (auto split: conf_match.splits)
qed

text \<open>
  the configuration is read back: from a file whose last line that sets the parameter is
  \<^verbatim>\<open>R_FILE = path\<close>, with blanks anywhere around name, sign and value, the module takes exactly
  \<open>path\<close>, however the lines before look.
\<close>

lemma config_path_roundtrip:
  assumes "nw_config w (clock s) = Some (concat (map (\<lambda>l. l @ [NL])
      (pre @ (b1 @ ''R_FILE'' @ b2 @ ''='' @ b3 @ path @ b4) # post)))"
    and "\<not> nw_config_error w (Suc (clock s))" "passwd_filepath s = []"
    and lines: "\<forall>l \<in> set (pre @ (b1 @ ''R_FILE'' @ b2 @ ''='' @ b3 @ path @ b4) # post). NL \<notin> set l \<and> NUL \<notin> set l \<and> length l < 1023"
    and blanks: "\<forall>c \<in> set b1. isblank c" "\<forall>c \<in> set b2. isblank c" "\<forall>c \<in> set b3. isblank c" "\<forall>c \<in> set b4. isblank c"
    and path: "path \<noteq> []" "\<not> isblank (hd path)" "\<not> isblank (last path)"
    and post: "\<forall>l \<in> set post. conf_line (l @ [NL]) = NoMatch"
  shows "get_passwd_filepath w False s = Some (Ok 0, s\<lparr>passwd_filepath := path, clock := Suc (Suc (clock s))\<rparr>)"
proof -
  let ?l = "b1 @ ''R_FILE'' @ b2 @ ''='' @ b3 @ path @ b4"
  have fg: "fgets_all 1024 (concat (map (\<lambda>l. l @ [NL]) (pre @ ?l # post))) = map (\<lambda>l. l @ [NL]) (pre @ ?l # post)"
    by (rule fgets_all_lines) (use lines in auto)
  have nn: "cstr (l @ [NL]) = l @ [NL]" if "l \<in> set (pre @ ?l # post)" for l
    using lines that by (intro cstr_idem) auto
  have "conf_line (cstr (?l @ [NL])) = Value path"
    using conf_line_value [OF blanks path(1-3)] lines nn [of ?l] by simp
  moreover have pre: "\<forall>l \<in> set (map (\<lambda>l. l @ [NL]) pre). length l \<le> 1023" using lines by (simp add: Suc_le_eq)
  ultimately have "conf_lines (map (\<lambda>l. l @ [NL]) (pre @ ?l # post)) [] = (path, 0)"
    using conf_lines_last [of "map (\<lambda>l. l @ [NL]) pre" "?l @ [NL]" path "map (\<lambda>l. l @ [NL]) post" "[]"] pre nn post by simp
  then show ?thesis
    using assms(1-3) fg by (simp add: get_passwd_filepath_def run_simps)
qed


section \<open>Witnesses\<close>

definition demo_db :: "pwent list" where
  "demo_db = [\<lparr>pw_name = ''ann'', pw_uid = 501, pw_size = 40\<rparr>, \<lparr>pw_name = ''bob'', pw_uid = 502, pw_size = 90\<rparr>]"

definition demo_nworld :: nworld where
  "demo_nworld = \<lparr>nw_config = \<lambda>_. Some (''# passwd'' @ [NL] @ '' R_FILE = /tmp/p '' @ [NL]), nw_config_error = \<lambda>_. False,
     nw_open = \<lambda>_ _. Inr demo_db, nw_getpos = \<lambda>_. True, nw_setpos = \<lambda>_. True, nw_read_error = \<lambda>_. False,
     nw_lost_pos = \<lambda>t. t\<rparr>"

lemma demo_steady: "steady demo_nworld demo_db"
  by (simp add: steady_def demo_nworld_def)

lemma demo_fits: "\<forall>e \<in> set demo_db. pw_size e \<le> 100"
  by (simp add: demo_db_def)

theorem nss_refines_cursor_witness:
  "\<exists>s'. run_ops (nss_step demo_nworld) [Getpwent 100, Getpwuid 502 100, Getpwent 10] nss_init =
     Some (Ok [(SUCCESS, Some (demo_db ! 0)), (SUCCESS, Some (demo_db ! 1)), (TRYAGAIN, None)], s')"
  using nss_refines_cursor [OF demo_steady, of "[Getpwent 100, Getpwuid 502 100, Getpwent 10]"]
  by (simp add: cursor_step_def demo_db_def uid_matches_def hd0_def)

theorem enumeration_complete_witness:
  "\<exists>s'. run_ops (nss_step demo_nworld) (Setpwent # replicate (length demo_db) (Getpwent 100) @ [Getpwent 100]) nss_init =
    Some (Ok ((SUCCESS, None) # map (\<lambda>e. (SUCCESS, Some e)) demo_db @ [(NOTFOUND, None)]), s')"
  by (rule enumeration_complete [OF demo_steady demo_fits])

lemma getpwent_retry_witness:
  "\<exists>s'. run_ops (nss_step demo_nworld) (replicate 1 (Getpwent 100) @ [Getpwent 50, Getpwent 100]) nss_init =
    Some (Ok (map (\<lambda>e. (SUCCESS, Some e)) (take 1 demo_db) @ [(TRYAGAIN, None), (SUCCESS, Some (demo_db ! 1))]), s')"
  by (rule getpwent_retry [OF demo_steady demo_fits]) (simp_all add: demo_db_def)

lemma lookup_restarts_enumeration_witness:
  "\<exists>rs s'. run_ops (nss_step demo_nworld) (replicate 1 (Getpwent 100) @ [Getpwnam ''bob'' 100, Getpwent 100]) nss_init =
    Some (Ok (rs @ [(SUCCESS, Some (demo_db ! 0))]), s')"
  by (rule lookup_restarts_enumeration [OF demo_steady demo_fits]) (simp_all add: demo_db_def)

lemma getpwnam_first_witness:
  "\<exists>rs s'. run_ops (nss_step demo_nworld) ([Getpwent 100] @ [Getpwnam ''bob'' 100]) nss_init =
    Some (Ok (rs @ [(SUCCESS, Some (demo_db ! 1))]), s')"
  using getpwnam_first [OF demo_steady demo_fits, of "[Getpwent 100]" "''bob''"]
  by (simp add: demo_db_def hd0_def)

lemma getpwuid_sound_witness:
  "\<exists>s'. getpwuid_r demo_nworld 502 100 (nss_init\<lparr>passwd_stream := Some (demo_db, 1)\<rparr>) = Some (Ok (SUCCESS, Some (demo_db ! 1)), s') \<and>
     pw_uid (demo_db ! 1) = 502 \<and> hd0 (pw_name (demo_db ! 1)) \<notin> {CHR ''+'', CHR ''-''} \<and> passwd_stream s' = None"
proof -
  have "\<exists>s'. getpwuid_r demo_nworld 502 100 (nss_init\<lparr>passwd_stream := Some (demo_db, 1)\<rparr>) = Some (Ok (SUCCESS, Some (demo_db ! 1)), s')"
    by (simp add: getpwuid_r_def getby_def init_passwd_database_def nss_init_def run_simps getby_loop.simps
        getent_from_passwd_def demo_nworld_def demo_db_def uid_matches_def hd0_def close_passwd_database_def)
  then show ?thesis using getpwuid_sound [of demo_nworld 502 100 _ "demo_db ! 1"] by blast
qed

lemma config_path_roundtrip_witness:
  "get_passwd_filepath demo_nworld False nss_init = Some (Ok 0, nss_init\<lparr>passwd_filepath := ''/tmp/p'', clock := Suc (Suc 0)\<rparr>)"
  using config_path_roundtrip [of demo_nworld nss_init "[''# passwd'']" "'' ''" "'' ''" "'' ''" "''/tmp/p''" "'' ''" "[]"]
  by (simp add: demo_nworld_def nss_init_def isblank_def)

end
