(* ===== verification/Nss_Db.thy ===== *)
theory Nss_Db
  imports CString
begin

text \<open>
  The database behind the command \<^verbatim>\<open>nss_ufbs\<close> (\<^verbatim>\<open>src/cmd_cnz/nss/nsscmd_caa/src\<close>): the string helpers
  (\<^verbatim>\<open>TString.cpp\<close>), the configuration file (\<^verbatim>\<open>TConfigFile.cpp\<close>) and the database handler
  (\<^verbatim>\<open>TDbHandler.cpp\<close>). The file system is a map from paths to contents, an open stream a path and a
  position. Every call to the system may fail, as the parameter \<open>w\<close> decides from the calls made so
  far. Error messages are represented by their codes; printing and \<^verbatim>\<open>syslog\<close> are not modelled.
\<close>

section \<open>Strings\<close>

definition trim_character :: "char \<Rightarrow> bool" where
  "trim_character c \<longleftrightarrow> c \<in> {CHR '' '', CHR 0x0C, NL, CHR 0x0D, TAB, CHR 0x0B}"

definition TrimLeft :: "string \<Rightarrow> string" where
  "TrimLeft str = dropWhile trim_character str"

definition TrimRight :: "string \<Rightarrow> string" where
  "TrimRight str = rev (dropWhile trim_character (rev str))"

definition Trim :: "string \<Rightarrow> string" where
  "Trim str = TrimRight (TrimLeft str)"

text \<open>The name behind the last separator; nothing if the separator is the last character.\<close>

definition path_separator :: "char \<Rightarrow> bool" where
  "path_separator c \<longleftrightarrow> c = CHR 0x5C \<or> c = CHR ''/''"

definition PathFileName :: "string \<Rightarrow> string" where
  "PathFileName path = rev (takeWhile (\<lambda>c. \<not> path_separator c) (rev path))"

text \<open>\<^verbatim>\<open>strtoul\<close> in base ten, kept in a 32-bit id: saturates at the 64-bit limit.\<close>

definition strtoul10 :: "string \<Rightarrow> int" where
  "strtoul10 str =
     (let s = dropWhile isspace str;
          neg = (case s of c # _ \<Rightarrow> c = CHR ''-'' | [] \<Rightarrow> False);
          ds = takeWhile isdigit (case s of c # s' \<Rightarrow> if c = CHR ''-'' \<or> c = CHR ''+'' then s' else s | [] \<Rightarrow> []);
          v = foldl (\<lambda>a d. 10 * a + digit_value d) 0 ds
      in if 2 ^ 64 \<le> v then 2 ^ 64 - 1 else if neg then - v mod 2 ^ 64 else v)"

section \<open>Calls, environment and state\<close>

record TsPassword =
  uId :: "32 word"
  uGid :: "32 word"
  strName :: string
  strPasswd :: string
  strGecos :: string
  strDir :: string
  strShell :: string

text \<open>What the LDAP library answers; a success also says how much of the buffer it filled.\<close>

datatype ldap_answer =
  NSS_STATUS_SUCCESS TsPassword nat | NSS_STATUS_NOTFOUND | NSS_STATUS_TRYAGAIN | NSS_STATUS_UNAVAIL | NSS_STATUS_OTHER

text \<open>A call by its name and what it is about.\<close>

datatype dcall = DCall string string

record dworld =
  dw_ok :: "dcall list \<Rightarrow> dcall \<Rightarrow> bool"
  dw_count :: "dcall list \<Rightarrow> dcall \<Rightarrow> nat \<Rightarrow> nat" \<comment> \<open>how many of the bytes a write takes\<close>
  dw_pid :: nat
  dw_bufsize :: int \<comment> \<open>\<^verbatim>\<open>sysconf(_SC_GETPW_R_SIZE_MAX)\<close>\<close>
  dw_ldap :: "32 word \<Rightarrow> ldap_answer"

datatype errConfig = errConfOk | errConfEmpty | errConfBroken

datatype errNssDb =
    errDbOk | errDbUnknow | errDbCreate | errDbOpen | errDbAlready | errDbNotOpen | errDbHandling | errDbFormat
  | errDbTmp | errDbWrite | errDbRead | errDbTmpCreate | errDbTmpAlready | errDbCopy | errDbTruncate
  | errDbUidNotFound | errDbRename | errDbPath | errDbWorkPath | errDbTmpPath | errDbCloseWDb | errDbLocked | errDbLockD

datatype errNssUfbs =
  errUfbsOk | errUfbsUnknow | errUfbsInit | errUfbsUnableLoad | errUfbsMethod | errUfbsUIDnotFound | errUfbsRetry | errUfbsUnavail

text \<open>
  The work stream is always repositioned to the start before it is used, so that its path is enough;
  of the temporary stream the write position matters too.
\<close>

record dbstate =
  fs :: "string \<Rightarrow> string option"
  m_pWorkFile :: "string option"
  m_pTmpFile :: "(string \<times> nat) option"
  m_iLckFile :: int
  m_nStatus :: errConfig
  m_strReadPath :: string
  m_strWritePath :: string
  m_enmRetCode :: errNssDb
  m_handleNss :: bool
  m_enmUfbsCode :: errNssUfbs
  dtrc :: "dcall list"

text \<open>A new handler on the files that are there.\<close>

definition TDbHandler :: "dbstate \<Rightarrow> dbstate" where
  "TDbHandler s = s\<lparr>m_pWorkFile := None, m_pTmpFile := None, m_iLckFile := -1, m_nStatus := errConfEmpty,
     m_strReadPath := [], m_strWritePath := [], m_enmRetCode := errDbOk\<rparr>"

definition sys :: "dworld \<Rightarrow> string \<Rightarrow> string \<Rightarrow> (dbstate, bool) prog" where
  "sys w name arg = (\<lambda>s. Some (Ok (dw_ok w (dtrc s) (DCall name arg)), s\<lparr>dtrc := DCall name arg # dtrc s\<rparr>))"

definition SetInternalError :: "errNssDb \<Rightarrow> (dbstate, unit) prog" where
  "SetInternalError e = modify (\<lambda>s. s\<lparr>m_enmRetCode := e\<rparr>)"

definition GetInternalError :: "(dbstate, errNssDb) prog" where
  "GetInternalError = gets m_enmRetCode"

definition set_file :: "string \<Rightarrow> string option \<Rightarrow> dbstate \<Rightarrow> dbstate" where
  "set_file path content s = s\<lparr>fs := (fs s)(path := content)\<rparr>"

section \<open>The configuration file\<close>

definition STR_CONFIG_FILEPATH :: string where "STR_CONFIG_FILEPATH = ''/opt/ap/apos/conf/fbs.conf''"

definition NSS_CONFIG_RFILE :: int where "NSS_CONFIG_RFILE = 0"
definition NSS_CONFIG_WFILE :: int where "NSS_CONFIG_WFILE = 1"

text \<open>One line; None is the format error that ends the loop. The paths are read and write path.\<close>

definition config_entry_line :: "string \<Rightarrow> string \<times> string \<Rightarrow> (string \<times> string) option" where
  "config_entry_line buf = (\<lambda>(rpath, wpath).
     (let line = Trim (cstr buf) in
      if line = [] then Some (rpath, wpath)
      else if CHR ''='' \<notin> set line \<or> hd line = CHR ''='' then None
      else
        (let left = Trim (takeWhile (\<lambda>c. c \<noteq> CHR ''='') line);
             rest = tl (dropWhile (\<lambda>c. c \<noteq> CHR ''='') line);
             right = Trim rest in
         if rest = [] then None
         else if left = ''W_FILE'' \<and> wpath = [] then Some (rpath, right)
         else if left = ''R_FILE'' \<and> rpath = [] then Some (right, wpath)
         else Some (rpath, wpath))))"

fun config_entry_lines :: "string list \<Rightarrow> string \<times> string \<Rightarrow> (string \<times> string) option" where
  "config_entry_lines [] paths = Some paths"
| "config_entry_lines (l # ls) paths =
     (case config_entry_line l paths of None \<Rightarrow> None | Some paths' \<Rightarrow> config_entry_lines ls paths')"

definition ParsingConfigFile :: "string \<Rightarrow> (string \<times> string) option" where
  "ParsingConfigFile content =
     (case config_entry_lines (fgets_all 2048 content) ([], []) of
        None \<Rightarrow> None
      | Some (rpath, wpath) \<Rightarrow> if wpath = [] \<or> rpath = [] then None else Some (rpath, wpath))"

text \<open>\<^verbatim>\<open>fopen\<close> for reading: the contents of the file, if there is one and the call succeeds.\<close>

definition fopen_read :: "dworld \<Rightarrow> string \<Rightarrow> (dbstate, string option) prog" where
  "fopen_read w path = bind (sys w ''fopen r'' path) (\<lambda>ok. gets (\<lambda>s. if ok then fs s path else None))"

definition GetConfigValue :: "dworld \<Rightarrow> int \<Rightarrow> (dbstate, bool \<times> string) prog" where
  "GetConfigValue w iParam =
     bind (gets m_nStatus) (\<lambda>status.
     seq (when_do (status = errConfEmpty)
            (bind (fopen_read w STR_CONFIG_FILEPATH) (\<lambda>file.
             case file of
               None \<Rightarrow> ret ()
             | Some content \<Rightarrow>
                 (case ParsingConfigFile content of
                    None \<Rightarrow> ret ()
                  | Some (rpath, wpath) \<Rightarrow>
                      modify (\<lambda>s. s\<lparr>m_strReadPath := rpath, m_strWritePath := wpath, m_nStatus := errConfOk\<rparr>))))) (
     gets (\<lambda>s. if m_nStatus s \<noteq> errConfOk then (False, [])
               else if iParam = NSS_CONFIG_RFILE then (True, m_strReadPath s)
               else if iParam = NSS_CONFIG_WFILE then (True, m_strWritePath s)
               else (status = errConfEmpty, []))))"

section \<open>Entries\<close>

definition ClearPwdStruct :: TsPassword where
  "ClearPwdStruct = \<lparr>uId = 0, uGid = 0, strName = [], strPasswd = [], strGecos = [], strDir = [], strShell = []\<rparr>"

datatype parse_result = IUFBS_DB_ERROR | IUFBS_DB_SUCCESS TsPassword | IUFBS_DB_EMPTY

text \<open>The fields up to the next separator, \<open>n\<close> of them; the last one goes up to the end of the line.\<close>

fun split_fields :: "nat \<Rightarrow> string \<Rightarrow> string list option" where
  "split_fields 0 line = Some []"
| "split_fields (Suc n) line =
     (let sep = (if n = 0 then NL else CHR '':'') in
      if sep \<in> set line then
        (case split_fields n (tl (dropWhile (\<lambda>c. c \<noteq> sep) line)) of
           None \<Rightarrow> None
         | Some others \<Rightarrow> Some (takeWhile (\<lambda>c. c \<noteq> sep) line # others))
      else None)"

definition ParsingLine :: "string \<Rightarrow> parse_result" where
  "ParsingLine buf =
     (let line = Trim buf in
      if line = [] then IUFBS_DB_EMPTY
      else
        (case split_fields 7 (line @ [NL]) of
           None \<Rightarrow> IUFBS_DB_ERROR
         | Some strSplit \<Rightarrow>
             if CHR '':'' \<in> set (strSplit ! 6) then IUFBS_DB_ERROR
             else IUFBS_DB_SUCCESS
               \<lparr>uId = word_of_int (strtoul10 (Trim (strSplit ! 2))), uGid = word_of_int (strtoul10 (Trim (strSplit ! 3))),
                strName = Trim (strSplit ! 0), strPasswd = Trim (strSplit ! 1), strGecos = Trim (strSplit ! 4),
                strDir = Trim (strSplit ! 5), strShell = Trim (strSplit ! 6)\<rparr>))"

text \<open>The tuple that \<^verbatim>\<open>InsertItemInDb\<close> prints.\<close>

definition tuple :: "TsPassword \<Rightarrow> string" where
  "tuple pwd =
     strName pwd @ '':'' @ strPasswd pwd @ '':'' @ show_nat (unat (uId pwd)) @ '':'' @ show_nat (unat (uGid pwd)) @ '':'' @
     strGecos pwd @ '':'' @ strDir pwd @ '':'' @ strShell pwd @ [NL]"

section \<open>Streams\<close>

definition write_at :: "nat \<Rightarrow> string \<Rightarrow> string \<Rightarrow> string" where
  "write_at pos bytes old = take pos old @ replicate (pos - length old) NUL @ bytes @ drop (pos + length bytes) old"

definition fopen_write :: "dworld \<Rightarrow> string \<Rightarrow> (dbstate, bool) prog" where
  "fopen_write w path =
     bind (sys w ''fopen w'' path) (\<lambda>ok. seq (when_do ok (modify (set_file path (Some [])))) (ret ok))"

text \<open>The bytes that went to the file; their number is what \<^verbatim>\<open>fwrite\<close> returns.\<close>

definition fwrite :: "dworld \<Rightarrow> string \<Rightarrow> nat \<Rightarrow> string \<Rightarrow> (dbstate, nat) prog" where
  "fwrite w path pos bytes =
     bind (gets (\<lambda>s. min (length bytes) (dw_count w (dtrc s) (DCall ''fwrite'' path) (length bytes)))) (\<lambda>n.
     seq (modify (\<lambda>s. set_file path (Some (write_at pos (take n bytes) (case fs s path of None \<Rightarrow> [] | Some c \<Rightarrow> c)))
            (s\<lparr>dtrc := DCall ''fwrite'' path # dtrc s\<rparr>)))
       (ret n))"

definition file_error :: "errNssDb \<Rightarrow> (dbstate, bool) prog" where
  "file_error e = seq (SetInternalError e) (ret False)"

definition Truncate :: "dworld \<Rightarrow> string \<Rightarrow> (dbstate, bool) prog" where
  "Truncate w path =
     bind (sys w ''fseek'' path) (\<lambda>ok.
     if \<not> ok then file_error errDbHandling
     else
     bind (sys w ''fileno'' path) (\<lambda>ok.
     if \<not> ok then file_error errDbWrite
     else
     bind (sys w ''ftruncate'' path) (\<lambda>ok.
     if \<not> ok then file_error errDbTruncate
     else seq (modify (set_file path (Some []))) (ret True))))"

text \<open>The blocks that successive reads of \<open>n\<close> bytes return.\<close>

function blocks :: "nat \<Rightarrow> string \<Rightarrow> string list" where
  "blocks n str = (if n = 0 \<or> str = [] then [] else take n str # blocks n (drop n str))"
  by pat_completeness auto
termination
  by (relation "measure (\<lambda>(n, str). length str)") auto

declare blocks.simps [simp del]

definition MAX_UFDB_CPYBUFFER :: nat where "MAX_UFDB_CPYBUFFER = 4096"
definition MAX_UFDB_FILEBUFFER :: nat where "MAX_UFDB_FILEBUFFER = 2048"

fun transfer_blocks :: "dworld \<Rightarrow> string \<Rightarrow> string \<Rightarrow> nat \<Rightarrow> string list \<Rightarrow> (dbstate, bool) prog" where
  "transfer_blocks w from to pos [] =
     bind (sys w ''fread'' from) (\<lambda>ok. if ok then ret True else file_error errDbCopy)"
| "transfer_blocks w from to pos (b # bs) =
     bind (sys w ''fread'' from) (\<lambda>ok.
     if \<not> ok then file_error errDbCopy
     else
     bind (fwrite w to pos b) (\<lambda>n.
     if n = length b then transfer_blocks w from to (pos + n) bs else file_error errDbCopy))"

text \<open>Both streams stand at the start of their files.\<close>

definition FileTransfer :: "dworld \<Rightarrow> string \<Rightarrow> string \<Rightarrow> (dbstate, bool) prog" where
  "FileTransfer w from to =
     bind (gets (\<lambda>s. case fs s from of None \<Rightarrow> [] | Some c \<Rightarrow> c)) (\<lambda>content.
     transfer_blocks w from to 0 (blocks MAX_UFDB_CPYBUFFER content))"

definition CopyFile :: "dworld \<Rightarrow> string \<Rightarrow> string \<Rightarrow> (dbstate, bool) prog" where
  "CopyFile w from to =
     bind (fopen_read w from) (\<lambda>file.
     if file = None then file_error errDbCopy
     else
     bind (fopen_write w to) (\<lambda>ok.
     if \<not> ok then file_error errDbCopy else FileTransfer w from to))"

section \<open>The database handler\<close>

definition STR_NSSDB_LOCKPATH :: string where "STR_NSSDB_LOCKPATH = ''/var/lock/~nss_ufbs.lck''"

text \<open>Whether another process holds the lock comes from the environment, as \<^verbatim>\<open>EACCES\<close> or \<^verbatim>\<open>EAGAIN\<close>.\<close>

definition LockDatabase :: "dworld \<Rightarrow> (dbstate, bool) prog" where
  "LockDatabase w =
     bind (gets m_iLckFile) (\<lambda>lck.
     if 0 \<le> lck then ret False
     else
     bind (sys w ''open'' STR_NSSDB_LOCKPATH) (\<lambda>ok.
     if \<not> ok then seq (modify (\<lambda>s. s\<lparr>m_iLckFile := -1\<rparr>)) (seq (SetInternalError errDbLockD) (ret True))
     else
     seq (modify (\<lambda>s. s\<lparr>m_iLckFile := 3\<rparr>)) (
     bind (sys w ''fcntl lock'' STR_NSSDB_LOCKPATH) (\<lambda>ok.
     if ok then ret True
     else
     bind (sys w ''errno is EACCES or EAGAIN'' STR_NSSDB_LOCKPATH) (\<lambda>locked. ret (\<not> locked))))))"

definition UnLockDatabase :: "dworld \<Rightarrow> (dbstate, bool) prog" where
  "UnLockDatabase w =
     bind (gets m_iLckFile) (\<lambda>lck.
     if lck < 0 then ret False
     else
     bind (sys w ''fcntl unlock'' STR_NSSDB_LOCKPATH) (\<lambda>ok.
     seq (modify (\<lambda>s. s\<lparr>m_iLckFile := -1\<rparr>)) (ret ok)))"

definition work_path :: "string \<Rightarrow> string" where "work_path db = db @ ''~.tmp''"

definition temp_path :: "nat \<Rightarrow> string \<Rightarrow> string" where
  "temp_path pid db = ''/tmp/~tmp_'' @ show_nat pid @ PathFileName db"

definition GetTempFilePath :: "dworld \<Rightarrow> (dbstate, bool \<times> string) prog" where
  "GetTempFilePath w =
     bind (GetConfigValue w NSS_CONFIG_WFILE) (\<lambda>(ok, db).
     if ok then ret (True, temp_path (dw_pid w) db)
     else seq (SetInternalError errDbTmpPath) (ret (False, [])))"

definition GetDatapaseWorkPath :: "dworld \<Rightarrow> (dbstate, bool \<times> string) prog" where
  "GetDatapaseWorkPath w =
     bind (GetConfigValue w NSS_CONFIG_WFILE) (\<lambda>(ok, db).
     if ok then ret (True, work_path db)
     else seq (SetInternalError errDbTmpPath) (ret (False, [])))"

definition CreateTmpFile :: "dworld \<Rightarrow> (dbstate, bool) prog" where
  "CreateTmpFile w =
     bind (gets m_pTmpFile) (\<lambda>tmp.
     if tmp \<noteq> None then ret True
     else
     bind (GetTempFilePath w) (\<lambda>(ok, path).
     if \<not> ok then ret False
     else
     bind (fopen_write w path) (\<lambda>ok.
     if \<not> ok then file_error errDbTmpCreate
     else seq (modify (\<lambda>s. s\<lparr>m_pTmpFile := Some (path, 0)\<rparr>)) (ret True))))"

definition CloseTmpFile :: "dworld \<Rightarrow> (dbstate, unit) prog" where
  "CloseTmpFile w =
     bind (gets m_pTmpFile) (\<lambda>tmp.
     when_do (tmp \<noteq> None)
       (seq (modify (\<lambda>s. s\<lparr>m_pTmpFile := None\<rparr>)) (
        bind (GetTempFilePath w) (\<lambda>(ok, path).
        when_do ok
          (bind (sys w ''remove'' path) (\<lambda>ok. when_do ok (modify (set_file path None))))))))"

text \<open>
  The stages of opening the work file, in the order of the code; the result says whether it is open.
\<close>

definition open_work :: "dworld \<Rightarrow> string \<Rightarrow> string \<Rightarrow> (dbstate, bool) prog" where
  "open_work w db work =
     bind (sys w ''stat'' db) (\<lambda>ok. bind (gets (\<lambda>s. ok \<and> fs s db \<noteq> None)) (\<lambda>exist.
     if \<not> exist then
       bind (fopen_write w work) (\<lambda>ok.
       if \<not> ok then file_error errDbCreate
       else seq (modify (\<lambda>s. s\<lparr>m_pWorkFile := Some work\<rparr>)) (seq (SetInternalError errDbOk) (ret True)))
     else
       bind (CopyFile w db work) (\<lambda>ok.
       if \<not> ok then ret False
       else
       bind (sys w ''fopen r+'' work) (\<lambda>ok.
       if \<not> ok then file_error errDbOpen
       else seq (modify (\<lambda>s. s\<lparr>m_pWorkFile := Some work\<rparr>)) (ret True)))))"

definition OpenDbInstance :: "dworld \<Rightarrow> (dbstate, bool) prog" where
  "OpenDbInstance w =
     seq (SetInternalError errDbUnknow) (
     bind
       (bind (LockDatabase w) (\<lambda>ok.
        if \<not> ok then file_error errDbLocked
        else
        bind (gets m_pWorkFile) (\<lambda>work.
        if work \<noteq> None then file_error errDbAlready
        else
        bind (GetConfigValue w NSS_CONFIG_WFILE) (\<lambda>(ok, db).
        if \<not> ok then file_error errDbPath
        else
        bind (GetDatapaseWorkPath w) (\<lambda>(ok, work).
        if \<not> ok then file_error errDbTmpCreate
        else open_work w db work))))) (\<lambda>ok.
     if \<not> ok then ret False
     else
     bind (CreateTmpFile w) (\<lambda>ok.
     seq (when_do (\<not> ok) (modify (\<lambda>s. s\<lparr>m_pWorkFile := None\<rparr>))) (ret ok))))"

definition rename_database :: "dworld \<Rightarrow> string \<Rightarrow> string \<Rightarrow> (dbstate, bool) prog" where
  "rename_database w work db =
     bind (sys w ''rename'' work) (\<lambda>ok.
     if \<not> ok then file_error errDbRename
     else
     seq (modify (\<lambda>s. set_file work None (set_file db (fs s work) s))) (
     seq (SetInternalError errDbOk) (ret True)))"

definition close_work :: "dworld \<Rightarrow> string option \<Rightarrow> (dbstate, bool) prog" where
  "close_work w file =
     (if file = None then ret False
      else
      bind (sys w ''fclose'' (the file)) (\<lambda>ok.
      if \<not> ok then file_error errDbCloseWDb
      else
      seq (modify (\<lambda>s. s\<lparr>m_pWorkFile := None\<rparr>)) (
      bind (GetDatapaseWorkPath w) (\<lambda>(ok, work).
      if \<not> ok then ret False
      else
      bind (GetConfigValue w NSS_CONFIG_WFILE) (\<lambda>(ok, db).
      if \<not> ok then file_error errDbPath else rename_database w work db)))))"

definition CloseDbInstance :: "dworld \<Rightarrow> (dbstate, bool) prog" where
  "CloseDbInstance w =
     seq (CloseTmpFile w) (
     bind (gets m_pWorkFile) (\<lambda>file.
     bind (close_work w file) (\<lambda>bRet.
     bind (UnLockDatabase w) (\<lambda>_. ret bRet))))"

datatype remove_result = DB_ERROR | DB_SUCCESS_FOUND | DB_SUCCESS_NOTFOUND

text \<open>Writing at the position of the temporary stream.\<close>

definition fwrite_tmp :: "dworld \<Rightarrow> string \<Rightarrow> (dbstate, nat) prog" where
  "fwrite_tmp w bytes =
     bind (gets m_pTmpFile) (\<lambda>tmp.
     case tmp of
       None \<Rightarrow> crash
     | Some (path, pos) \<Rightarrow>
         bind (fwrite w path pos bytes) (\<lambda>n.
         seq (modify (\<lambda>s. s\<lparr>m_pTmpFile := Some (path, pos + n)\<rparr>)) (ret n)))"

text \<open>
  The loop over the lines of the work file: \<open>nl\<close> is whether the last line that was kept ends in a
  newline, \<open>found\<close> whether the id was seen. A read error ends the loop like the end of the file. A
  kept line whose first byte is NUL has length 0, and the byte before the buffer is read.
\<close>

fun copy_lines :: "dworld \<Rightarrow> 32 word \<Rightarrow> bool \<Rightarrow> bool \<Rightarrow> string list \<Rightarrow> (dbstate, bool \<times> remove_result) prog" where
  "copy_lines w uid nl found [] = ret (nl, if found then DB_SUCCESS_FOUND else DB_SUCCESS_NOTFOUND)"
| "copy_lines w uid nl found (l # ls) =
     bind (sys w ''fgets'' []) (\<lambda>ok.
     if \<not> ok then ret (nl, if found then DB_SUCCESS_FOUND else DB_SUCCESS_NOTFOUND)
     else
       (let buf = cstr l;
            keep = bind (fwrite_tmp w buf) (\<lambda>n.
              if buf = [] then crash
              else if n \<noteq> length buf then ret (last buf = NL, DB_ERROR)
              else copy_lines w uid (last buf = NL) found ls)
        in case ParsingLine buf of
             IUFBS_DB_EMPTY \<Rightarrow> keep
           | IUFBS_DB_ERROR \<Rightarrow> seq (SetInternalError errDbFormat) (ret (nl, DB_ERROR))
           | IUFBS_DB_SUCCESS pwd \<Rightarrow> if uid \<noteq> uId pwd then keep else copy_lines w uid nl True ls))"

text \<open>The private \<^verbatim>\<open>RemoveItemInDb\<close>; the flag says whether what was kept ends in a newline.\<close>

definition RemoveLinesInDb :: "dworld \<Rightarrow> 32 word \<Rightarrow> (dbstate, bool \<times> remove_result) prog" where
  "RemoveLinesInDb w uid =
     bind (gets m_pWorkFile) (\<lambda>file. bind (gets m_pTmpFile) (\<lambda>tmp.
     if file = None \<or> tmp = None then seq (SetInternalError errDbNotOpen) (ret (False, DB_ERROR))
     else
     bind (sys w ''fseek'' (the file)) (\<lambda>ok.
     if \<not> ok then seq (SetInternalError errDbHandling) (ret (False, DB_ERROR))
     else
     bind (sys w ''fseek'' (fst (the tmp))) (\<lambda>ok.
     if \<not> ok then seq (SetInternalError errDbHandling) (ret (False, DB_ERROR))
     else
     seq (modify (\<lambda>s. s\<lparr>m_pTmpFile := Some (fst (the tmp), 0)\<rparr>)) (
     bind (gets (\<lambda>s. case fs s (the file) of None \<Rightarrow> [] | Some c \<Rightarrow> c)) (\<lambda>content.
     copy_lines w uid True False (fgets_all MAX_UFDB_FILEBUFFER content)))))))"

text \<open>Neither stream is NULL here: both are db_open together, and the callers have checked the work file.\<close>

definition FlushTmpFile :: "dworld \<Rightarrow> (dbstate, bool) prog" where
  "FlushTmpFile w =
     bind (gets m_pWorkFile) (\<lambda>file. bind (gets m_pTmpFile) (\<lambda>tmp.
     if file = None \<or> tmp = None then crash
     else
     bind (sys w ''fseek'' (fst (the tmp))) (\<lambda>ok.
     if \<not> ok then file_error errDbHandling
     else
     seq (modify (\<lambda>s. s\<lparr>m_pTmpFile := Some (fst (the tmp), 0)\<rparr>)) (
     bind (Truncate w (the file)) (\<lambda>ok.
     if \<not> ok then ret False
     else
     bind (FileTransfer w (fst (the tmp)) (the file)) (\<lambda>ok.
     if \<not> ok then ret False else Truncate w (fst (the tmp))))))))"

definition RemoveItemInDb :: "dworld \<Rightarrow> 32 word \<Rightarrow> (dbstate, bool) prog" where
  "RemoveItemInDb w uid =
     seq (SetInternalError errDbUnknow) (
     bind (gets m_pWorkFile) (\<lambda>file.
     if file = None then file_error errDbNotOpen
     else
     bind (RemoveLinesInDb w uid) (\<lambda>(nl, flag).
     case flag of
       DB_SUCCESS_FOUND \<Rightarrow>
         bind (FlushTmpFile w) (\<lambda>ok. seq (when_do ok (SetInternalError errDbOk)) (ret ok))
     | DB_SUCCESS_NOTFOUND \<Rightarrow> file_error errDbUidNotFound
     | DB_ERROR \<Rightarrow> ret False)))"

definition InsertItemInDb :: "dworld \<Rightarrow> TsPassword \<Rightarrow> (dbstate, bool) prog" where
  "InsertItemInDb w pwd =
     seq (SetInternalError errDbUnknow) (
     bind (gets m_pWorkFile) (\<lambda>file.
     if file = None then file_error errDbNotOpen
     else
     bind (RemoveLinesInDb w (uId pwd)) (\<lambda>(nl, flag).
     if flag = DB_ERROR then ret False
     else
       (let ostrTuple = (if nl then [] else [NL]) @ tuple pwd in
        bind (fwrite_tmp w ostrTuple) (\<lambda>n.
        seq (SetInternalError (if n = length ostrTuple then errDbOk else errDbWrite)) (
        FlushTmpFile w))))))"

definition ClearDatabase :: "dworld \<Rightarrow> (dbstate, bool) prog" where
  "ClearDatabase w =
     seq (SetInternalError errDbUnknow) (
     bind (gets m_pWorkFile) (\<lambda>file.
     if file = None then file_error errDbNotOpen
     else
     bind (Truncate w (the file)) (\<lambda>ok. seq (when_do ok (SetInternalError errDbOk)) (ret ok))))"

section \<open>Parsing what was printed\<close>

lemma dropWhile_hd: "s = [] \<or> \<not> P (hd s) \<Longrightarrow> dropWhile P s = s"
  by (cases s) auto

lemma Trim_id: "s = [] \<or> \<not> trim_character (hd s) \<and> \<not> trim_character (last s) \<Longrightarrow> Trim s = s"
  using dropWhile_hd [of s trim_character] dropWhile_hd [of "rev s" trim_character]
  by (auto simp: Trim_def TrimLeft_def TrimRight_def hd_rev)

lemma TrimLeft_append: "(\<exists>c \<in> set s. \<not> trim_character c) \<Longrightarrow> TrimLeft (s @ t) = TrimLeft s @ t"
  by (auto simp: TrimLeft_def dropWhile_append1)

lemma TrimLeft_hd: "TrimLeft s \<noteq> [] \<Longrightarrow> \<not> trim_character (hd (TrimLeft s))"
  by (auto simp: TrimLeft_def hd_dropWhile)

lemma Trim_NL: "Trim (s @ [NL]) = Trim s"
proof (cases "\<exists>c \<in> set s. \<not> trim_character c")
  case True
  then show ?thesis by (simp add: Trim_def TrimLeft_append) (simp add: TrimRight_def trim_character_def)
next
  case False
  then have "TrimLeft s = []" "TrimLeft (s @ [NL]) = []"
    by (auto simp: TrimLeft_def dropWhile_eq_Nil_conv trim_character_def)
  then show ?thesis by (simp add: Trim_def)
qed

lemma Trim_ends:
  assumes "Trim s = s" "s \<noteq> []"
  shows "\<not> trim_character (hd s)" "\<not> trim_character (last s)"
proof -
  have len: "length (TrimRight t) \<le> length t" "length (TrimLeft t) \<le> length t" for t
    using length_dropWhile_le [of trim_character "rev t"] length_dropWhile_le [of trim_character t]
    by (simp_all add: TrimRight_def TrimLeft_def)
  from assms len [of s] len [of "TrimLeft s"] have "length (TrimLeft s) = length s"
    by (simp add: Trim_def)
  moreover from this have "TrimLeft s = s"
    unfolding TrimLeft_def using takeWhile_dropWhile_id [of trim_character s]
    by (metis append_eq_append_conv append_self_conv2 length_append add_cancel_left_left length_0_conv)
  ultimately show "\<not> trim_character (hd s)"
    using TrimLeft_hd [of s] assms by simp
  from assms \<open>TrimLeft s = s\<close> have "TrimRight s = s" by (simp add: Trim_def)
  then have "dropWhile trim_character (rev s) = rev s" by (simp add: TrimRight_def rev_swap)
  then show "\<not> trim_character (last s)"
    using assms(2) by (metis hd_dropWhile hd_rev rev_is_Nil_conv)
qed

lemma digits_plain: "isdigit c \<Longrightarrow> \<not> trim_character c \<and> c \<noteq> CHR '':'' \<and> c \<noteq> NL \<and> c \<noteq> NUL"
  by (auto simp: isdigit_def trim_character_def)

lemma Trim_show_nat: "Trim (show_nat n) = show_nat n"
  by (rule Trim_id) (use show_nat_digits [of n] digits_plain in \<open>auto simp: hd_in_set\<close>)

lemma strtoul10_show: "n < 2 ^ 64 \<Longrightarrow> strtoul10 (show_nat n) = int n"
proof -
  assume n: "n < 2 ^ 64"
  obtain c cs where s: "show_nat n = c # cs" "isdigit c"
    using show_nat_nonempty [of n] show_nat_digits [of n] by (cases "show_nat n") (auto simp del: show_nat.simps)
  have t: "takeWhile isdigit (c # cs) = c # cs"
    using show_nat_digits [of n] s by (simp add: takeWhile_eq_all_conv del: show_nat.simps)
  have v: "foldl (\<lambda>a d. 10 * a + digit_value d) 0 (c # cs) = int n"
    using show_nat_value [of n] s by (simp del: show_nat.simps)
  have "dropWhile isspace (c # cs) = c # cs" using digit_no_space [OF s(2)] by simp
  then show ?thesis
    using n digit_no_space [OF s(2)] t v
    by (simp only: strtoul10_def s(1) Let_def list.case if_False simp_thms t v) simp
qed

lemma split_at_sep:
  "c \<notin> set f \<Longrightarrow> takeWhile (\<lambda>x. x \<noteq> c) (f @ c # rest) = f"
  "c \<notin> set f \<Longrightarrow> dropWhile (\<lambda>x. x \<noteq> c) (f @ c # rest) = c # rest"
  by (induction f) auto

lemma split_fields_sep:
  "CHR '':'' \<notin> set f \<Longrightarrow>
   split_fields (Suc (Suc n)) (f @ CHR '':'' # rest) = map_option ((#) f) (split_fields (Suc n) rest)"
  by (subst split_fields.simps) (simp add: Let_def split_at_sep map_option_case del: split_fields.simps split: option.split)

lemma split_fields_last: "NL \<notin> set f \<Longrightarrow> split_fields (Suc 0) (f @ [NL]) = Some [f]"
  by (simp add: Let_def split_at_sep)

text \<open>A field that is read back as it was printed.\<close>

definition plain_field :: "string \<Rightarrow> bool" where
  "plain_field f \<longleftrightarrow> Trim f = f \<and> CHR '':'' \<notin> set f \<and> NL \<notin> set f \<and> NUL \<notin> set f"

definition plain_entry :: "TsPassword \<Rightarrow> bool" where
  "plain_entry p \<longleftrightarrow> plain_field (strName p) \<and> plain_field (strPasswd p) \<and> plain_field (strGecos p) \<and>
     plain_field (strDir p) \<and> plain_field (strShell p) \<and> length (tuple p) < MAX_UFDB_FILEBUFFER"

definition bare_tuple :: "TsPassword \<Rightarrow> string" where
  "bare_tuple pwd =
     strName pwd @ CHR '':'' # strPasswd pwd @ CHR '':'' # show_nat (unat (uId pwd)) @ CHR '':'' # show_nat (unat (uGid pwd)) @
     CHR '':'' # strGecos pwd @ CHR '':'' # strDir pwd @ CHR '':'' # strShell pwd"

lemma tuple_bare: "tuple p = bare_tuple p @ [NL]"
  by (simp add: tuple_def bare_tuple_def)

lemma plain_show_nat: "plain_field (show_nat n)"
  using show_nat_digits [of n] digits_plain by (force simp: plain_field_def Trim_show_nat simp del: show_nat.simps)

lemma Trim_bare_tuple:
  assumes "plain_entry p"
  shows "Trim (bare_tuple p) = bare_tuple p"
proof (rule Trim_id, rule disjI2, rule conjI)
  have colon: "\<not> trim_character (CHR '':'')" by (simp add: trim_character_def)
  show "\<not> trim_character (hd (bare_tuple p))"
    using assms Trim_ends(1) [of "strName p"] colon
    by (cases "strName p") (auto simp: bare_tuple_def plain_entry_def plain_field_def)
  show "\<not> trim_character (last (bare_tuple p))"
    using assms Trim_ends(2) [of "strShell p"] colon
    by (cases "strShell p = []") (auto simp: bare_tuple_def plain_entry_def plain_field_def)
qed

lemma plain_nat_field: "CHR '':'' \<notin> set (show_nat n)" "NL \<notin> set (show_nat n)" "NUL \<notin> set (show_nat n)"
  using plain_show_nat [of n] by (auto simp: plain_field_def)

lemma uid_read_back: "word_of_int (strtoul10 (show_nat (unat (u :: 32 word)))) = u"
proof -
  have "unat u < 2 ^ 64" by (rule order.strict_trans2 [OF unsigned_less [of u, where ?'a = nat]]) simp
  then show ?thesis by (simp add: strtoul10_show del: show_nat.simps)
qed

lemma ParsingLine_bare:
  assumes "plain_entry p"
  shows "ParsingLine (bare_tuple p) = IUFBS_DB_SUCCESS p"
proof -
  have plain: "plain_field (strName p)" "plain_field (strPasswd p)" "plain_field (strGecos p)"
    "plain_field (strDir p)" "plain_field (strShell p)"
    using assms by (auto simp: plain_entry_def)
  have split: "split_fields 7 (bare_tuple p @ [NL]) =
      Some [strName p, strPasswd p, show_nat (unat (uId p)), show_nat (unat (uGid p)), strGecos p, strDir p, strShell p]"
    using plain plain_nat_field
    by (simp add: bare_tuple_def eval_nat_numeral split_fields_sep split_fields_last plain_field_def
        del: split_fields.simps show_nat.simps)
  have "bare_tuple p \<noteq> []" by (simp add: bare_tuple_def)
  then show ?thesis
    using split plain uid_read_back [of "uId p"] uid_read_back [of "uGid p"] Trim_show_nat
    by (simp add: ParsingLine_def Trim_bare_tuple [OF assms] plain_field_def del: show_nat.simps)
qed

section \<open>A database file as a list of entries\<close>

fun parse_lines :: "string list \<Rightarrow> TsPassword list option" where
  "parse_lines [] = Some []"
| "parse_lines (l # ls) =
     (case ParsingLine (cstr l) of
        IUFBS_DB_ERROR \<Rightarrow> None
      | IUFBS_DB_EMPTY \<Rightarrow> parse_lines ls
      | IUFBS_DB_SUCCESS p \<Rightarrow> map_option ((#) p) (parse_lines ls))"

definition entries :: "string \<Rightarrow> TsPassword list option" where
  "entries content = parse_lines (fgets_all MAX_UFDB_FILEBUFFER content)"

text \<open>Lines that \<^verbatim>\<open>fgets\<close> does not split, none with a NUL; only the last one may lack its newline.\<close>

definition ended :: "string \<Rightarrow> bool" where
  "ended l \<longleftrightarrow> l \<noteq> [] \<and> last l = NL \<and> NL \<notin> set (butlast l)"

definition short_line :: "string \<Rightarrow> bool" where
  "short_line l \<longleftrightarrow> l \<noteq> [] \<and> NUL \<notin> set l \<and> length l + (if ended l then 0 else 1) < MAX_UFDB_FILEBUFFER"

fun line_list :: "string list \<Rightarrow> bool" where
  "line_list [] = True"
| "line_list (l # ls) \<longleftrightarrow>
     short_line l \<and> (if ls = [] then ended l \<or> NL \<notin> set l else ended l) \<and> line_list ls"

definition short_lines :: "string \<Rightarrow> bool" where
  "short_lines content \<longleftrightarrow> (\<forall>l \<in> set (fgets_all MAX_UFDB_FILEBUFFER content). short_line l)"

lemma fgets_end: "NL \<notin> set l \<Longrightarrow> length l < n \<Longrightarrow> fgets n l = (l, [])"
proof (induction l arbitrary: n)
  case Nil
  then show ?case by (cases n) auto
next
  case (Cons c l)
  then show ?case by (cases n) auto
qed

lemma fgets_shape:
  "fgets n str = (l, rest) \<Longrightarrow> length l + 1 < n \<Longrightarrow> l \<noteq> [] \<Longrightarrow> ended l \<or> NL \<notin> set l \<and> rest = []"
proof (induction n str arbitrary: l rest rule: fgets.induct)
  case (3 n c cs)
  show ?case
  proof (cases "n = 0 \<or> c = NL")
    case True
    then show ?thesis using 3 by (auto simp: ended_def)
  next
    case False
    obtain l' where l': "fgets n cs = (l', rest)" "l = c # l'"
      using False 3 by (auto split: prod.splits)
    then have "length l' + 1 < n" using 3 by simp
    have "cs = [] \<and> l' = [] \<and> rest = []" if "l' = []"
      using that l' \<open>length l' + 1 < n\<close> fgets_progress [of n cs] by (cases n; cases cs) auto
    then show ?thesis
      using 3(1) [OF _ _ l'(1) \<open>length l' + 1 < n\<close>] l' False
      by (cases "l' = []") (auto simp: ended_def)
  qed
qed auto

lemma fgets_ended:
  assumes "ended l" "length l < n"
  shows "fgets n (l @ rest) = (l, rest)"
proof -
  have l: "l = butlast l @ [NL]" using assms(1) append_butlast_last_id [of l] by (simp add: ended_def)
  have "fgets n (butlast l @ NL # rest) = (butlast l @ [NL], rest)"
    using assms by (intro fgets_line) (auto simp: ended_def)
  then show ?thesis by (subst (1 2) l) simp
qed

lemma fgets_all_line_list: "line_list ls \<Longrightarrow> fgets_all MAX_UFDB_FILEBUFFER (concat ls) = ls"
proof (induction ls)
  case Nil
  then show ?case by (simp add: fgets_all.simps)
next
  case (Cons l ls)
  then have "fgets MAX_UFDB_FILEBUFFER (l @ concat ls) = (l, concat ls)"
    using fgets_ended [of l MAX_UFDB_FILEBUFFER "concat ls"] fgets_end [of l MAX_UFDB_FILEBUFFER]
    by (auto simp: short_line_def split: if_splits)
  then show ?case
    using Cons by (subst fgets_all.simps) (auto simp: short_line_def MAX_UFDB_FILEBUFFER_def)
qed

lemma line_list_fgets_all: "short_lines content \<Longrightarrow> line_list (fgets_all MAX_UFDB_FILEBUFFER content)"
  unfolding short_lines_def
proof (induction MAX_UFDB_FILEBUFFER content rule: fgets_all.induct)
  case (1 str)
  let ?n = MAX_UFDB_FILEBUFFER
  show ?case
  proof (cases "str = []")
    case True
    then show ?thesis by (simp add: fgets_all.simps)
  next
    case False
    obtain l rest where f: "fgets ?n str = (l, rest)" by force
    have n: "\<not> (?n \<le> 1 \<or> str = [])" using False by (simp add: MAX_UFDB_FILEBUFFER_def)
    then have all: "fgets_all ?n str = l # fgets_all ?n rest" using f by (subst fgets_all.simps) simp
    then have l: "short_line l" and IH: "line_list (fgets_all ?n rest)"
      using 1 n f by auto
    then have "ended l \<or> NL \<notin> set l \<and> rest = []"
      using fgets_shape [OF f] by (auto simp: short_line_def split: if_splits)
    moreover have "fgets_all ?n [] = []" by (simp add: fgets_all.simps)
    ultimately show ?thesis
      using l IH by (auto simp: all)
  qed
qed

lemma line_list_short: "line_list ls \<Longrightarrow> \<forall>l \<in> set ls. short_line l"
  by (induction ls) auto

lemma line_list_filter: "line_list ls \<Longrightarrow> line_list (filter P ls)"
  by (induction ls) (auto simp: filter_empty_conv split: if_splits)

text \<open>The kept lines, and the text that ends in a newline again.\<close>

definition kept :: "32 word \<Rightarrow> string list \<Rightarrow> string list" where
  "kept uid = filter (\<lambda>l. case ParsingLine (cstr l) of IUFBS_DB_SUCCESS p \<Rightarrow> uId p \<noteq> uid | _ \<Rightarrow> True)"

fun complete_lines :: "string list \<Rightarrow> string list" where
  "complete_lines [] = []"
| "complete_lines (l # ls) = (if ls = [] \<and> \<not> ended l then [l @ [NL]] else l # complete_lines ls)"

lemma cstr_NUL_free: "NUL \<notin> set l \<Longrightarrow> cstr l = l"
  by (rule cstr_idem)

lemma ParsingLine_NL: "ParsingLine (l @ [NL]) = ParsingLine l"
  by (simp add: ParsingLine_def Trim_NL)

lemma parse_kept: "parse_lines ls = Some es \<Longrightarrow> parse_lines (kept uid ls) = Some (filter (\<lambda>e. uId e \<noteq> uid) es)"
  by (induction ls arbitrary: es) (auto simp: kept_def split: parse_result.splits)

lemma parse_complete: "line_list ls \<Longrightarrow> parse_lines (complete_lines ls) = parse_lines ls"
  by (induction ls) (auto simp: short_line_def cstr_NUL_free ParsingLine_NL split: parse_result.splits)

lemma parse_append:
  "parse_lines (ls @ ls') = Option.bind (parse_lines ls) (\<lambda>es. map_option ((@) es) (parse_lines ls'))"
  by (induction ls; cases "parse_lines ls'") (auto split: parse_result.splits bind_splits)

lemma complete_lines_empty: "complete_lines ls = [] \<longleftrightarrow> ls = []"
  by (cases ls) auto

lemma line_list_complete: "line_list ls \<Longrightarrow> line_list (complete_lines ls) \<and> (\<forall>l \<in> set (complete_lines ls). ended l)"
  by (induction ls) (auto simp: short_line_def ended_def complete_lines_empty split: if_splits)

lemma line_list_append: "line_list ls \<Longrightarrow> \<forall>l \<in> set ls. ended l \<Longrightarrow> line_list ls' \<Longrightarrow> line_list (ls @ ls')"
  by (induction ls) auto

lemma concat_complete:
  "line_list ls \<Longrightarrow> concat (complete_lines ls) = concat ls @ (if ls = [] \<or> last (last ls) = NL then [] else [NL])"
proof (induction ls)
  case (Cons l ls)
  have "ended l \<longleftrightarrow> last l = NL" if "ls = []"
    using Cons.prems that by (auto simp: ended_def short_line_def dest: in_set_butlastD)
  then show ?case using Cons by auto
qed simp

lemma plain_tuple_line: "plain_entry p \<Longrightarrow> line_list [tuple p] \<and> parse_lines [tuple p] = Some [p]"
proof -
  assume p: "plain_entry p"
  then have bare: "NL \<notin> set (bare_tuple p)" "NUL \<notin> set (bare_tuple p)"
    using plain_nat_field by (auto simp: bare_tuple_def plain_entry_def plain_field_def simp del: show_nat.simps)
  then have line: "NUL \<notin> set (tuple p)" "ended (tuple p)" by (auto simp: tuple_bare ended_def)
  have "ParsingLine (cstr (tuple p)) = IUFBS_DB_SUCCESS p"
    unfolding cstr_NUL_free [OF line(1)] unfolding tuple_bare ParsingLine_NL by (rule ParsingLine_bare [OF p])
  moreover have "tuple p \<noteq> []" using line(2) by (auto simp: ended_def)
  ultimately show ?thesis
    using p line by (simp add: short_line_def plain_entry_def)
qed

text \<open>What an insertion makes of the text.\<close>

definition insert_text :: "TsPassword \<Rightarrow> string \<Rightarrow> string" where
  "insert_text p content =
     (let ls = kept (uId p) (fgets_all MAX_UFDB_FILEBUFFER content) in
      concat ls @ (if ls = [] \<or> last (last ls) = NL then [] else [NL]) @ tuple p)"

lemma insert_text_entries:
  assumes "short_lines content" "entries content = Some es" "plain_entry p"
  shows "short_lines (insert_text p content) \<and>
    entries (insert_text p content) = Some (filter (\<lambda>e. uId e \<noteq> uId p) es @ [p])"
proof -
  let ?ls = "kept (uId p) (fgets_all MAX_UFDB_FILEBUFFER content)"
  have ls: "line_list ?ls"
    using line_list_filter [OF line_list_fgets_all [OF assms(1)]] by (simp add: kept_def)
  have whole: "insert_text p content = concat (complete_lines ?ls @ [tuple p])"
    by (simp add: insert_text_def Let_def concat_complete [OF ls])
  have all: "line_list (complete_lines ?ls @ [tuple p])"
    using line_list_complete [OF ls] plain_tuple_line [OF assms(3)] by (intro line_list_append) auto
  then have lines: "fgets_all MAX_UFDB_FILEBUFFER (insert_text p content) = complete_lines ?ls @ [tuple p]"
    unfolding whole by (rule fgets_all_line_list)
  have "parse_lines ?ls = Some (filter (\<lambda>e. uId e \<noteq> uId p) es)"
    using assms(2) by (intro parse_kept) (simp add: entries_def)
  then have "entries (insert_text p content) = Some (filter (\<lambda>e. uId e \<noteq> uId p) es @ [p])"
    using plain_tuple_line [OF assms(3)]
    by (simp add: entries_def lines parse_append parse_complete [OF ls] del: parse_lines.simps)
  then show ?thesis
    using line_list_short [OF all] lines by (simp only: short_lines_def simp_thms)
qed

definition remove_text :: "32 word \<Rightarrow> string \<Rightarrow> string" where
  "remove_text uid content = concat (kept uid (fgets_all MAX_UFDB_FILEBUFFER content))"

lemma remove_text_entries:
  assumes "short_lines content" "entries content = Some es"
  shows "short_lines (remove_text uid content) \<and> entries (remove_text uid content) = Some (filter (\<lambda>e. uId e \<noteq> uid) es)"
proof -
  let ?ls = "kept uid (fgets_all MAX_UFDB_FILEBUFFER content)"
  have "line_list ?ls"
    using line_list_filter [OF line_list_fgets_all [OF assms(1)]] by (simp add: kept_def)
  then have lines: "fgets_all MAX_UFDB_FILEBUFFER (remove_text uid content) = ?ls"
    unfolding remove_text_def by (rule fgets_all_line_list)
  then show ?thesis
    using assms parse_kept [of _ es uid] by (auto simp: entries_def short_lines_def kept_def)
qed

end
