(* ===== verification/Nss_DbRun.thy ===== *)
theory Nss_DbRun
  imports Nss_Db
begin

text \<open>
  What the database handler does: the runs in which every call succeeds, computed operation by
  operation, and the invariant that holds in every run, whatever fails, until the instance is closed.
\<close>

lemma fgets_all_Nil: "fgets_all n [] = []"
  by (simp add: fgets_all.simps)

section \<open>Paths\<close>

lemma PathFileName_append: "\<forall>c \<in> set t. \<not> path_separator c \<Longrightarrow> PathFileName (s @ t) = PathFileName s @ t"
  by (simp add: PathFileName_def takeWhile_append)

lemma PathFileName_clean: "\<forall>c \<in> set (PathFileName s). \<not> path_separator c"
  by (auto simp: PathFileName_def dest: set_takeWhileD)

lemma digit_no_separator: "isdigit c \<Longrightarrow> \<not> path_separator c"
  by (auto simp: isdigit_def path_separator_def)

lemma temp_path_name: "PathFileName (temp_path pid db) = ''~tmp_'' @ show_nat pid @ PathFileName db"
proof -
  have "PathFileName (''/tmp/~tmp_'' @ show_nat pid @ PathFileName db) = PathFileName ''/tmp/~tmp_'' @ show_nat pid @ PathFileName db"
    using PathFileName_clean [of db] show_nat_digits [of pid] digit_no_separator
    by (intro PathFileName_append) (auto simp del: show_nat.simps)
  also have "PathFileName ''/tmp/~tmp_'' = ''~tmp_''" by (simp add: PathFileName_def path_separator_def)
  finally show ?thesis by (simp add: temp_path_def)
qed

lemma work_path_name: "PathFileName (work_path db) = PathFileName db @ ''~.tmp''"
  unfolding work_path_def by (rule PathFileName_append) (simp add: path_separator_def)

text \<open>The three files are different ones, whatever the database is called.\<close>

lemma paths_distinct [simp]:
  "work_path db \<noteq> db" "db \<noteq> work_path db"
  "temp_path pid db \<noteq> db" "db \<noteq> temp_path pid db"
  "temp_path pid db \<noteq> work_path db" "work_path db \<noteq> temp_path pid db"
proof -
  have l: "0 < length (show_nat pid)" by (simp del: show_nat.simps)
  show "temp_path pid db \<noteq> db"
  proof
    assume "temp_path pid db = db"
    then have "length (PathFileName (temp_path pid db)) = length (PathFileName db)" by simp
    then show False by (simp add: temp_path_name del: show_nat.simps)
  qed
  then show "db \<noteq> temp_path pid db" by simp
  show "temp_path pid db \<noteq> work_path db"
  proof
    assume "temp_path pid db = work_path db"
    then have "length (PathFileName (temp_path pid db)) = length (PathFileName (work_path db))" by simp
    then show False using l by (simp add: temp_path_name work_path_name del: show_nat.simps)
  qed
  then show "work_path db \<noteq> temp_path pid db" by simp
qed (simp_all add: work_path_def)

lemma config_path_distinct [simp]:
  "STR_CONFIG_FILEPATH \<noteq> work_path db" "STR_CONFIG_FILEPATH \<noteq> temp_path pid db"
  "work_path db \<noteq> STR_CONFIG_FILEPATH" "temp_path pid db \<noteq> STR_CONFIG_FILEPATH"
proof -
  have "last STR_CONFIG_FILEPATH \<noteq> last (work_path db)" by (simp add: STR_CONFIG_FILEPATH_def work_path_def)
  then show "STR_CONFIG_FILEPATH \<noteq> work_path db" "work_path db \<noteq> STR_CONFIG_FILEPATH" by auto
  have "STR_CONFIG_FILEPATH ! 1 \<noteq> temp_path pid db ! 1" by (simp add: STR_CONFIG_FILEPATH_def temp_path_def del: show_nat.simps)
  then show "STR_CONFIG_FILEPATH \<noteq> temp_path pid db" "temp_path pid db \<noteq> STR_CONFIG_FILEPATH" by auto
qed

section \<open>Runs in which every call succeeds\<close>

lemma set_file_simps [simp]:
  "fs (set_file p c s) = (fs s)(p := c)"
  "set_file p c (set_file p d s) = set_file p c s"
  "m_pWorkFile (set_file p c s) = m_pWorkFile s" "m_pTmpFile (set_file p c s) = m_pTmpFile s"
  "m_iLckFile (set_file p c s) = m_iLckFile s" "m_nStatus (set_file p c s) = m_nStatus s"
  "m_strReadPath (set_file p c s) = m_strReadPath s" "m_strWritePath (set_file p c s) = m_strWritePath s"
  "m_enmRetCode (set_file p c s) = m_enmRetCode s" "m_handleNss (set_file p c s) = m_handleNss s"
  "m_enmUfbsCode (set_file p c s) = m_enmUfbsCode s" "dtrc (set_file p c s) = dtrc s"
  by (simp_all add: set_file_def)

lemma set_file_same: "fs s p = c \<Longrightarrow> set_file p c s = s"
  by (simp add: set_file_def fun_upd_idem)

lemma tmp_same: "m_pTmpFile s = v \<Longrightarrow> s\<lparr>m_pTmpFile := v\<rparr> = s"
  by simp

lemma code_same: "(set_file p c s)\<lparr>m_pWorkFile := a, m_enmRetCode := m_enmRetCode s\<rparr> = (set_file p c s)\<lparr>m_pWorkFile := a\<rparr>"
  by (simp add: set_file_def)

text \<open>The list of calls is moved outwards, so that states are compared up dst it.\<close>

lemma calls_outside [simp]:
  "set_file p a (s\<lparr>dtrc := tr\<rparr>) = (set_file p a s)\<lparr>dtrc := tr\<rparr>"
  "set_file p a (s\<lparr>m_pTmpFile := c\<rparr>) = (set_file p a s)\<lparr>m_pTmpFile := c\<rparr>"
  "set_file p a (s\<lparr>m_pWorkFile := b\<rparr>) = (set_file p a s)\<lparr>m_pWorkFile := b\<rparr>"
  "s\<lparr>dtrc := tr, m_pWorkFile := b\<rparr> = s\<lparr>m_pWorkFile := b, dtrc := tr\<rparr>"
  "s\<lparr>dtrc := tr, m_pTmpFile := c\<rparr> = s\<lparr>m_pTmpFile := c, dtrc := tr\<rparr>"
  "s\<lparr>dtrc := tr, m_iLckFile := d\<rparr> = s\<lparr>m_iLckFile := d, dtrc := tr\<rparr>"
  "s\<lparr>dtrc := tr, m_nStatus := e\<rparr> = s\<lparr>m_nStatus := e, dtrc := tr\<rparr>"
  "s\<lparr>dtrc := tr, m_strReadPath := f\<rparr> = s\<lparr>m_strReadPath := f, dtrc := tr\<rparr>"
  "s\<lparr>dtrc := tr, m_strWritePath := f\<rparr> = s\<lparr>m_strWritePath := f, dtrc := tr\<rparr>"
  "s\<lparr>dtrc := tr, m_enmRetCode := g\<rparr> = s\<lparr>m_enmRetCode := g, dtrc := tr\<rparr>"
  "s\<lparr>dtrc := tr, m_handleNss := h\<rparr> = s\<lparr>m_handleNss := h, dtrc := tr\<rparr>"
  "s\<lparr>dtrc := tr, m_enmUfbsCode := i\<rparr> = s\<lparr>m_enmUfbsCode := i, dtrc := tr\<rparr>"
  by (simp_all add: set_file_def)

definition calls_ok :: "dworld \<Rightarrow> bool" where
  "calls_ok w \<longleftrightarrow> (\<forall>h c. dw_ok w h c)"

definition takes_all :: "dworld \<Rightarrow> string \<Rightarrow> bool" where
  "takes_all w path \<longleftrightarrow> (\<forall>h n. n \<le> dw_count w h (DCall ''fwrite'' path) n)"

definition sunny :: "dworld \<Rightarrow> bool" where
  "sunny w \<longleftrightarrow> calls_ok w \<and> (\<forall>path. takes_all w path)"

lemma sunnyD: "sunny w \<Longrightarrow> calls_ok w" "sunny w \<Longrightarrow> takes_all w path"
  by (auto simp: sunny_def)

lemma wp_sys: "calls_ok w \<Longrightarrow> wp (sys w name arg) Q E s = Q True (s\<lparr>dtrc := DCall name arg # dtrc s\<rparr>)"
  by (simp add: wp_def sys_def calls_ok_def)

lemma write_at_end: "length old = pos \<Longrightarrow> write_at pos bytes old = old @ bytes"
  by (simp add: write_at_def)

lemma wp_fwrite:
  "takes_all w path \<Longrightarrow> fs s path = Some old \<Longrightarrow> length old = pos \<Longrightarrow>
   wp (fwrite w path pos bytes) Q E s =
     Q (length bytes) ((set_file path (Some (old @ bytes)) s)\<lparr>dtrc := DCall ''fwrite'' path # dtrc s\<rparr>)"
  by (simp add: fwrite_def wp_simps write_at_end takes_all_def min_absorb1 calls_outside)

lemma wp_file_error: "wp (file_error e) Q E s = Q False (s\<lparr>m_enmRetCode := e\<rparr>)"
  by (simp add: file_error_def SetInternalError_def wp_simps)

lemma wp_fopen_read: "calls_ok w \<Longrightarrow>
  wp (fopen_read w path) Q E s = Q (fs s path) (s\<lparr>dtrc := DCall ''fopen r'' path # dtrc s\<rparr>)"
  by (simp add: fopen_read_def wp_simps wp_sys)

lemma wp_fopen_write: "calls_ok w \<Longrightarrow>
  wp (fopen_write w path) Q E s = Q True ((set_file path (Some ([])) s)\<lparr>dtrc := DCall ''fopen w'' path # dtrc s\<rparr>)"
  by (simp add: fopen_write_def wp_simps wp_sys calls_outside)

lemma concat_blocks: "0 < n \<Longrightarrow> concat (blocks n str) = str"
proof (induction n str rule: blocks.induct)
  case (1 n str)
  then show ?case by (subst blocks.simps) auto
qed

lemma wp_transfer_blocks:
  assumes "calls_ok w" "takes_all w dst" "fs s dst = Some old" "length old = pos"
    "\<forall>tr. Q True ((set_file dst (Some (old @ concat bs)) s)\<lparr>dtrc := tr\<rparr>)"
  shows "wp (transfer_blocks w src dst pos bs) Q E s"
  using assms
proof (induction bs arbitrary: s old pos)
  case Nil
  then have "Q True (s\<lparr>dtrc := tr\<rparr>)" for tr by (simp add: set_file_same)
  with Nil(1) show ?case by (simp add: wp_simps wp_sys)
next
  case (Cons b bs)
  show ?case
    using Cons.prems by (simp add: wp_simps wp_sys wp_fwrite) (rule Cons.IH, auto)
qed

lemma wp_FileTransfer:
  assumes "calls_ok w" "takes_all w dst" "fs s src = Some content" "fs s dst = Some []"
    "\<And>tr. Q True ((set_file dst (Some (content)) s)\<lparr>dtrc := tr\<rparr>)"
  shows "wp (FileTransfer w src dst) Q E s"
  using assms wp_transfer_blocks [of w dst s "[]" 0 Q "blocks MAX_UFDB_CPYBUFFER content" src E]
  by (simp add: FileTransfer_def wp_simps concat_blocks MAX_UFDB_CPYBUFFER_def)

lemma wp_Truncate: "calls_ok w \<Longrightarrow>
  (\<And>tr. Q True ((set_file path (Some ([])) s)\<lparr>dtrc := tr\<rparr>)) \<Longrightarrow> wp (Truncate w path) Q E s"
  by (simp add: Truncate_def wp_simps wp_sys calls_outside)

text \<open>The configuration names the database \<open>db\<close>.\<close>

definition configured :: "string \<Rightarrow> dbstate \<Rightarrow> bool" where
  "configured db s \<longleftrightarrow> db \<noteq> STR_CONFIG_FILEPATH \<and>
     (case fs s STR_CONFIG_FILEPATH of
        None \<Rightarrow> False
      | Some content \<Rightarrow> (case ParsingConfigFile content of None \<Rightarrow> False | Some (rpath, wpath) \<Rightarrow> wpath = db))"

definition conf_read :: "string \<Rightarrow> dbstate \<Rightarrow> bool" where
  "conf_read db s \<longleftrightarrow> m_nStatus s = errConfOk \<and> m_strWritePath s = db"

lemma wp_config_first:
  assumes "calls_ok w" "configured db s" "m_nStatus s = errConfEmpty"
    "\<And>tr r. Q (True, db) (s\<lparr>m_strReadPath := r, m_strWritePath := db, m_nStatus := errConfOk, dtrc := tr\<rparr>)"
  shows "wp (GetConfigValue w NSS_CONFIG_WFILE) Q E s"
  using assms
  by (auto simp: GetConfigValue_def wp_simps wp_fopen_read configured_def NSS_CONFIG_WFILE_def NSS_CONFIG_RFILE_def
      calls_outside split: option.splits)

lemma wp_config_again:
  "conf_read db s \<Longrightarrow> wp (GetConfigValue w NSS_CONFIG_WFILE) Q E s = Q (True, db) s"
  by (auto simp: GetConfigValue_def wp_simps conf_read_def NSS_CONFIG_WFILE_def NSS_CONFIG_RFILE_def)

lemma conf_read_calls [simp]: "conf_read db (s\<lparr>dtrc := tr\<rparr>) = conf_read db s"
  by (simp add: conf_read_def)

text \<open>The state with the database open: \<open>content\<close> is what the work file holds, \<open>t\<close> what the temporary one does.\<close>

definition db_open :: "dworld \<Rightarrow> string \<Rightarrow> string \<Rightarrow> string \<Rightarrow> (string \<Rightarrow> string option) \<Rightarrow> dbstate \<Rightarrow> bool" where
  "db_open w db content t files s \<longleftrightarrow> conf_read db s \<and>
     m_pWorkFile s = Some (work_path db) \<and> m_pTmpFile s = Some (temp_path (dw_pid w) db, length t) \<and>
     fs s = files(work_path db \<mapsto> content, temp_path (dw_pid w) db \<mapsto> t)"

definition content_of :: "string option \<Rightarrow> string" where
  "content_of file = (case file of None \<Rightarrow> [] | Some c \<Rightarrow> c)"

lemma wp_CopyFile:
  assumes "calls_ok w" "takes_all w dst" "fs s src = Some content" "src \<noteq> dst"
    "\<And>tr. Q True ((set_file dst (Some content) s)\<lparr>dtrc := tr\<rparr>)"
  shows "wp (CopyFile w src dst) Q E s"
  using assms by (simp add: CopyFile_def wp_simps wp_fopen_read wp_fopen_write) (rule wp_FileTransfer, auto)

lemma wp_open_work:
  assumes "calls_ok w" "takes_all w (work_path db)"
    "\<And>tr e. Q True ((set_file (work_path db) (Some (content_of (fs s db))) s)\<lparr>m_pWorkFile := Some (work_path db), m_enmRetCode := e, dtrc := tr\<rparr>)"
  shows "wp (open_work w db (work_path db)) Q E s"
proof (cases "fs s db")
  case None
  then show ?thesis
    using assms by (simp add: open_work_def wp_simps wp_sys wp_fopen_write SetInternalError_def content_of_def)
next
  case (Some content)
  then have "Q True ((set_file (work_path db) (Some content) s)\<lparr>m_pWorkFile := Some (work_path db), dtrc := tr\<rparr>)" for tr
    using assms(3) [of tr "m_enmRetCode s"] unfolding Some content_of_def option.case code_same by simp
  then show ?thesis
    using assms Some by (simp add: open_work_def wp_simps wp_sys) (rule wp_CopyFile, auto simp: wp_simps wp_sys)
qed

lemma wp_open:
  assumes "calls_ok w" "takes_all w (work_path db)" "configured db s"
  shows "wp (seq (modify TDbHandler) (OpenDbInstance w))
    (\<lambda>ok s'. ok \<and> db_open w db (content_of (fs s db)) [] (fs s) s') (\<lambda>_ _. False) s"
  unfolding OpenDbInstance_def LockDatabase_def GetDatapaseWorkPath_def
  apply (simp add: wp_simps wp_sys assms SetInternalError_def TDbHandler_def)
  apply (rule wp_config_first [where db = db])
     apply (use assms in \<open>simp_all add: configured_def\<close>)
  apply (simp add: wp_simps wp_config_again conf_read_def)
  apply (rule wp_open_work)
  apply (simp add: assms)
  apply (simp add: wp_simps)
  apply (simp add: CreateTmpFile_def GetTempFilePath_def wp_simps wp_config_again conf_read_def wp_fopen_write assms)
  apply (simp add: db_open_def conf_read_def)
  done

lemma wp_fwrite_tmp:
  "takes_all w tp \<Longrightarrow> m_pTmpFile s = Some (tp, pos) \<Longrightarrow> fs s tp = Some t \<Longrightarrow> length t = pos \<Longrightarrow>
   wp (fwrite_tmp w bytes) Q E s =
     Q (length bytes) ((set_file tp (Some (t @ bytes)) s)\<lparr>m_pTmpFile := Some (tp, pos + length bytes), dtrc := DCall ''fwrite'' tp # dtrc s\<rparr>)"
  by (simp add: fwrite_tmp_def wp_simps wp_fwrite)

lemma kept_Cons:
  "kept uid (l # ls) = (case ParsingLine (cstr l) of IUFBS_DB_SUCCESS p \<Rightarrow> if uId p \<noteq> uid then l # kept uid ls else kept uid ls
     | _ \<Rightarrow> l # kept uid ls)"
  by (simp add: kept_def split: parse_result.split)

definition kept_ends :: "bool \<Rightarrow> string list \<Rightarrow> bool" where
  "kept_ends nl ls = (if ls = [] then nl else last (last ls) = NL)"

lemma kept_ends_Cons: "kept_ends nl (l # ls) = kept_ends (last l = NL) ls"
  by (simp add: kept_ends_def)

lemma wp_copy_lines:
  assumes "calls_ok w" "takes_all w tp" "m_pTmpFile s = Some (tp, length t)" "fs s tp = Some t"
    "\<forall>l \<in> set ls. short_line l" "parse_lines ls = Some es"
    "\<forall>tr. Q (kept_ends nl (kept uid ls),
        if found \<or> uid \<in> uId ` set es then DB_SUCCESS_FOUND else DB_SUCCESS_NOTFOUND)
      ((set_file tp (Some (t @ concat (kept uid ls))) s)
        \<lparr>m_pTmpFile := Some (tp, length t + length (concat (kept uid ls))), dtrc := tr\<rparr>)"
  shows "wp (copy_lines w uid nl found ls) Q E s"
  using assms
proof (induction ls arbitrary: s t nl found es)
  case Nil
  then have "set_file tp (Some t) s = s" by (simp add: set_file_same)
  with Nil have "Q (nl, if found then DB_SUCCESS_FOUND else DB_SUCCESS_NOTFOUND) (s\<lparr>m_pTmpFile := Some (tp, length t), dtrc := tr\<rparr>)" for tr
    by (simp add: kept_def kept_ends_def)
  from this [of "dtrc s"] show ?case using Nil by (simp add: wp_simps tmp_same split: if_splits)
next
  case (Cons l ls)
  have l: "cstr l = l" "l \<noteq> []" using Cons.prems(5) by (auto simp: short_line_def cstr_NUL_free)
  note step = wp_simps wp_sys [OF Cons.prems(1)] Let_def l
  have keep: "wp (bind (fwrite_tmp w l) (\<lambda>n. if n \<noteq> length l then ret (last l = NL, DB_ERROR)
      else copy_lines w uid (last l = NL) found ls)) Q E (s\<lparr>dtrc := tr\<rparr>)"
    if "kept uid (l # ls) = l # kept uid ls" "parse_lines ls = Some es'" "uid \<in> uId ` set es' \<longleftrightarrow> uid \<in> uId ` set es" for es' tr
    using Cons.prems that
    by (simp add: wp_simps wp_fwrite_tmp)
      (rule Cons.IH [where es = es' and t = "t @ l"], auto simp: kept_ends_Cons add.assoc)
  show ?case
  proof (cases "ParsingLine l")
    case IUFBS_DB_ERROR
    then show ?thesis using Cons.prems l by simp
  next
    case IUFBS_DB_EMPTY
    then show ?thesis
      using Cons.prems(6) keep [of es] by (simp add: step kept_Cons)
  next
    case (IUFBS_DB_SUCCESS p)
    then obtain es' where es': "parse_lines ls = Some es'" "es = p # es'"
      using Cons.prems(6) l by auto
    show ?thesis
    proof (cases "uid = uId p")
      case True
      then have "wp (copy_lines w uid nl True ls) Q E (s\<lparr>dtrc := tr\<rparr>)" for tr
        using Cons.prems es' IUFBS_DB_SUCCESS
        by (intro Cons.IH [where es = es' and t = t]) (auto simp: kept_Cons l)
      then show ?thesis using True IUFBS_DB_SUCCESS by (simp add: step)
    next
      case False
      then show ?thesis
        using es' IUFBS_DB_SUCCESS keep [of es'] by (simp add: step kept_Cons)
    qed
  qed
qed

lemma db_open_calls [simp]: "db_open w db content t files (s\<lparr>dtrc := tr\<rparr>) = db_open w db content t files s"
  "db_open w db content t files (s\<lparr>m_enmRetCode := e\<rparr>) = db_open w db content t files s"
  by (simp_all add: db_open_def conf_read_def)

definition found_flag :: "32 word \<Rightarrow> TsPassword list \<Rightarrow> remove_result" where
  "found_flag uid es = (if uid \<in> uId ` set es then DB_SUCCESS_FOUND else DB_SUCCESS_NOTFOUND)"

lemma wp_RemoveLinesInDb:
  assumes "calls_ok w" "takes_all w (temp_path (dw_pid w) db)" "db_open w db content [] files s"
    "short_lines content" "entries content = Some es"
  shows "wp (RemoveLinesInDb w uid) (\<lambda>r s'. r = (kept_ends True (kept uid (fgets_all MAX_UFDB_FILEBUFFER content)), found_flag uid es) \<and>
     db_open w db content (remove_text uid content) files s') (\<lambda>_ _. False) s"
  using assms
  apply (simp add: RemoveLinesInDb_def wp_simps wp_sys db_open_def tmp_same)
  apply (rule wp_copy_lines [where t = "[]" and es = es])
  apply (auto simp: short_lines_def entries_def found_flag_def remove_text_def conf_read_def)
  done

lemma wp_FlushTmpFile:
  assumes "calls_ok w" "takes_all w (work_path db)" "db_open w db content t files s"
  shows "wp (FlushTmpFile w) (\<lambda>ok s'. ok \<and> db_open w db t [] files s') (\<lambda>_ _. False) s"
  using assms
  apply (simp add: FlushTmpFile_def wp_simps wp_sys db_open_def)
  apply (rule wp_Truncate, simp, simp add: wp_simps)
  apply (rule wp_FileTransfer, simp, simp, simp, simp, simp add: wp_simps)
  apply (rule wp_Truncate, simp)
  apply (simp add: conf_read_def fun_upd_twist)
  done

text \<open>The insertion up to the flush: the temporary file holds the new text.\<close>

lemma wp_insert_until_flush:
  assumes "calls_ok w" "takes_all w (temp_path (dw_pid w) db)" "db_open w db content [] files s"
    "short_lines content" "entries content = Some es"
    "\<And>s'. db_open w db content (insert_text p content) files s' \<Longrightarrow> wp (FlushTmpFile w) Q E s'"
  shows "wp (InsertItemInDb w p) Q E s"
proof -
  let ?K = "kept (uId p) (fgets_all MAX_UFDB_FILEBUFFER content)"
  let ?t = "(if kept_ends True ?K then [] else [NL]) @ tuple p"
  have tail: "remove_text (uId p) content @ ?t = insert_text p content"
    by (simp add: remove_text_def insert_text_def kept_ends_def Let_def)
  have after: "wp (bind (fwrite_tmp w ?t) (\<lambda>n. seq (SetInternalError (if n = length ?t then errDbOk else errDbWrite)) (FlushTmpFile w))) Q E s'"
    if s': "db_open w db content (remove_text (uId p) content) files s'" for s'
  proof -
    have tmp: "m_pTmpFile s' = Some (temp_path (dw_pid w) db, length (remove_text (uId p) content))"
      "fs s' (temp_path (dw_pid w) db) = Some (remove_text (uId p) content)"
      using s' by (auto simp: db_open_def)
    have "db_open w db content (insert_text p content) files
       ((set_file (temp_path (dw_pid w) db) (Some (insert_text p content)) s')
         \<lparr>m_pTmpFile := Some (temp_path (dw_pid w) db, length (insert_text p content))\<rparr>)"
      using s' by (simp add: db_open_def conf_read_def)
    then show ?thesis
      unfolding wp_bind wp_fwrite_tmp [OF assms(2) tmp refl] length_append [symmetric] tail wp_seq SetInternalError_def wp_modify
      by (intro assms(6)) (simp only: db_open_calls calls_outside)
  qed
  have "wp (RemoveLinesInDb w (uId p)) (\<lambda>r s'. r = (kept_ends True ?K, found_flag (uId p) es) \<and>
     db_open w db content (remove_text (uId p) content) files s') E (s\<lparr>m_enmRetCode := errDbUnknow\<rparr>)"
    using assms by (intro wp_mono [OF wp_RemoveLinesInDb [where db = db and content = content and es = es and files = files]]) auto
  moreover have "m_pWorkFile s \<noteq> None" using assms(3) by (simp add: db_open_def)
  ultimately show ?thesis
    using after
    by (auto simp: InsertItemInDb_def wp_simps wp_prod SetInternalError_def found_flag_def Let_def elim!: wp_mono split: if_splits)
qed

lemma wp_InsertItemInDb:
  assumes "sunny w" "db_open w db content [] files s" "short_lines content" "entries content = Some es"
  shows "wp (InsertItemInDb w p) (\<lambda>ok s'. ok \<and> db_open w db (insert_text p content) [] files s') (\<lambda>_ _. False) s"
  using assms by (intro wp_insert_until_flush [OF sunnyD [OF assms(1)]] wp_FlushTmpFile sunnyD [OF assms(1)]) auto

lemma wp_RemoveItemInDb:
  assumes "sunny w" "db_open w db content [] files s" "short_lines content" "entries content = Some es"
  shows "wp (RemoveItemInDb w uid) (\<lambda>ok s'. ok = (uid \<in> uId ` set es) \<and> (\<not> ok \<longrightarrow> m_enmRetCode s' = errDbUidNotFound) \<and>
     (\<exists>t. db_open w db (if ok then remove_text uid content else content) t files s')) (\<lambda>_ _. False) s"
proof -
  have "wp (RemoveLinesInDb w uid) (\<lambda>r s'. r = (kept_ends True (kept uid (fgets_all MAX_UFDB_FILEBUFFER content)), found_flag uid es) \<and>
     db_open w db content (remove_text uid content) files s') (\<lambda>_ _. False) (s\<lparr>m_enmRetCode := errDbUnknow\<rparr>)"
    using assms by (intro wp_RemoveLinesInDb) (auto simp: sunny_def)
  moreover have "m_pWorkFile s \<noteq> None" using assms(2) by (simp add: db_open_def)
  ultimately show ?thesis
    by (auto simp: RemoveItemInDb_def wp_simps SetInternalError_def found_flag_def wp_file_error
        elim!: wp_mono intro!: exI wp_mono [OF wp_FlushTmpFile [OF sunnyD [OF assms(1)]]])
qed

lemma wp_ClearDatabase:
  assumes "calls_ok w" "db_open w db content t files s"
  shows "wp (ClearDatabase w) (\<lambda>ok s'. ok \<and> db_open w db [] t files s') (\<lambda>_ _. False) s"
  using assms
  apply (simp add: ClearDatabase_def wp_simps SetInternalError_def db_open_def)
  apply (rule wp_Truncate)
  apply (auto simp: wp_simps conf_read_def)
  done

lemma wp_close_any:
  assumes "calls_ok w" "conf_read db s" "m_pWorkFile s = Some (work_path db)" "m_pTmpFile s = Some (temp_path (dw_pid w) db, pos)"
    "fs s = files(work_path db \<mapsto> content, temp_path (dw_pid w) db \<mapsto> t)"
  shows "wp (CloseDbInstance w) (\<lambda>ok s'. ok \<and>
     fs s' = files(db \<mapsto> content, work_path db := None, temp_path (dw_pid w) db := None)) (\<lambda>_ _. False) s"
  using assms
  by (simp add: CloseDbInstance_def close_work_def rename_database_def CloseTmpFile_def GetTempFilePath_def GetDatapaseWorkPath_def
      UnLockDatabase_def SetInternalError_def wp_simps wp_sys wp_config_again conf_read_def)
    (auto simp: fun_upd_def)

lemma wp_CloseDbInstance:
  assumes "calls_ok w" "db_open w db content t files s"
  shows "wp (CloseDbInstance w) (\<lambda>ok s'. ok \<and>
     fs s' = files(db \<mapsto> content, work_path db := None, temp_path (dw_pid w) db := None)) (\<lambda>_ _. False) s"
  using assms by (intro wp_close_any) (auto simp: db_open_def)

section \<open>Before it is closed, an instance changes its own two files only\<close>

definition scratch_only :: "dworld \<Rightarrow> string \<Rightarrow> (string \<Rightarrow> string option) \<Rightarrow> dbstate \<Rightarrow> bool" where
  "scratch_only w db files s \<longleftrightarrow> configured db s \<and> (m_nStatus s = errConfOk \<longrightarrow> m_strWritePath s = db) \<and>
     m_pWorkFile s \<in> {None, Some (work_path db)} \<and>
     (case m_pTmpFile s of None \<Rightarrow> True | Some (path, pos) \<Rightarrow> path = temp_path (dw_pid w) db) \<and>
     (\<forall>p. p \<notin> {work_path db, temp_path (dw_pid w) db} \<longrightarrow> fs s p = files p)"

abbreviation own_file :: "dworld \<Rightarrow> string \<Rightarrow> string \<Rightarrow> bool" where
  "own_file w db path \<equiv> path \<in> {work_path db, temp_path (dw_pid w) db}"

lemma scratch_only_simps [simp]:
  "scratch_only w db files (s\<lparr>dtrc := tr\<rparr>) = scratch_only w db files s"
  "scratch_only w db files (s\<lparr>m_enmRetCode := e\<rparr>) = scratch_only w db files s"
  "scratch_only w db files (s\<lparr>m_iLckFile := l\<rparr>) = scratch_only w db files s"
  "scratch_only w db files (s\<lparr>m_handleNss := h\<rparr>) = scratch_only w db files s"
  "scratch_only w db files (s\<lparr>m_enmUfbsCode := u\<rparr>) = scratch_only w db files s"
  by (simp_all add: scratch_only_def configured_def)

lemma scratch_only_set_file:
  "scratch_only w db files s \<Longrightarrow> own_file w db path \<Longrightarrow> scratch_only w db files (set_file path c s)"
  by (auto simp: scratch_only_def configured_def)

lemma maintains_sys [maintains_intros]: "V True \<Longrightarrow> V False \<Longrightarrow> maintains (scratch_only w db files) (sys w' name arg) V"
  unfolding maintains_def sys_def outcome_def
  by (auto, case_tac "dw_ok w' (dtrc s) (DCall name arg)") auto

lemma maintains_error [maintains_intros]: "V () \<Longrightarrow> maintains (scratch_only w db files) (SetInternalError e) V"
  unfolding SetInternalError_def by (rule maintains_modify) auto

lemma maintains_file_error [maintains_intros]: "V False \<Longrightarrow> maintains (scratch_only w db files) (file_error e) V"
  unfolding file_error_def by (rule maintains_any maintains_intros TrueI | assumption)+

lemma maintains_fopen_read [maintains_intros]: "maintains (scratch_only w db files) (fopen_read w' path) (\<lambda>_. True)"
  unfolding fopen_read_def by (rule maintains_any maintains_intros maintains_gets TrueI)+

lemma maintains_fopen_write [maintains_intros]:
  "own_file w db path \<Longrightarrow> maintains (scratch_only w db files) (fopen_write w' path) (\<lambda>_. True)"
  unfolding fopen_write_def
  by (rule maintains_any maintains_intros maintains_modify scratch_only_set_file TrueI | assumption)+

lemma maintains_fwrite [maintains_intros]:
  "own_file w db path \<Longrightarrow> maintains (scratch_only w db files) (fwrite w' path pos bytes) (\<lambda>_. True)"
  unfolding fwrite_def
  by (rule maintains_any maintains_intros maintains_gets maintains_modify scratch_only_set_file TrueI | assumption | simp)+

lemma maintains_Truncate [maintains_intros]:
  "own_file w db path \<Longrightarrow> maintains (scratch_only w db files) (Truncate w' path) (\<lambda>_. True)"
  unfolding Truncate_def
  by (rule maintains_any maintains_intros maintains_modify scratch_only_set_file TrueI | assumption)+

lemma maintains_transfer_blocks [maintains_intros]:
  "own_file w db path \<Longrightarrow> maintains (scratch_only w db files) (transfer_blocks w' src path pos bs) (\<lambda>_. True)"
proof (induction bs arbitrary: pos)
  case (Cons b bs)
  show ?case
    unfolding transfer_blocks.simps
    by (rule maintains_any maintains_intros Cons TrueI | assumption)+
qed (simp, (rule maintains_any maintains_intros TrueI | assumption)+)

lemma maintains_FileTransfer [maintains_intros]:
  "own_file w db path \<Longrightarrow> maintains (scratch_only w db files) (FileTransfer w' src path) (\<lambda>_. True)"
  unfolding FileTransfer_def by (rule maintains_any maintains_intros maintains_gets TrueI | assumption)+

lemma maintains_CopyFile [maintains_intros]:
  "own_file w db path \<Longrightarrow> maintains (scratch_only w db files) (CopyFile w' src path) (\<lambda>_. True)"
  unfolding CopyFile_def by (rule maintains_any maintains_intros TrueI | assumption)+

lemma configured_simps [simp]:
  "configured db (s\<lparr>m_strReadPath := r\<rparr>) = configured db s" "configured db (s\<lparr>m_strWritePath := r\<rparr>) = configured db s"
  "configured db (s\<lparr>m_nStatus := e\<rparr>) = configured db s" "configured db (s\<lparr>m_pWorkFile := f\<rparr>) = configured db s"
  "configured db (s\<lparr>m_pTmpFile := t\<rparr>) = configured db s"
  by (simp_all add: configured_def)

lemma scratch_only_config:
  "scratch_only w db files s \<Longrightarrow>
   scratch_only w db files (s\<lparr>m_strReadPath := r, m_strWritePath := db, m_nStatus := errConfOk\<rparr>)"
  by (simp add: scratch_only_def)

lemma maintains_config [maintains_intros]:
  "maintains (scratch_only w db files) (GetConfigValue w' NSS_CONFIG_WFILE) (\<lambda>(ok, path). ok \<longrightarrow> path = db)"
  unfolding maintains_def
proof (intro allI impI)
  fix s assume s: "scratch_only w db files s"
  then obtain c r where c: "fs s STR_CONFIG_FILEPATH = Some c" "ParsingConfigFile c = Some (r, db)"
    by (auto simp: scratch_only_def configured_def split: option.splits)
  then show "outcome (GetConfigValue w' NSS_CONFIG_WFILE) (\<lambda>r s'. scratch_only w db files s' \<and>
      (case r of Ok x \<Rightarrow> (case x of (ok, path) \<Rightarrow> ok \<longrightarrow> path = db) | Exit _ \<Rightarrow> False | Crash \<Rightarrow> True)) s"
    using s scratch_only_config [OF s, of r]
    by (cases "m_nStatus s"; cases "dw_ok w' (dtrc s) (DCall ''fopen r'' STR_CONFIG_FILEPATH)")
      (auto simp: GetConfigValue_def fopen_read_def sys_def outcome_def run_simps NSS_CONFIG_WFILE_def NSS_CONFIG_RFILE_def,
       auto simp: scratch_only_def)
qed

lemma maintains_work_path [maintains_intros]:
  "maintains (scratch_only w db files) (GetDatapaseWorkPath w') (\<lambda>(ok, path). ok \<longrightarrow> path = work_path db)"
  unfolding GetDatapaseWorkPath_def
  by (rule maintains_bind [OF maintains_config] maintains_any maintains_intros TrueI | simp)+

lemma maintains_temp_path [maintains_intros]:
  "maintains (scratch_only w db files) (GetTempFilePath w) (\<lambda>(ok, path). ok \<longrightarrow> path = temp_path (dw_pid w) db)"
  unfolding GetTempFilePath_def
  by (rule maintains_bind [OF maintains_config] maintains_any maintains_intros TrueI | simp)+

lemma scratch_only_streams:
  "scratch_only w db files s \<Longrightarrow> scratch_only w db files (s\<lparr>m_pWorkFile := None\<rparr>)"
  "scratch_only w db files s \<Longrightarrow> scratch_only w db files (s\<lparr>m_pWorkFile := Some (work_path db)\<rparr>)"
  "scratch_only w db files s \<Longrightarrow> scratch_only w db files (s\<lparr>m_pTmpFile := None\<rparr>)"
  "scratch_only w db files s \<Longrightarrow> scratch_only w db files (s\<lparr>m_pTmpFile := Some (temp_path (dw_pid w) db, pos)\<rparr>)"
  by (simp_all add: scratch_only_def)

definition own_tmp :: "dworld \<Rightarrow> string \<Rightarrow> (string \<times> nat) option \<Rightarrow> bool" where
  "own_tmp w db tmp \<longleftrightarrow> (case tmp of None \<Rightarrow> True | Some (path, pos) \<Rightarrow> path = temp_path (dw_pid w) db)"

lemma maintains_get_work [maintains_intros]:
  "maintains (scratch_only w db files) (gets m_pWorkFile) (\<lambda>f. f \<in> {None, Some (work_path db)})"
  by (rule maintains_gets) (simp add: scratch_only_def)

lemma maintains_get_tmp [maintains_intros]:
  "maintains (scratch_only w db files) (gets m_pTmpFile) (own_tmp w db)"
  by (rule maintains_gets) (simp add: scratch_only_def own_tmp_def)

lemmas maintains_reads = maintains_bind [OF maintains_config] maintains_bind [OF maintains_work_path]
  maintains_bind [OF maintains_temp_path] maintains_bind [OF maintains_get_work] maintains_bind [OF maintains_get_tmp]

lemmas maintains_steps = maintains_reads maintains_any maintains_intros TrueI maintains_modify scratch_only_streams

lemma maintains_LockDatabase [maintains_intros]: "maintains (scratch_only w db files) (LockDatabase w') (\<lambda>_. True)"
  unfolding LockDatabase_def by (rule maintains_any maintains_intros maintains_gets maintains_modify TrueI | simp)+

lemma maintains_UnLockDatabase [maintains_intros]: "maintains (scratch_only w db files) (UnLockDatabase w') (\<lambda>_. True)"
  unfolding UnLockDatabase_def by (rule maintains_any maintains_intros maintains_gets maintains_modify TrueI | simp)+

lemma maintains_CreateTmpFile [maintains_intros]: "maintains (scratch_only w db files) (CreateTmpFile w) (\<lambda>_. True)"
  unfolding CreateTmpFile_def by (rule maintains_steps maintains_intros | simp add: scratch_only_streams)+

lemma maintains_open_work [maintains_intros]: "maintains (scratch_only w db files) (open_work w' db' (work_path db)) (\<lambda>_. True)"
  unfolding open_work_def by (rule maintains_steps maintains_intros maintains_gets | simp add: scratch_only_streams)+

lemma maintains_OpenDbInstance [maintains_intros]: "maintains (scratch_only w db files) (OpenDbInstance w) (\<lambda>_. True)"
  unfolding OpenDbInstance_def by (rule maintains_steps maintains_intros | simp add: maintains_open_work scratch_only_streams)+

lemma maintains_fwrite_tmp [maintains_intros]: "maintains (scratch_only w db files) (fwrite_tmp w' bytes) (\<lambda>_. True)"
  unfolding fwrite_tmp_def
  by (rule maintains_steps maintains_intros | (simp add: own_tmp_def maintains_crash scratch_only_streams split: option.split; intro allI impI)+)+

lemma maintains_parse_result [maintains_intros]:
  "maintains I a V \<Longrightarrow> (\<And>p. maintains I (b p) V) \<Longrightarrow> maintains I c V \<Longrightarrow>
   maintains I (case r of IUFBS_DB_ERROR \<Rightarrow> a | IUFBS_DB_SUCCESS p \<Rightarrow> b p | IUFBS_DB_EMPTY \<Rightarrow> c) V"
  by (cases r) auto

lemma maintains_remove_result [maintains_intros]:
  "maintains I a V \<Longrightarrow> maintains I b V \<Longrightarrow> maintains I c V \<Longrightarrow>
   maintains I (case r of DB_ERROR \<Rightarrow> a | DB_SUCCESS_FOUND \<Rightarrow> b | DB_SUCCESS_NOTFOUND \<Rightarrow> c) V"
  by (cases r) auto

lemma maintains_copy_lines [maintains_intros]:
  "maintains (scratch_only w db files) (copy_lines w' uid nl found ls) (\<lambda>_. True)"
proof (induction ls arbitrary: nl found)
  case (Cons l ls)
  show ?case
    unfolding copy_lines.simps Let_def
    by (rule maintains_steps maintains_intros Cons)+
qed (simp add: maintains_ret)

lemma maintains_RemoveLinesInDb [maintains_intros]:
  "maintains (scratch_only w db files) (RemoveLinesInDb w' uid) (\<lambda>_. True)"
  unfolding RemoveLinesInDb_def
  by (rule maintains_steps maintains_intros maintains_gets | force simp: own_tmp_def scratch_only_streams)+

lemma maintains_FlushTmpFile [maintains_intros]:
  "maintains (scratch_only w db files) (FlushTmpFile w') (\<lambda>_. True)"
  unfolding FlushTmpFile_def
  by (rule maintains_steps maintains_intros maintains_gets | force simp: own_tmp_def scratch_only_streams)+

lemma maintains_RemoveItemInDb [maintains_intros]:
  "maintains (scratch_only w db files) (RemoveItemInDb w' uid) (\<lambda>_. True)"
  unfolding RemoveItemInDb_def
  by (rule maintains_steps maintains_intros)+

lemma maintains_InsertItemInDb [maintains_intros]:
  "maintains (scratch_only w db files) (InsertItemInDb w' p) (\<lambda>_. True)"
  unfolding InsertItemInDb_def Let_def by (rule maintains_steps maintains_intros)+

lemma maintains_ClearDatabase [maintains_intros]:
  "maintains (scratch_only w db files) (ClearDatabase w') (\<lambda>_. True)"
  unfolding ClearDatabase_def by (rule maintains_steps maintains_intros | simp)+

lemma maintains_CloseTmpFile [maintains_intros]: "maintains (scratch_only w db files) (CloseTmpFile w) (\<lambda>_. True)"
  unfolding CloseTmpFile_def
  by (rule maintains_steps maintains_intros scratch_only_set_file | simp add: scratch_only_streams)+

text \<open>The database itself changes only by the rename at the end.\<close>

definition renamed_only :: "dworld \<Rightarrow> string \<Rightarrow> (string \<Rightarrow> string option) \<Rightarrow> dbstate \<Rightarrow> bool" where
  "renamed_only w db files s \<longleftrightarrow>
     (\<forall>p. p \<notin> {db, work_path db, temp_path (dw_pid w) db} \<longrightarrow> fs s p = files p) \<and>
     (fs s db = files db \<or> DCall ''rename'' (work_path db) \<in> set (dtrc s))"

lemma scratch_renamed: "scratch_only w db files s \<Longrightarrow> renamed_only w db files s \<and> fs s db = files db"
  by (auto simp: scratch_only_def renamed_only_def)

definition db_outcome :: "dworld \<Rightarrow> string \<Rightarrow> (string \<Rightarrow> string option) \<Rightarrow> 'a res \<Rightarrow> dbstate \<Rightarrow> bool" where
  "db_outcome w db files r s' \<longleftrightarrow> renamed_only w db files s' \<and> (\<forall>c. r \<noteq> Exit c) \<and> (r = Crash \<longrightarrow> fs s' db = files db)"

lemma db_outcome_early: "scratch_only w db files s \<Longrightarrow> \<forall>c. r \<noteq> Exit c \<Longrightarrow> db_outcome w db files r s"
  using scratch_renamed [of w db files s] by (auto simp: db_outcome_def)

definition commits :: "dworld \<Rightarrow> string \<Rightarrow> (string \<Rightarrow> string option) \<Rightarrow> (dbstate, 'a) prog \<Rightarrow> bool" where
  "commits w db files m \<longleftrightarrow> (\<forall>s. scratch_only w db files s \<longrightarrow> outcome m (db_outcome w db files) s)"

lemma commits_maintains: "maintains (scratch_only w db files) m V \<Longrightarrow> commits w db files m"
  unfolding commits_def maintains_def
  by (auto elim!: outcome_mono intro!: db_outcome_early split: res.splits)

lemma commits_bind:
  assumes "maintains (scratch_only w db files) m V" "\<And>x. V x \<Longrightarrow> commits w db files (k x)"
  shows "commits w db files (bind m k)"
  using assms unfolding commits_def maintains_def outcome_bind
  by (fastforce elim!: outcome_mono intro: db_outcome_early split: res.splits)

lemma commits_seq:
  "maintains (scratch_only w db files) m V \<Longrightarrow> (\<And>x. V x \<Longrightarrow> commits w db files n) \<Longrightarrow> commits w db files (seq m n)"
  unfolding seq_def by (rule commits_bind)

lemma commits_if: "(b \<Longrightarrow> commits w db files m) \<Longrightarrow> (\<not> b \<Longrightarrow> commits w db files n) \<Longrightarrow> commits w db files (if b then m else n)"
  by simp

lemma commits_prod: "(\<And>x y. p = (x, y) \<Longrightarrow> commits w db files (k x y)) \<Longrightarrow> commits w db files (case p of (x, y) \<Rightarrow> k x y)"
  by (cases p) simp

text \<open>After a commit nothing that touches a file may follow.\<close>

definition fileless :: "(dbstate, 'a) prog \<Rightarrow> bool" where
  "fileless m \<longleftrightarrow> (\<forall>s. outcome m (\<lambda>r s'. (\<exists>x. r = Ok x) \<and> fs s' = fs s \<and> set (dtrc s) \<subseteq> set (dtrc s')) s)"

lemma commits_then:
  assumes "commits w db files m" "\<And>x. fileless (k x)"
  shows "commits w db files (bind m k)"
  unfolding commits_def
proof (intro allI impI)
  fix s assume s: "scratch_only w db files s"
  have "outcome (k x) (db_outcome w db files) s'" if "db_outcome w db files (Ok x) s'" for x s'
    using assms(2) [of x, unfolded fileless_def, rule_format, of s']
    by (rule outcome_mono) (use that in \<open>auto simp: db_outcome_def renamed_only_def\<close>)
  moreover have "outcome m (db_outcome w db files) s" using assms(1) s by (simp add: commits_def)
  ultimately show "outcome (bind m k) (db_outcome w db files) s"
    unfolding outcome_bind by (auto elim!: outcome_mono simp: db_outcome_def split: res.splits)
qed

lemma commits_rename: "commits w db files (rename_database w' (work_path db) db)"
  using scratch_renamed
  by (fastforce simp: commits_def rename_database_def outcome_def sys_def run_simps file_error_def SetInternalError_def
      db_outcome_def renamed_only_def)

lemma commits_ret: "commits w db files (ret x)"
  by (rule commits_maintains [OF maintains_ret [where V = "\<lambda>_. True", OF TrueI]])

lemma commits_file_error: "commits w db files (file_error e)"
  by (rule commits_maintains [OF maintains_file_error [where V = "\<lambda>_. True", OF TrueI]])

lemma commits_close_work: "file \<in> {None, Some (work_path db)} \<Longrightarrow> commits w db files (close_work w file)"
  unfolding close_work_def
  apply (rule commits_if, rule commits_ret)
  apply (rule commits_bind [OF maintains_sys [where V = "\<lambda>_. True", OF TrueI TrueI]])
  apply (rule commits_if, rule commits_file_error)
  apply (rule commits_seq, rule maintains_modify [where V = "\<lambda>_. True", OF TrueI], erule scratch_only_streams)
  apply (rule commits_bind [OF maintains_work_path], rule commits_prod)
  apply (rule commits_if, rule commits_ret)
  apply (rule commits_bind [OF maintains_config], rule commits_prod)
  apply (rule commits_if, rule commits_file_error)
  apply (simp add: commits_rename)
  done

lemma fileless_UnLock: "fileless (bind (UnLockDatabase w) (\<lambda>_. ret x))"
  by (auto simp: fileless_def UnLockDatabase_def outcome_def sys_def run_simps)

lemma commits_CloseDbInstance: "commits w db files (CloseDbInstance w)"
  unfolding CloseDbInstance_def
  by (intro commits_seq [OF maintains_CloseTmpFile] commits_bind [OF maintains_get_work] commits_then
      commits_close_work fileless_UnLock) auto

section \<open>Writes that fail\<close>

definition takes_none :: "dworld \<Rightarrow> string \<Rightarrow> bool" where
  "takes_none w path \<longleftrightarrow> (\<forall>h n. dw_count w h (DCall ''fwrite'' path) n = 0)"

lemma wp_fwrite_none:
  "takes_none w path \<Longrightarrow> fs s path = Some [] \<Longrightarrow>
   wp (fwrite w path 0 bytes) Q E s = Q 0 (s\<lparr>dtrc := DCall ''fwrite'' path # dtrc s\<rparr>)"
  by (simp add: fwrite_def wp_simps write_at_def takes_none_def set_file_same)

lemma blocks_nonempty: "0 < n \<Longrightarrow> str \<noteq> [] \<Longrightarrow> \<exists>b bs. blocks n str = b # bs \<and> b \<noteq> []"
  by (subst blocks.simps) auto

lemma wp_FlushTmpFile_none:
  assumes "calls_ok w" "takes_none w (work_path db)" "db_open w db content t files s" "t \<noteq> []"
  shows "wp (FlushTmpFile w) (\<lambda>ok s'. \<not> ok \<and> conf_read db s' \<and> m_pWorkFile s' = Some (work_path db) \<and>
     m_pTmpFile s' = Some (temp_path (dw_pid w) db, 0) \<and>
     fs s' = files(work_path db \<mapsto> [], temp_path (dw_pid w) db \<mapsto> t)) (\<lambda>_ _. False) s"
proof -
  obtain b bs where b: "blocks MAX_UFDB_CPYBUFFER t = b # bs" "b \<noteq> []"
    using blocks_nonempty [of MAX_UFDB_CPYBUFFER t] assms(4) by (auto simp: MAX_UFDB_CPYBUFFER_def)
  show ?thesis
    using assms b
    by (simp add: FlushTmpFile_def wp_simps wp_sys db_open_def)
      (rule wp_Truncate, simp, simp add: wp_simps FileTransfer_def wp_sys wp_fwrite_none wp_file_error conf_read_def fun_upd_twist)
qed

lemma tuple_nonempty: "tuple p \<noteq> []"
  by (simp add: tuple_def)

lemma insert_close_none:
  assumes "calls_ok w" "takes_all w (temp_path (dw_pid w) db)" "takes_none w (work_path db)" "db_open w db content [] files s"
    "short_lines content" "entries content = Some es"
  shows "wp (bind (InsertItemInDb w p) (\<lambda>inserted. bind (CloseDbInstance w) (\<lambda>closed. ret (inserted, closed))))
    (\<lambda>r s'. r = (False, True) \<and> fs s' db = Some []) (\<lambda>_ _. False) s"
proof -
  have flush: "wp (FlushTmpFile w) (\<lambda>ok s'. \<not> ok \<and> conf_read db s' \<and> m_pWorkFile s' = Some (work_path db) \<and>
      m_pTmpFile s' = Some (temp_path (dw_pid w) db, 0) \<and>
      fs s' = files(work_path db \<mapsto> [], temp_path (dw_pid w) db \<mapsto> insert_text p content)) (\<lambda>_ _. False) s'"
    if "db_open w db content (insert_text p content) files s'" for s'
    by (rule wp_FlushTmpFile_none [OF assms(1,3) that]) (simp add: insert_text_def Let_def tuple_nonempty)
  show ?thesis
    unfolding wp_bind
    by (rule wp_mono [OF wp_insert_until_flush [OF assms(1,2,4-6) flush]])
      (auto simp: wp_simps intro!: wp_mono [OF wp_close_any [OF assms(1), of db _ 0 files "[]"]])
qed

definition takes_some :: "nat \<Rightarrow> dworld \<Rightarrow> string \<Rightarrow> bool" where
  "takes_some k w path \<longleftrightarrow> (\<forall>h n. dw_count w h (DCall ''fwrite'' path) n = k)"

lemma take_min_length: "take (min (length xs) k) xs = take k xs"
  by (simp add: min_def)

lemma wp_fwrite_tmp_some:
  "takes_some k w tp \<Longrightarrow> m_pTmpFile s = Some (tp, 0) \<Longrightarrow> fs s tp = Some [] \<Longrightarrow>
   wp (fwrite_tmp w bytes) Q E s = Q (min (length bytes) k)
     ((set_file tp (Some (take k bytes)) s)\<lparr>m_pTmpFile := Some (tp, min (length bytes) k), dtrc := DCall ''fwrite'' tp # dtrc s\<rparr>)"
  by (simp add: fwrite_tmp_def fwrite_def wp_simps write_at_def takes_some_def take_min_length)

lemma insert_close_some:
  assumes "calls_ok w" "takes_all w (work_path db)" "takes_some k w (temp_path (dw_pid w) db)" "db_open w db [] [] files s"
    "k < length (tuple p)"
  shows "wp (bind (InsertItemInDb w p) (\<lambda>inserted. bind (CloseDbInstance w) (\<lambda>closed. ret (inserted, closed))))
    (\<lambda>r s'. r = (True, True) \<and> fs s' db = Some (take k (tuple p))) (\<lambda>_ _. False) s"
proof -
  have flush: "wp (FlushTmpFile w) (\<lambda>ok s'. ok \<and> db_open w db (take k (tuple p)) [] files s') (\<lambda>_ _. False) s'"
    if "db_open w db [] (take k (tuple p)) files s'" for s'
    using assms(1,2) that by (rule wp_FlushTmpFile)
  have "wp (InsertItemInDb w p) (\<lambda>ok s'. ok \<and> db_open w db (take k (tuple p)) [] files s') (\<lambda>_ _. False) s"
    using assms
    by (simp add: InsertItemInDb_def RemoveLinesInDb_def db_open_def wp_simps wp_sys SetInternalError_def fgets_all_Nil tmp_same
        wp_fwrite_tmp_some Let_def del: db_open_calls)
      (rule wp_mono [OF flush], auto simp: conf_read_def db_open_def min_absorb2)
  then show ?thesis
    unfolding wp_bind
    by (rule wp_mono) (auto simp: wp_simps intro!: wp_mono [OF wp_CloseDbInstance [OF assms(1)]])
qed

section \<open>A line that is no entry\<close>

text \<open>The loop stops at it; only the temporary file has changed.\<close>

definition same_but_tmp :: "string \<Rightarrow> dbstate \<Rightarrow> dbstate \<Rightarrow> bool" where
  "same_but_tmp tp s s' \<longleftrightarrow> (\<exists>pos. m_pTmpFile s' = Some (tp, pos)) \<and> (\<exists>t. fs s' = (fs s)(tp \<mapsto> t)) \<and>
     m_pWorkFile s' = m_pWorkFile s \<and> m_nStatus s' = m_nStatus s \<and> m_strWritePath s' = m_strWritePath s"

lemma same_but_tmp_step:
  "same_but_tmp tp (set_file tp c s) s' = same_but_tmp tp s s'"
  "same_but_tmp tp (s\<lparr>m_pTmpFile := v\<rparr>) s' = same_but_tmp tp s s'"
  "same_but_tmp tp (s\<lparr>dtrc := tr\<rparr>) s' = same_but_tmp tp s s'"
  by (simp_all add: same_but_tmp_def)

lemma wp_copy_lines_bad:
  assumes "calls_ok w" "takes_all w tp" "m_pTmpFile s = Some (tp, length t)" "fs s tp = Some t"
    "\<forall>l \<in> set ls. short_line l" "parse_lines ls = None"
  shows "wp (copy_lines w uid nl found ls) (\<lambda>r s'. snd r = DB_ERROR \<and> same_but_tmp tp s s' \<and> m_enmRetCode s' = errDbFormat) (\<lambda>_ _. False) s"
  using assms
proof (induction ls arbitrary: s t nl found)
  case (Cons l ls)
  have l: "cstr l = l" "l \<noteq> []" using Cons.prems(5) by (auto simp: short_line_def cstr_NUL_free)
  note step = wp_simps wp_sys [OF Cons.prems(1)] Let_def l
  have keep: "wp (bind (fwrite_tmp w l) (\<lambda>n. if n \<noteq> length l then ret (last l = NL, DB_ERROR)
      else copy_lines w uid (last l = NL) found ls))
      (\<lambda>r s'. snd r = DB_ERROR \<and> same_but_tmp tp s s' \<and> m_enmRetCode s' = errDbFormat) (\<lambda>_ _. False) (s\<lparr>dtrc := tr\<rparr>)"
    if "parse_lines ls = None" for tr
    using Cons.prems that
    by (simp add: wp_simps wp_fwrite_tmp)
      (rule wp_mono [OF Cons.IH [where t = "t @ l"]], auto simp: same_but_tmp_step)
  have skip: "wp (copy_lines w uid nl True ls)
      (\<lambda>r s'. snd r = DB_ERROR \<and> same_but_tmp tp s s' \<and> m_enmRetCode s' = errDbFormat) (\<lambda>_ _. False) (s\<lparr>dtrc := tr\<rparr>)"
    if "parse_lines ls = None" for tr
    using Cons.prems that
    by (intro wp_mono [OF Cons.IH [where t = t]]) (auto simp: same_but_tmp_step)
  show ?case
  proof (cases "ParsingLine l")
    case IUFBS_DB_ERROR
    then show ?thesis
      using Cons.prems(3,4) by (simp add: step SetInternalError_def same_but_tmp_def) (metis fun_upd_triv)
  next
    case IUFBS_DB_EMPTY
    then show ?thesis using Cons.prems(6) keep by (simp add: step)
  next
    case (IUFBS_DB_SUCCESS p)
    then have "parse_lines ls = None" using Cons.prems(6) l by simp
    then show ?thesis using keep skip IUFBS_DB_SUCCESS by (cases "uid = uId p") (auto simp: step)
  qed
qed simp

definition closable :: "dworld \<Rightarrow> string \<Rightarrow> string \<Rightarrow> (string \<Rightarrow> string option) \<Rightarrow> dbstate \<Rightarrow> bool" where
  "closable w db content files s \<longleftrightarrow> conf_read db s \<and> m_pWorkFile s = Some (work_path db) \<and>
     (\<exists>pos. m_pTmpFile s = Some (temp_path (dw_pid w) db, pos)) \<and>
     (\<exists>t. fs s = files(work_path db \<mapsto> content, temp_path (dw_pid w) db \<mapsto> t))"

lemma wp_RemoveLines_bad:
  assumes "sunny w" "db_open w db content [] files s" "short_lines content" "entries content = None"
  shows "wp (RemoveLinesInDb w uid) (\<lambda>r s'. snd r = DB_ERROR \<and> closable w db content files s' \<and> m_enmRetCode s' = errDbFormat) (\<lambda>_ _. False) s"
  using assms
  by (simp add: RemoveLinesInDb_def wp_simps wp_sys sunnyD db_open_def tmp_same)
    (rule wp_mono [OF wp_copy_lines_bad [where t = "[]" and tp = "temp_path (dw_pid w) db"]],
     auto simp: short_lines_def entries_def sunnyD same_but_tmp_def closable_def conf_read_def)

lemma wp_change_bad:
  assumes "sunny w" "db_open w db content [] files s" "short_lines content" "entries content = None"
  shows "wp (InsertItemInDb w p) (\<lambda>ok s'. \<not> ok \<and> closable w db content files s') (\<lambda>_ _. False) s"
    and "wp (RemoveItemInDb w uid) (\<lambda>ok s'. \<not> ok \<and> closable w db content files s' \<and> m_enmRetCode s' = errDbFormat) (\<lambda>_ _. False) s"
proof -
  have lines: "wp (RemoveLinesInDb w uid) (\<lambda>r s'. snd r = DB_ERROR \<and> closable w db content files s' \<and> m_enmRetCode s' = errDbFormat)
      (\<lambda>_ _. False) (s\<lparr>m_enmRetCode := errDbUnknow\<rparr>)" for uid
    using assms by (intro wp_RemoveLines_bad) auto
  have work: "m_pWorkFile s \<noteq> None" using assms(2) by (simp add: db_open_def)
  show "wp (InsertItemInDb w p) (\<lambda>ok s'. \<not> ok \<and> closable w db content files s') (\<lambda>_ _. False) s"
    using lines [of "uId p"] work by (auto simp: InsertItemInDb_def SetInternalError_def wp_simps elim!: wp_mono)
  show "wp (RemoveItemInDb w uid) (\<lambda>ok s'. \<not> ok \<and> closable w db content files s' \<and> m_enmRetCode s' = errDbFormat) (\<lambda>_ _. False) s"
    using lines [of uid] work by (auto simp: RemoveItemInDb_def SetInternalError_def wp_simps elim!: wp_mono)
qed

end
