(* ===== verification/Nss_Cmd.thy ===== *)
theory Nss_Cmd
  imports Nss_DbRun
begin

text \<open>
  The command \<^verbatim>\<open>nss_ufbs\<close> (\<^verbatim>\<open>src/cmd_cnz/nss/nsscmd_caa/src\<close>): the query to LDAP (\<^verbatim>\<open>TUfbsHandler.cpp\<close>)
  and the command line with its three operations (\<^verbatim>\<open>main.cpp\<close>).
\<close>

section \<open>The query to LDAP\<close>

definition TUfbsHandler :: "dbstate \<Rightarrow> dbstate" where
  "TUfbsHandler s = s\<lparr>m_handleNss := False, m_enmUfbsCode := errUfbsOk\<rparr>"

definition SetUfbsError :: "errNssUfbs \<Rightarrow> (dbstate, unit) prog" where
  "SetUfbsError e = modify (\<lambda>s. s\<lparr>m_enmUfbsCode := e\<rparr>)"

definition Initialize :: "dworld \<Rightarrow> (dbstate, bool) prog" where
  "Initialize w =
     seq (SetUfbsError errUfbsUnknow) (
     bind (gets m_handleNss) (\<lambda>loaded.
     if loaded then seq (SetUfbsError errUfbsInit) (ret False)
     else
     bind (sys w ''dlopen'' ''libnss_ldap.so.2'') (\<lambda>ok.
     if \<not> ok then seq (SetUfbsError errUfbsUnableLoad) (ret False)
     else
     seq (modify (\<lambda>s. s\<lparr>m_handleNss := True\<rparr>)) (
     bind (sys w ''dlsym'' ''_nss_ldap_getpwuid_r'') (\<lambda>ok.
     if \<not> ok then seq (SetUfbsError errUfbsMethod) (ret False)
     else seq (SetUfbsError errUfbsOk) (ret True))))))"

text \<open>
  The buffer has the size that \<^verbatim>\<open>sysconf\<close> gives, but the library is told 16384 bytes: an answer that
  needs more than there is overruns it.
\<close>

definition ldap_bufsize :: "dworld \<Rightarrow> int" where
  "ldap_bufsize w = (if to_int32 (dw_bufsize w) < 0 then 1024 else to_int32 (dw_bufsize w))"

definition ldapGetPwUid :: "dworld \<Rightarrow> 32 word \<Rightarrow> (dbstate, TsPassword option) prog" where
  "ldapGetPwUid w uid =
     seq (SetUfbsError errUfbsUnknow)
     (case dw_ldap w uid of
        NSS_STATUS_SUCCESS pwd n \<Rightarrow>
          if ldap_bufsize w < int n then crash else seq (SetUfbsError errUfbsOk) (ret (Some pwd))
      | NSS_STATUS_NOTFOUND \<Rightarrow> seq (SetUfbsError errUfbsUIDnotFound) (ret None)
      | NSS_STATUS_TRYAGAIN \<Rightarrow> seq (SetUfbsError errUfbsRetry) (ret None)
      | NSS_STATUS_UNAVAIL \<Rightarrow> seq (SetUfbsError errUfbsUnavail) (ret None)
      | NSS_STATUS_OTHER \<Rightarrow> ret None)"

definition FreeLibrary :: "(dbstate, unit) prog" where
  "FreeLibrary = modify (\<lambda>s. s\<lparr>m_handleNss := False\<rparr>)"

section \<open>The operations\<close>

definition RET_SUCCESS :: int where "RET_SUCCESS = 0"
definition RET_ABORT :: int where "RET_ABORT = 1"
definition RET_SYNTAX :: int where "RET_SYNTAX = 2"
definition ERR_NOTFOUND :: int where "ERR_NOTFOUND = 3"

text \<open>\<^verbatim>\<open>strspn(arg, "0123456789") == strlen(arg)\<close>\<close>

definition uid_argument :: "string \<Rightarrow> bool" where
  "uid_argument arg \<longleftrightarrow> length (takeWhile isdigit arg) = length arg"

text \<open>The part that the three operations share: open, do \<open>m\<close>, which gives the exit code, and close.\<close>

definition with_database :: "dworld \<Rightarrow> (dbstate, int) prog \<Rightarrow> (dbstate, int) prog" where
  "with_database w m =
     seq (modify TDbHandler) (
     bind (OpenDbInstance w) (\<lambda>ok.
     if \<not> ok then ret RET_ABORT
     else
     bind m (\<lambda>code.
     bind (CloseDbInstance w) (\<lambda>ok. ret (if ok then code else RET_ABORT)))))"

definition nssInsertItem :: "dworld \<Rightarrow> string \<Rightarrow> (dbstate, int) prog" where
  "nssInsertItem w arg =
     seq (modify TUfbsHandler) (
     bind
       (if \<not> uid_argument arg then ret RET_ABORT
        else
        bind (Initialize w) (\<lambda>ok.
        if \<not> ok then ret RET_ABORT
        else
        bind (ldapGetPwUid w (atoi arg)) (\<lambda>found.
        case found of
          None \<Rightarrow> ret RET_ABORT
        | Some pwd \<Rightarrow>
            with_database w (bind (InsertItemInDb w pwd) (\<lambda>ok. ret (if ok then RET_SUCCESS else RET_ABORT)))))) (\<lambda>code.
     seq FreeLibrary (ret code)))"

definition nssRemoveItem :: "dworld \<Rightarrow> string \<Rightarrow> (dbstate, int) prog" where
  "nssRemoveItem w arg =
     (if \<not> uid_argument arg then ret RET_ABORT
      else
        with_database w
          (bind (RemoveItemInDb w (atoi arg)) (\<lambda>ok.
           if ok then ret RET_SUCCESS
           else bind GetInternalError (\<lambda>e. ret (if e = errDbUidNotFound then ERR_NOTFOUND else RET_ABORT)))))"

definition nssDeleteDb :: "dworld \<Rightarrow> (dbstate, int) prog" where
  "nssDeleteDb w =
     with_database w (bind (ClearDatabase w) (\<lambda>ok. ret (if ok then RET_SUCCESS else RET_ABORT)))"

section \<open>The command line\<close>

definition NSSUFBS_MISSINGARG :: char where "NSSUFBS_MISSINGARG = CHR 0x02"
definition NSSUFBS_UNKNOWCMD :: char where "NSSUFBS_UNKNOWCMD = CHR 0x01"

definition ParseOption :: "string list \<Rightarrow> char \<times> string option" where
  "ParseOption argv =
     (if 1 < length argv then
        (if length (argv ! 1) = 2 \<and> argv ! 1 ! 0 = CHR ''-'' then
           (argv ! 1 ! 1, if 2 < length argv then Some (argv ! 2) else None)
         else (NSSUFBS_UNKNOWCMD, None))
      else (NSSUFBS_MISSINGARG, None))"

definition nssExecuteCommand :: "dworld \<Rightarrow> string list \<Rightarrow> (dbstate, int) prog" where
  "nssExecuteCommand w argv =
     (let (iOpt, pszArgument) = ParseOption argv in
      if iOpt = CHR ''i'' then
        (if pszArgument \<noteq> None \<and> length argv = 3 then nssInsertItem w (the pszArgument) else ret RET_SYNTAX)
      else if iOpt = CHR ''r'' then
        (if pszArgument \<noteq> None \<and> length argv = 3 then nssRemoveItem w (the pszArgument) else ret RET_SYNTAX)
      else if iOpt = CHR ''d'' then
        (if length argv = 2 then nssDeleteDb w else ret RET_SYNTAX)
      else ret RET_SYNTAX)"

text \<open>\<^verbatim>\<open>main\<close> only prints a message for the code it returns.\<close>

definition nss_ufbs_main :: "dworld \<Rightarrow> string list \<Rightarrow> (dbstate, int) prog" where
  "nss_ufbs_main w argv = bind (nssExecuteCommand w argv) (\<lambda>iRet. ret iRet)"

section \<open>The command as an abstract database\<close>

text \<open>What the command does to the list of entries, and its exit code.\<close>

definition adb_step :: "dworld \<Rightarrow> string list \<Rightarrow> TsPassword list \<Rightarrow> int \<times> TsPassword list" where
  "adb_step w argv es =
     (case argv of
        [_, opt] \<Rightarrow> if opt = ''-d'' then (RET_SUCCESS, []) else (RET_SYNTAX, es)
      | [_, opt, arg] \<Rightarrow>
          if opt = ''-i'' then
            (if \<not> uid_argument arg then (RET_ABORT, es)
             else case dw_ldap w (atoi arg) of
                    NSS_STATUS_SUCCESS p n \<Rightarrow> (RET_SUCCESS, filter (\<lambda>e. uId e \<noteq> uId p) es @ [p])
                  | _ \<Rightarrow> (RET_ABORT, es))
          else if opt = ''-r'' then
            (if \<not> uid_argument arg then (RET_ABORT, es)
             else if atoi arg \<in> uId ` set es then (RET_SUCCESS, filter (\<lambda>e. uId e \<noteq> atoi arg) es)
             else (ERR_NOTFOUND, es))
          else (RET_SYNTAX, es)
      | _ \<Rightarrow> (RET_SYNTAX, es))"

definition db_ready :: "string \<Rightarrow> dbstate \<Rightarrow> bool" where
  "db_ready db s \<longleftrightarrow> configured db s \<and> short_lines (content_of (fs s db)) \<and> entries (content_of (fs s db)) \<noteq> None"

definition db_entries :: "string \<Rightarrow> dbstate \<Rightarrow> TsPassword list" where
  "db_entries db s = the (entries (content_of (fs s db)))"

text \<open>What the library answers can be stored, and fits the buffer.\<close>

definition ldap_fits :: "dworld \<Rightarrow> bool" where
  "ldap_fits w \<longleftrightarrow> (\<forall>u p n. dw_ldap w u = NSS_STATUS_SUCCESS p n \<longrightarrow> plain_entry p \<and> int n \<le> ldap_bufsize w)"

lemma wp_with_database:
  assumes w: "sunny w" and s: "configured db s"
    and m: "\<And>s'. db_open w db (content_of (fs s db)) [] (fs s) s' \<Longrightarrow>
      wp m (\<lambda>code s''. \<exists>content t. db_open w db content t (fs s) s'' \<and> P code content) (\<lambda>_ _. False) s'"
    and P: "\<And>code content. P code content \<Longrightarrow> short_lines content \<and> entries content = Some (es)"
  shows "wp (with_database w m) (\<lambda>code s'. db_ready db s' \<and> db_entries db s' = es \<and>
      (\<exists>content. P code content \<and> fs s' = (fs s)(db \<mapsto> content, work_path db := None, temp_path (dw_pid w) db := None))) (\<lambda>_ _. False) s"
proof -
  have close: "wp (bind (CloseDbInstance w) (\<lambda>ok. ret (if ok then code else RET_ABORT)))
      (\<lambda>code s'. db_ready db s' \<and> db_entries db s' = es \<and>
        (\<exists>content. P code content \<and> fs s' = (fs s)(db \<mapsto> content, work_path db := None, temp_path (dw_pid w) db := None))) (\<lambda>_ _. False) s'"
    if "db_open w db content t (fs s) s'" "P code content" for code content t s'
    unfolding wp_bind
    by (rule wp_mono [OF wp_CloseDbInstance [OF sunnyD(1) [OF w] that(1)]])
      (use that(2) P [OF that(2)] s in \<open>auto simp: wp_simps db_ready_def db_entries_def configured_def content_of_def\<close>)
  have "wp (seq (modify TDbHandler) (OpenDbInstance w))
      (\<lambda>ok s'. ok \<and> db_open w db (content_of (fs s db)) [] (fs s) s') (\<lambda>_ _. False) s"
    by (rule wp_open [OF sunnyD [OF w] s])
  then show ?thesis
    unfolding with_database_def wp_seq wp_modify wp_bind
    by (rule wp_mono) (auto simp: wp_simps intro!: wp_mono [OF m] close [unfolded wp_bind])
qed

lemma db_entries_of: "db_ready db s \<Longrightarrow> configured db s \<and> short_lines (content_of (fs s db)) \<and>
    entries (content_of (fs s db)) = Some (db_entries db s)"
  by (auto simp: db_ready_def db_entries_def)

text \<open>Nothing but the database is changed; what earlier runs left of the work files is removed.\<close>

definition only_db :: "dworld \<Rightarrow> string \<Rightarrow> dbstate \<Rightarrow> dbstate \<Rightarrow> bool" where
  "only_db w db s s' \<longleftrightarrow> (\<forall>p. p \<notin> {db, work_path db, temp_path (dw_pid w) db} \<longrightarrow> fs s' p = fs s p)"

definition db_result :: "dworld \<Rightarrow> string \<Rightarrow> dbstate \<Rightarrow> int \<times> TsPassword list \<Rightarrow> int \<Rightarrow> dbstate \<Rightarrow> bool" where
  "db_result w db s r code s' \<longleftrightarrow> db_ready db s' \<and> r = (code, db_entries db s') \<and> only_db w db s s'"

lemma db_result_calls [simp]:
  "db_result w db (s\<lparr>dtrc := tr\<rparr>) = db_result w db s"
  "db_result w db (s\<lparr>m_handleNss := h\<rparr>) = db_result w db s"
  "db_result w db (s\<lparr>m_enmUfbsCode := e\<rparr>) = db_result w db s"
  "db_result w db s r code (s'\<lparr>m_handleNss := h\<rparr>) = db_result w db s r code s'"
  by (auto simp: db_result_def only_db_def db_ready_def db_entries_def configured_def fun_eq_iff)

lemma db_result_same:
  "db_ready db s \<Longrightarrow> fs s' = fs s \<Longrightarrow> db_result w db s (code, db_entries db s) code s'"
  by (simp add: db_result_def only_db_def db_ready_def db_entries_def configured_def)

lemma wp_InsertInDatabase:
  assumes "sunny w" "db_ready db s" "plain_entry p"
  shows "wp (with_database w (bind (InsertItemInDb w p) (\<lambda>ok. ret (if ok then RET_SUCCESS else RET_ABORT))))
    (db_result w db s (RET_SUCCESS, filter (\<lambda>e. uId e \<noteq> uId p) (db_entries db s) @ [p])) (\<lambda>_ _. False) s"
proof (rule wp_mono [OF wp_with_database
      [where P = "\<lambda>code content. code = RET_SUCCESS \<and> content = insert_text p (content_of (fs s db))"]])
  fix s' assume s': "db_open w db (content_of (fs s db)) [] (fs s) s'"
  show "wp (bind (InsertItemInDb w p) (\<lambda>ok. ret (if ok then RET_SUCCESS else RET_ABORT)))
      (\<lambda>code s''. \<exists>content t. db_open w db content t (fs s) s'' \<and> code = RET_SUCCESS \<and> content = insert_text p (content_of (fs s db)))
      (\<lambda>_ _. False) s'"
    unfolding wp_bind
    by (rule wp_mono [OF wp_InsertItemInDb [OF assms(1) s']]) (use db_entries_of [OF assms(2)] in \<open>auto simp: wp_simps\<close>)
qed (use assms db_entries_of [OF assms(2)] insert_text_entries in \<open>auto simp: db_result_def only_db_def\<close>)

lemma wp_RemoveFromDatabase:
  assumes "sunny w" "db_ready db s"
  shows "wp (with_database w
      (bind (RemoveItemInDb w uid) (\<lambda>ok.
       if ok then ret RET_SUCCESS
       else bind GetInternalError (\<lambda>e. ret (if e = errDbUidNotFound then ERR_NOTFOUND else RET_ABORT)))))
    (db_result w db s (if uid \<in> uId ` set (db_entries db s)
       then (RET_SUCCESS, filter (\<lambda>e. uId e \<noteq> uid) (db_entries db s)) else (ERR_NOTFOUND, db_entries db s))) (\<lambda>_ _. False) s"
    (is "wp (with_database w ?m) _ _ s")
proof -
  let ?found = "uid \<in> uId ` set (db_entries db s)" and ?c = "content_of (fs s db)"
  let ?P = "\<lambda>code content. (code, content) = (if ?found then (RET_SUCCESS, remove_text uid ?c) else (ERR_NOTFOUND, ?c))"
  have m: "wp ?m (\<lambda>code s''. \<exists>content t. db_open w db content t (fs s) s'' \<and> ?P code content) (\<lambda>_ _. False) s'"
    if s': "db_open w db ?c [] (fs s) s'" for s'
    unfolding wp_bind
    by (rule wp_mono [OF wp_RemoveItemInDb [OF assms(1) s']])
      (use db_entries_of [OF assms(2)] in \<open>auto simp: wp_simps GetInternalError_def split: if_splits\<close>)
  show ?thesis
    by (rule wp_mono [OF wp_with_database
        [where P = ?P and es = "if ?found then filter (\<lambda>e. uId e \<noteq> uid) (db_entries db s) else db_entries db s", OF assms(1) _ m]])
      (use assms db_entries_of [OF assms(2)] remove_text_entries in \<open>auto simp: db_result_def only_db_def split: if_splits\<close>)
qed

lemma wp_nssDeleteDb:
  assumes "sunny w" "db_ready db s"
  shows "wp (nssDeleteDb w) (db_result w db s (RET_SUCCESS, [])) (\<lambda>_ _. False) s"
  unfolding nssDeleteDb_def
proof (rule wp_mono [OF wp_with_database [where P = "\<lambda>code content. code = RET_SUCCESS \<and> content = []"]])
  fix s' assume s': "db_open w db (content_of (fs s db)) [] (fs s) s'"
  show "wp (bind (ClearDatabase w) (\<lambda>ok. ret (if ok then RET_SUCCESS else RET_ABORT)))
      (\<lambda>code s''. \<exists>content t. db_open w db content t (fs s) s'' \<and> code = RET_SUCCESS \<and> content = []) (\<lambda>_ _. False) s'"
    unfolding wp_bind by (rule wp_mono [OF wp_ClearDatabase [OF sunnyD(1) [OF assms(1)] s']]) (auto simp: wp_simps)
qed (use assms db_entries_of [OF assms(2)] in
    \<open>auto simp: db_result_def only_db_def short_lines_def entries_def fgets_all_Nil\<close>)

lemma wp_nssInsertItem:
  assumes "sunny w" "ldap_fits w" "db_ready db s"
  shows "wp (nssInsertItem w arg)
    (db_result w db s (adb_step w [cmd, ''-i'', arg] (db_entries db s))) (\<lambda>_ _. False) s"
proof (cases "uid_argument arg")
  case False
  then show ?thesis
    using db_result_same [OF assms(3)]
    by (simp add: nssInsertItem_def adb_step_def wp_simps TUfbsHandler_def FreeLibrary_def)
next
  case True
  let ?s = "\<lambda>tr e. s\<lparr>m_handleNss := True, m_enmUfbsCode := e, dtrc := tr\<rparr>"
  have ready: "db_ready db (?s tr e)" "db_entries db (?s tr e) = db_entries db s" for tr e
    using assms(3) by (simp_all add: db_ready_def db_entries_def configured_def)
  have same: "db_result w db s (RET_ABORT, db_entries db s) RET_ABORT (s\<lparr>m_enmUfbsCode := e, m_handleNss := h, dtrc := tr\<rparr>)" for h tr e
    by (rule db_result_same [OF assms(3)]) simp
  have insert: "wp (with_database w (bind (InsertItemInDb w p) (\<lambda>ok. ret (if ok then RET_SUCCESS else RET_ABORT))))
      (db_result w db s (RET_SUCCESS, filter (\<lambda>e. uId e \<noteq> uId p) (db_entries db s) @ [p])) (\<lambda>_ _. False) (?s tr e)"
    if "plain_entry p" for p tr e
    using wp_InsertInDatabase [OF assms(1) ready(1) that] by (simp add: ready(2))
  note simps = nssInsertItem_def adb_step_def wp_simps TUfbsHandler_def FreeLibrary_def Initialize_def
    SetUfbsError_def ldapGetPwUid_def wp_sys [OF sunnyD(1) [OF assms(1)]] True
  show ?thesis
  proof (cases "dw_ldap w (atoi arg)")
    case (NSS_STATUS_SUCCESS p n)
    then have "plain_entry p" "\<not> ldap_bufsize w < int n" using assms(2) by (force simp: ldap_fits_def)+
    then show ?thesis
      using NSS_STATUS_SUCCESS by (simp add: simps) (rule wp_mono [OF insert], auto simp: wp_simps)
  qed (use same in \<open>simp_all add: simps\<close>)
qed

lemma option_string: "(opt :: string) = [a, b] \<longleftrightarrow> length opt = 2 \<and> opt ! 0 = a \<and> opt ! 1 = b"
  by (auto simp: length_Suc_conv numeral_2_eq_2)

lemma argv_cases:
  obtains "length argv < 2" | cmd opt where "argv = [cmd, opt]" | cmd opt arg where "argv = [cmd, opt, arg]" | "3 < length argv"
proof (cases argv)
  case (Cons cmd argv')
  then show ?thesis
  proof (cases argv')
    fix opt argv'' assume "argv' = opt # argv''"
    then show ?thesis using Cons that by (cases argv''; cases "tl argv''") auto
  qed (use that in auto)
qed (use that in auto)

lemma wp_nss_ufbs_main:
  assumes "sunny w" "ldap_fits w" "db_ready db s"
  shows "wp (nss_ufbs_main w argv) (db_result w db s (adb_step w argv (db_entries db s))) (\<lambda>_ _. False) s"
proof -
  note bad = db_result_same [OF assms(3) refl, of w RET_SYNTAX]
  consider "length argv < 2" | cmd opt where "argv = [cmd, opt]" | cmd opt arg where "argv = [cmd, opt, arg]" | "3 < length argv"
    by (rule argv_cases)
  then show ?thesis
  proof cases
    case 1
    then have "adb_step w argv es = (RET_SYNTAX, es)" for es
      by (auto simp: adb_step_def split: list.split)
    with 1 show ?thesis
      using bad by (simp add: nss_ufbs_main_def nssExecuteCommand_def ParseOption_def NSSUFBS_MISSINGARG_def wp_simps)
  next
    case (2 cmd opt)
    then show ?thesis
      using bad wp_nssDeleteDb [OF assms(1,3)]
      by (auto simp: nss_ufbs_main_def nssExecuteCommand_def ParseOption_def NSSUFBS_UNKNOWCMD_def wp_simps adb_step_def option_string)
  next
    case (3 cmd opt arg)
    then show ?thesis
      using bad wp_nssInsertItem [OF assms, of arg cmd] wp_RemoveFromDatabase [OF assms(1,3), of "atoi arg"]
        db_result_same [OF assms(3) refl, of w RET_ABORT]
      by (auto simp: nss_ufbs_main_def nssExecuteCommand_def ParseOption_def NSSUFBS_UNKNOWCMD_def wp_simps
          adb_step_def option_string nssRemoveItem_def)
  next
    case 4
    then have "adb_step w argv es = (RET_SYNTAX, es)" for es
      by (auto simp: adb_step_def split: list.split)
    with 4 show ?thesis
      using bad by (auto simp: nss_ufbs_main_def nssExecuteCommand_def ParseOption_def NSSUFBS_UNKNOWCMD_def wp_simps)
  qed
qed

section \<open>Whatever fails\<close>

lemma scratch_only_start: "configured db s \<Longrightarrow> scratch_only w db (fs s) (TDbHandler s)"
  by (simp add: scratch_only_def TDbHandler_def configured_def)

lemma outcome_with_database:
  assumes "configured db s" "maintains (scratch_only w db (fs s)) m (\<lambda>_. True)"
  shows "outcome (with_database w m) (db_outcome w db (fs s)) s"
proof -
  have "commits w db (fs s) (bind (OpenDbInstance w) (\<lambda>ok.
     if \<not> ok then ret RET_ABORT
     else bind m (\<lambda>code. bind (CloseDbInstance w) (\<lambda>ok. ret (if ok then code else RET_ABORT)))))"
    by (intro commits_bind [OF maintains_OpenDbInstance] commits_if commits_ret commits_bind [OF assms(2)]
        commits_then commits_CloseDbInstance) (simp add: fileless_def outcome_simps)
  then show ?thesis
    using scratch_only_start [OF assms(1), of w]
    by (simp add: with_database_def outcome_seq outcome_modify commits_def)
qed

lemma db_outcome_same: "\<forall>c. r \<noteq> Exit c \<Longrightarrow> fs s' = files \<Longrightarrow> db_outcome w db files r s'"
  by (simp add: db_outcome_def renamed_only_def)

lemma db_outcome_fields [simp]:
  "db_outcome w db files r (s\<lparr>m_handleNss := h\<rparr>) = db_outcome w db files r s"
  by (simp add: db_outcome_def renamed_only_def)

lemma outcome_before:
  assumes "outcome m (\<lambda>r s'. (\<forall>c. r \<noteq> Exit c) \<and> fs s' = fs s) s"
    "\<And>x s'. fs s' = fs s \<Longrightarrow> outcome (k x) (db_outcome w db (fs s)) s'"
  shows "outcome (bind m k) (db_outcome w db (fs s)) s"
  unfolding outcome_bind
  by (rule outcome_mono [OF assms(1)]) (auto simp: assms(2) db_outcome_same split: res.splits)

lemma ufbs_fileless:
  "outcome (Initialize w) (\<lambda>r s'. (\<forall>c. r \<noteq> Exit c) \<and> fs s' = fs s) s"
  "outcome (ldapGetPwUid w uid) (\<lambda>r s'. (\<forall>c. r \<noteq> Exit c) \<and> fs s' = fs s) s"
  by (auto simp: Initialize_def ldapGetPwUid_def SetUfbsError_def outcome_def sys_def run_simps split: ldap_answer.splits)

lemma outcome_insert:
  assumes "configured db s"
  shows "outcome (with_database w (bind (InsertItemInDb w p) (\<lambda>ok. ret (if ok then RET_SUCCESS else RET_ABORT))))
      (db_outcome w db (fs s)) s"
  using assms by (intro outcome_with_database maintains_any maintains_intros) auto

lemma outcome_nssInsertItem:
  assumes "configured db s"
  shows "outcome (nssInsertItem w arg) (db_outcome w db (fs s)) s"
proof -
  have finish: "outcome (bind m (\<lambda>code. seq FreeLibrary (ret code))) (db_outcome w db files) s'"
    if "outcome m (db_outcome w db files) s'" for m :: "(dbstate, int) prog" and s' files
    using that by (auto simp: outcome_simps FreeLibrary_def db_outcome_def renamed_only_def elim!: outcome_mono split: res.split)
  have conf: "configured db s'" if "fs s' = fs s" for s'
    using assms that by (simp add: configured_def)
  have stop: "outcome (ret code) (db_outcome w db (fs s')) s'" for s' and code :: int
    by (simp add: outcome_ret db_outcome_same)
  have query: "outcome (bind (ldapGetPwUid w uid) (\<lambda>found. case found of None \<Rightarrow> ret RET_ABORT
        | Some pwd \<Rightarrow> with_database w (bind (InsertItemInDb w pwd) (\<lambda>ok. ret (if ok then RET_SUCCESS else RET_ABORT)))))
      (db_outcome w db (fs s')) s'" if "fs s' = fs s" for s' uid
  proof (rule outcome_before [OF ufbs_fileless(2)])
    fix found and s'' :: dbstate assume "fs s'' = fs s'"
    then show "outcome (case found of None \<Rightarrow> ret RET_ABORT
        | Some pwd \<Rightarrow> with_database w (bind (InsertItemInDb w pwd) (\<lambda>ok. ret (if ok then RET_SUCCESS else RET_ABORT))))
      (db_outcome w db (fs s')) s''"
      using outcome_insert [of db s'' w] conf [of s''] stop [of RET_ABORT s''] that by (cases found) auto
  qed
  have "outcome (if \<not> uid_argument arg then ret RET_ABORT
        else
        bind (Initialize w) (\<lambda>ok.
        if \<not> ok then ret RET_ABORT
        else
        bind (ldapGetPwUid w (atoi arg)) (\<lambda>found.
        case found of
          None \<Rightarrow> ret RET_ABORT
        | Some pwd \<Rightarrow>
            with_database w (bind (InsertItemInDb w pwd) (\<lambda>ok. ret (if ok then RET_SUCCESS else RET_ABORT))))))
     (db_outcome w db (fs s')) s'" if "fs s' = fs s" for s'
  proof (cases "uid_argument arg")
    case True
    have "outcome (if \<not> ok then ret RET_ABORT
        else
        bind (ldapGetPwUid w (atoi arg)) (\<lambda>found.
        case found of
          None \<Rightarrow> ret RET_ABORT
        | Some pwd \<Rightarrow>
            with_database w (bind (InsertItemInDb w pwd) (\<lambda>ok. ret (if ok then RET_SUCCESS else RET_ABORT)))))
      (db_outcome w db (fs s')) s''" if "fs s'' = fs s'" for s'' ok
      using query [of s''] stop [of RET_ABORT s''] that \<open>fs s' = fs s\<close> by auto
    then show ?thesis using True by (simp add: outcome_before [OF ufbs_fileless(1)])
  qed (simp add: stop)
  note main = this
  have f: "fs (TUfbsHandler s) = fs s" by (simp add: TUfbsHandler_def)
  show ?thesis
    unfolding nssInsertItem_def outcome_seq outcome_modify res.case
    using finish [OF main [OF f]] unfolding f .
qed

lemma outcome_nss_ufbs_main:
  assumes "configured db s"
  shows "outcome (nss_ufbs_main w argv) (db_outcome w db (fs s)) s"
proof -
  have stop: "outcome (ret code) (db_outcome w db (fs s)) s" for code :: int
    by (simp add: outcome_ret db_outcome_same)
  have remove: "outcome (nssRemoveItem w arg) (db_outcome w db (fs s)) s" for arg
    unfolding nssRemoveItem_def GetInternalError_def
    using assms stop
    by (auto simp: outcome_if intro!: outcome_with_database maintains_any maintains_intros maintains_gets)
  have delete: "outcome (nssDeleteDb w) (db_outcome w db (fs s)) s"
    unfolding nssDeleteDb_def using assms
    by (intro outcome_with_database maintains_any maintains_intros) auto
  show ?thesis
    using outcome_nssInsertItem [OF assms] remove delete stop
    by (auto simp: nss_ufbs_main_def nssExecuteCommand_def Let_def split: prod.splits)
qed

section \<open>A malformed database\<close>

lemma wp_with_database_bad:
  assumes "sunny w" "configured db s"
    and m: "\<And>s'. db_open w db (content_of (fs s db)) [] (fs s) s' \<Longrightarrow>
      wp m (\<lambda>code s''. code = RET_ABORT \<and> closable w db (content_of (fs s db)) (fs s) s'') (\<lambda>_ _. False) s'"
  shows "wp (with_database w m) (\<lambda>code s'. code = RET_ABORT \<and> fs s' db = Some (content_of (fs s db))) (\<lambda>_ _. False) s"
proof -
  have close: "wp (CloseDbInstance w) (\<lambda>ok s'. fs s' db = Some (content_of (fs s db))) (\<lambda>_ _. False) s'"
    if "closable w db (content_of (fs s db)) (fs s) s'" for s'
    using that by (auto simp: closable_def intro!: wp_mono [OF wp_close_any [OF sunnyD(1) [OF assms(1)]]])
  have "wp (seq (modify TDbHandler) (OpenDbInstance w))
      (\<lambda>ok s'. ok \<and> db_open w db (content_of (fs s db)) [] (fs s) s') (\<lambda>_ _. False) s"
    by (rule wp_open [OF sunnyD [OF assms(1)] assms(2)])
  then show ?thesis
    unfolding with_database_def wp_seq wp_modify wp_bind
    by (rule wp_mono) (auto simp: wp_simps intro!: wp_mono [OF m] wp_mono [OF close])
qed

lemma malformed_insert:
  assumes "sunny w" "configured db s" "short_lines (content_of (fs s db))" "entries (content_of (fs s db)) = None"
  shows "wp (with_database w (bind (InsertItemInDb w p) (\<lambda>ok. ret (if ok then RET_SUCCESS else RET_ABORT))))
    (\<lambda>code s'. code = RET_ABORT \<and> fs s' db = Some (content_of (fs s db))) (\<lambda>_ _. False) s"
  using assms
  by (intro wp_with_database_bad) (auto simp: wp_simps intro!: wp_mono [OF wp_change_bad(1)])

lemma malformed_remove:
  assumes "sunny w" "configured db s" "short_lines (content_of (fs s db))" "entries (content_of (fs s db)) = None" "uid_argument arg"
  shows "wp (nssRemoveItem w arg)
    (\<lambda>code s'. code = RET_ABORT \<and> fs s' db = Some (content_of (fs s db))) (\<lambda>_ _. False) s"
  using assms unfolding nssRemoveItem_def
  by (auto simp: wp_simps GetInternalError_def intro!: wp_with_database_bad wp_mono [OF wp_change_bad(2)])

section \<open>Properties\<close>

interpretation ufbs_db: simulation "nss_ufbs_main w" "\<lambda>s. sunny w \<and> ldap_fits w \<and> db_ready db s" "db_entries db" "adb_step w"
  for w db
  by unfold_locales (auto intro: wp_mono [OF wp_nss_ufbs_main] simp: db_result_def)

text \<open>An example: a small configuration, one known user and no database yet.\<close>

definition example_user :: TsPassword where
  "example_user = \<lparr>uId = 5, uGid = 6, strName = ''ann'', strPasswd = ''x'', strGecos = [], strDir = ''/home/ann'', strShell = ''/bin/sh''\<rparr>"

definition example_dworld :: dworld where
  "example_dworld = \<lparr>dw_ok = (\<lambda>_ _. True), dw_count = (\<lambda>_ _ n. n), dw_pid = 7, dw_bufsize = 1024,
     dw_ldap = (\<lambda>u. if u = 5 then NSS_STATUS_SUCCESS example_user 64 else NSS_STATUS_NOTFOUND)\<rparr>"

definition example_files :: "string option \<Rightarrow> dbstate" where
  "example_files content =
     \<lparr>fs = [STR_CONFIG_FILEPATH \<mapsto> ''W_FILE=/db'' @ [NL] @ ''R_FILE=/db'' @ [NL]](''/db'' := content),
      m_pWorkFile = None, m_pTmpFile = None, m_iLckFile = -1, m_nStatus = errConfEmpty, m_strReadPath = [], m_strWritePath = [],
      m_enmRetCode = errDbOk, m_handleNss = False, m_enmUfbsCode = errUfbsOk, dtrc = []\<rparr>"

lemma example_user_plain: "plain_entry example_user"
proof -
  have "Trim ''ann'' = ''ann''" "Trim ''x'' = ''x''" "Trim ''/home/ann'' = ''/home/ann''" "Trim ''/bin/sh'' = ''/bin/sh''" "Trim [] = []"
    by (auto intro!: Trim_id simp: trim_character_def)
  then show ?thesis
    by (simp add: plain_entry_def plain_field_def example_user_def tuple_def MAX_UFDB_FILEBUFFER_def
        show_nat.simps [of 5] show_nat.simps [of 6])
qed

lemma example_dworld_fits: "sunny example_dworld" "ldap_fits example_dworld"
  using example_user_plain
  by (auto simp: sunny_def calls_ok_def takes_all_def ldap_fits_def example_dworld_def ldap_bufsize_def to_int32_def)

lemma example_configured: "configured ''/db'' (example_files content)"
proof -
  have "fgets_all 2048 (concat (map (\<lambda>l. l @ [NL]) [''W_FILE=/db'', ''R_FILE=/db''])) = map (\<lambda>l. l @ [NL]) [''W_FILE=/db'', ''R_FILE=/db'']"
    by (rule fgets_all_lines) simp
  then have "ParsingConfigFile (''W_FILE=/db'' @ [NL] @ ''R_FILE=/db'' @ [NL]) = Some (''/db'', ''/db'')"
    by (simp add: ParsingConfigFile_def config_entry_line_def cstr_def Trim_def TrimLeft_def TrimRight_def trim_character_def)
  then show ?thesis
    by (simp add: configured_def example_files_def STR_CONFIG_FILEPATH_def)
qed

lemma example_ready: "db_ready ''/db'' (example_files None)"
  using example_configured [of None]
  by (simp add: db_ready_def example_files_def content_of_def short_lines_def entries_def fgets_all_Nil)

text \<open>
  C2: for every sequence of invocations of the command, with any arguments, when every system call
  succeeds and LDAP's answers can be stored: the exit codes are those of an abstract database, a list
  of entries in which an insertion replaces the entries with the same id and a removal reports
  whether there was one; and the file read back line by line is that list.
\<close>

theorem ufbs_refines_database:
  assumes "sunny w" "ldap_fits w" "db_ready db s"
  shows "\<exists>s'. run_ops (nss_ufbs_main w) cmds s = Some (Ok (fst (run_abs (adb_step w) cmds (db_entries db s))), s') \<and>
     db_ready db s' \<and> db_entries db s' = snd (run_abs (adb_step w) cmds (db_entries db s))"
  using ufbs_db.run_simulates [of w db s cmds] assms by (auto simp: wp_iff)

theorem ufbs_refines_database_witness:
  "sunny example_dworld \<and> ldap_fits example_dworld \<and> db_ready ''/db'' (example_files None) \<and>
   (\<exists>s'. run_ops (nss_ufbs_main example_dworld) [[''nss_ufbs'', ''-i'', ''5''], [''nss_ufbs'', ''-r'', ''6''], [''nss_ufbs'', ''-r'', ''5''], [''nss_ufbs'']]
       (example_files None) = Some (Ok [RET_SUCCESS, ERR_NOTFOUND, RET_SUCCESS, RET_SYNTAX], s') \<and> db_entries ''/db'' s' = [])"
proof -
  have args: "uid_argument ''5''" "uid_argument ''6''" "atoi ''5'' = 5" "atoi ''6'' = 6"
    by (simp_all add: uid_argument_def isdigit_def atoi_def strtol10_def isspace_def digit_value_def of_char_def)
  have start: "db_entries ''/db'' (example_files None) = []"
    by (simp add: db_entries_def example_files_def content_of_def entries_def fgets_all_Nil STR_CONFIG_FILEPATH_def)
  have "run_abs (adb_step example_dworld) [[''nss_ufbs'', ''-i'', ''5''], [''nss_ufbs'', ''-r'', ''6''], [''nss_ufbs'', ''-r'', ''5''], [''nss_ufbs'']] [] =
      ([RET_SUCCESS, ERR_NOTFOUND, RET_SUCCESS, RET_SYNTAX], [])"
    by (simp add: adb_step_def args example_dworld_def example_user_def)
  then show ?thesis
    using ufbs_refines_database [OF example_dworld_fits example_ready,
        of "[[''nss_ufbs'', ''-i'', ''5''], [''nss_ufbs'', ''-r'', ''6''], [''nss_ufbs'', ''-r'', ''5''], [''nss_ufbs'']]"]
      example_dworld_fits example_ready by (auto simp: start)
qed



text \<open>
  C26: an entry whose fields hold no separator, no control character at their ends and no NUL is read
  back from the line that the insertion prints exactly as it was, its ids included.
\<close>

theorem tuple_read_back:
  assumes "plain_entry p"
  shows "ParsingLine (tuple p) = IUFBS_DB_SUCCESS p"
  unfolding tuple_bare ParsingLine_NL by (rule ParsingLine_bare [OF assms])

theorem tuple_read_back_witness:
  "plain_entry example_user \<and> ParsingLine (tuple example_user) = IUFBS_DB_SUCCESS example_user"
  using tuple_read_back [OF example_user_plain] example_user_plain by simp

text \<open>
  C24: a failed insertion can destroy the database. When the work file accepts no bytes as the new
  text is copied back to it, the insertion reports the failure, but closing the instance still renames
  the truncated work file over the database: every entry is gone.
\<close>

theorem failed_flush_loses_database:
  assumes "calls_ok w" "takes_all w (temp_path (dw_pid w) db)" "takes_none w (work_path db)" "db_open w db content [] files s"
    "short_lines content" "entries content = Some es"
  shows "wp (bind (InsertItemInDb w p) (\<lambda>inserted. bind (CloseDbInstance w) (\<lambda>closed. ret (inserted, closed))))
    (\<lambda>r s'. r = (False, True) \<and> fs s' db = Some []) (\<lambda>_ _. False) s"
  using assms by (rule insert_close_none)

definition example_open :: "string \<Rightarrow> dbstate" where
  "example_open content = (example_files (Some content))
     \<lparr>fs := (fs (example_files (Some content)))(work_path ''/db'' \<mapsto> content, temp_path 7 ''/db'' \<mapsto> []),
      m_pWorkFile := Some (work_path ''/db''), m_pTmpFile := Some (temp_path 7 ''/db'', 0), m_iLckFile := 3,
      m_nStatus := errConfOk, m_strWritePath := ''/db''\<rparr>"

lemma example_open_open: "dw_pid w = 7 \<Longrightarrow> db_open w ''/db'' content [] (fs (example_files (Some content))) (example_open content)"
  by (simp add: db_open_def example_open_def conf_read_def)

lemma example_user_text: "short_lines (tuple example_user)" "entries (tuple example_user) = Some [example_user]"
proof -
  have lines: "fgets_all MAX_UFDB_FILEBUFFER (tuple example_user) = [tuple example_user]"
    using fgets_all_line_list [of "[tuple example_user]"] plain_tuple_line [OF example_user_plain] by simp
  show "short_lines (tuple example_user)" "entries (tuple example_user) = Some [example_user]"
    using plain_tuple_line [OF example_user_plain] by (auto simp: short_lines_def entries_def lines simp del: parse_lines.simps)
qed

definition full_disk :: dworld where
  "full_disk = example_dworld\<lparr>dw_count := \<lambda>_ c n. if c = DCall ''fwrite'' (work_path ''/db'') then 0 else n\<rparr>"

theorem failed_flush_loses_database_witness:
  "\<exists>s'. bind (InsertItemInDb full_disk example_user) (\<lambda>inserted. bind (CloseDbInstance full_disk) (\<lambda>closed. ret (inserted, closed)))
      (example_open (tuple example_user)) = Some (Ok (False, True), s') \<and>
    fs (example_open (tuple example_user)) ''/db'' = Some (tuple example_user) \<and> fs s' ''/db'' = Some []"
proof -
  have w: "calls_ok full_disk" "takes_all full_disk (temp_path (dw_pid full_disk) ''/db'')" "takes_none full_disk (work_path ''/db'')" "dw_pid full_disk = 7"
    by (simp_all add: full_disk_def example_dworld_def calls_ok_def takes_all_def takes_none_def)
  have "fs (example_open (tuple example_user)) ''/db'' = Some (tuple example_user)"
    by (simp add: example_open_def example_files_def)
  then show ?thesis
    using failed_flush_loses_database [OF w(1-3) example_open_open [OF w(4)] example_user_text, of example_user]
    by (auto simp: wp_iff)
qed

text \<open>
  C25: a lost write can be reported as success. When the temporary file takes only \<open>k\<close> bytes of the new
  tuple, fewer than it has, the insertion into an empty database notices the short write but then
  overwrites the result by that of the flush: it returns success, and the database ends in the
  truncated tuple.
\<close>

theorem short_write_reported_as_success:
  assumes "calls_ok w" "takes_all w (work_path db)" "takes_some k w (temp_path (dw_pid w) db)" "db_open w db [] [] files s"
    "k < length (tuple p)"
  shows "wp (bind (InsertItemInDb w p) (\<lambda>inserted. bind (CloseDbInstance w) (\<lambda>closed. ret (inserted, closed))))
    (\<lambda>r s'. r = (True, True) \<and> fs s' db = Some (take k (tuple p))) (\<lambda>_ _. False) s"
  using assms by (rule insert_close_some)

definition slow_disk :: dworld where
  "slow_disk = example_dworld\<lparr>dw_count := \<lambda>_ c n. if c = DCall ''fwrite'' (temp_path 7 ''/db'') then 3 else n\<rparr>"

theorem short_write_reported_as_success_witness:
  "\<exists>s'. bind (InsertItemInDb slow_disk example_user) (\<lambda>inserted. bind (CloseDbInstance slow_disk) (\<lambda>closed. ret (inserted, closed)))
      (example_open []) = Some (Ok (True, True), s') \<and> fs s' ''/db'' = Some ''ann''"
proof -
  have w: "calls_ok slow_disk" "takes_all slow_disk (work_path ''/db'')" "takes_some 3 slow_disk (temp_path (dw_pid slow_disk) ''/db'')" "dw_pid slow_disk = 7"
    by (simp_all add: slow_disk_def example_dworld_def calls_ok_def takes_all_def takes_some_def)
  have "3 < length (tuple example_user)" "take 3 (tuple example_user) = ''ann''" by (simp_all add: tuple_def example_user_def)
  then show ?thesis
    using short_write_reported_as_success [OF w(1-3) example_open_open [OF w(4)], of example_user] by (auto simp: wp_iff)
qed

text \<open>
  one line that is neither blank nor seven fields makes every insertion and every removal fail,
  with exit code 1 and the database unchanged, wherever in the file the line is.
\<close>

lemma malformed_line_blocks:
  assumes "sunny w" "configured db s" "short_lines (content_of (fs s db))" "entries (content_of (fs s db)) = None" "uid_argument arg"
  shows "wp (nssRemoveItem w arg)
      (\<lambda>code s'. code = RET_ABORT \<and> fs s' db = Some (content_of (fs s db))) (\<lambda>_ _. False) s \<and>
    wp (with_database w (bind (InsertItemInDb w p) (\<lambda>ok. ret (if ok then RET_SUCCESS else RET_ABORT))))
      (\<lambda>code s'. code = RET_ABORT \<and> fs s' db = Some (content_of (fs s db))) (\<lambda>_ _. False) s"
  using malformed_remove [OF assms] malformed_insert [OF assms(1-4)] by simp

lemma malformed_line_blocks_witness:
  "\<exists>s'. nssRemoveItem example_dworld ''5'' (example_files (Some (tuple example_user @ ''bad'' @ [NL]))) = Some (Ok RET_ABORT, s') \<and>
     fs s' ''/db'' = Some (tuple example_user @ ''bad'' @ [NL])"
proof -
  let ?c = "tuple example_user @ ''bad'' @ [NL]"
  have "line_list [tuple example_user, ''bad'' @ [NL]]"
    using plain_tuple_line [OF example_user_plain]
    by (auto simp: short_line_def ended_def MAX_UFDB_FILEBUFFER_def tuple_def)
  then have lines: "fgets_all MAX_UFDB_FILEBUFFER ?c = [tuple example_user, ''bad'' @ [NL]]" "\<forall>l \<in> {tuple example_user, ''bad'' @ [NL]}. short_line l"
    using fgets_all_line_list [of "[tuple example_user, ''bad'' @ [NL]]"] by auto
  have "ParsingLine (''bad'' @ [NL]) = IUFBS_DB_ERROR"
    by (simp add: ParsingLine_def Trim_def TrimLeft_def TrimRight_def trim_character_def eval_nat_numeral Let_def)
  then have "parse_lines [tuple example_user, ''bad'' @ [NL]] = None"
    using plain_tuple_line [OF example_user_plain] by (auto simp: cstr_def split: parse_result.splits)
  moreover have "content_of (fs (example_files (Some ?c)) ''/db'') = ?c" by (simp add: example_files_def content_of_def)
  moreover have "uid_argument ''5''" by (simp add: uid_argument_def isdigit_def)
  ultimately show ?thesis
    using malformed_line_blocks [OF example_dworld_fits(1) example_configured, of "Some ?c" "''5''"] lines
    by (auto simp: short_lines_def entries_def wp_iff)
qed

end
