(* ===== verification/Agent_State.thy ===== *)
theory Agent_State
  imports CString
begin

text \<open>
  The HA agent of the data disk (\<^verbatim>\<open>src/ha_cnz/haadm_agent_caa/drbd\<close>): the types of
  \<^verbatim>\<open>apos_ha_agent_types.h\<close>, the state of the agent's objects and the environment. One record holds
  the members of all objects, since every one of them is a singleton reached through
  \<^verbatim>\<open>HA_AGENT_Global\<close>; a pointer to such an object is a flag that says whether it is allocated. The
  files the agent keeps between runs are part of the state. Everything else outside the program, that
  is kernel, shell, DRBD tools, IMM, AMF and network, answers through the parameter \<open>w\<close>; an answer
  may depend on the whole history of calls, newest first. Trace and log output is not modelled.
\<close>

section \<open>Types and constants\<close>

datatype ha_state = HA_UNDEFINED | HA_ACTIVE | HA_STANDBY | HA_QUIESCED | HA_QUIESCING

text \<open>The messages of \<^verbatim>\<open>APOS_HA_Msgs\<close> and of the device monitor.\<close>

datatype agent_msg = AGENT_SHUTDOWN | ROLEMGR_CLOSE | DRBDMON_TIMEOUT | DRBDMON_CLOSE | OTHER_MSG

datatype devmon_msg = DRBD_DISK_HEALTHY | DRBD_DISK_FAULTY | DRBD_ROLE_CHANGE | DRBD_CONN_ERROR | DEVMON_INVALID

definition devmon_msg_of :: "32 word \<Rightarrow> devmon_msg" where
  "devmon_msg_of n =
     (if n = 1 then DRBD_DISK_HEALTHY else if n = 2 then DRBD_DISK_FAULTY
      else if n = 3 then DRBD_ROLE_CHANGE else if n = 4 then DRBD_CONN_ERROR else DEVMON_INVALID)"

record drbd_info =
  isConfigured :: bool
  di_cstate :: string
  di_role :: string
  di_dstate :: string

record persis_info =
  pi_cstate :: string
  pi_rebootCount :: "32 word"

record config =
  xtimes :: "32 word"
  ysecs :: "32 word"
  traceMask :: "64 word"
  rebootTmout :: "32 word"
  rebootCount :: "32 word"
  traceDir :: string
  callbackTmout :: "32 word"
  drbdSupervisionIntvl :: "32 word"
  mips :: "(string \<times> string) list" \<comment> \<open>address and interface, in the order of the two arrays\<close>
  mip_size :: "32 word"

definition default_config :: config where
  "default_config = \<lparr>xtimes = 3, ysecs = 1000, traceMask = 1, rebootTmout = 3000, rebootCount = 3,
     traceDir = ''/var/log/acs/tra/logging/'', callbackTmout = 90000, drbdSupervisionIntvl = 2000,
     mips = [], mip_size = 0\<rparr>"

definition APOS_HA_CMD_APOS_OPERATIONS :: string where
  "APOS_HA_CMD_APOS_OPERATIONS = ''/opt/ap/apos/bin/apos_operations''"
definition APOS_HA_CMD_HA_OPERATIONS :: string where
  "APOS_HA_CMD_HA_OPERATIONS = ''/opt/ap/apos/bin/apos_ha_operations''"
definition APOS_HA_CMD_DRBDMGR :: string where
  "APOS_HA_CMD_DRBDMGR = ''/opt/ap/apos/bin/raidmgr''"
definition APOS_HA_CMD_LEN :: nat where "APOS_HA_CMD_LEN = 100"
definition APOS_HA_CMD_ASSEMBLE_OPTS :: string where
  "APOS_HA_CMD_ASSEMBLE_OPTS = '' --assemble --mount &>/dev/null''"
definition APOS_HA_CMD_ASSEMBLE_FORCE_OPTS :: string where
  "APOS_HA_CMD_ASSEMBLE_FORCE_OPTS = '' --assemble --mount --force &>/dev/null''"
definition APOS_HA_CMD_DISABLE_OPTS :: string where
  "APOS_HA_CMD_DISABLE_OPTS = '' --disable --unmount &>/dev/null''"
definition APOS_HA_CMD_ACTIVATE_OPTS :: string where
  "APOS_HA_CMD_ACTIVATE_OPTS = '' --activate --force &>/dev/null''"
definition APOS_HA_CMD_ACTIVATE_MIP_OPTS :: string where
  "APOS_HA_CMD_ACTIVATE_MIP_OPTS = '' --activate-mips &>/dev/null''"
definition APOS_HA_CMD_DEACTIVATE_MIP_OPTS :: string where
  "APOS_HA_CMD_DEACTIVATE_MIP_OPTS = '' --deactivate-mips &>/dev/null''"
definition APOS_HA_CMD_GET_MIP_INFO_OPTS :: string where
  "APOS_HA_CMD_GET_MIP_INFO_OPTS = '' --mip-info''"

section \<open>Calls to the outside\<close>

datatype recovery = NODE_FAILOVER | NODE_FAILFAST | COMPONENT_RESTART

text \<open>
  \<open>New\<close> allocates an object, \<open>Shell\<close> runs a command through \<^verbatim>\<open>sh -c\<close> with an alarm in the child,
  \<open>Spawn\<close> runs a command and reads its output, \<open>Popen\<close> likewise through \<^verbatim>\<open>popen\<close>, \<open>Sleep\<close> is one
  \<^verbatim>\<open>select\<close> of \<^verbatim>\<open>msec_sleep\<close>, \<open>Sys\<close> is any other system or middleware call by its name.
\<close>

datatype acall =
    New string | Shell "32 word" string | Spawn "32 word" "string list" | Popen string
  | Sleep "32 word" | Sys string | Report recovery | Imm string string | Send string string

datatype shell_res = ForkFailed | ExecFailed | Status int

datatype spawn_res = PipeFailed | SpawnForkFailed | Spawned bool "string option" int

record aworld =
  aw_ok :: "acall list \<Rightarrow> acall \<Rightarrow> bool"
  aw_int :: "acall list \<Rightarrow> acall \<Rightarrow> int"
  aw_str :: "acall list \<Rightarrow> acall \<Rightarrow> string option"
  aw_shell :: "acall list \<Rightarrow> string \<Rightarrow> shell_res"
  aw_spawn :: "acall list \<Rightarrow> string list \<Rightarrow> spawn_res"

text \<open>What the memory map of the persistent file points to.\<close>

datatype pmap = MapNull | MapFailed | Mapped

section \<open>The state of the agent\<close>

record agent =
  \<comment> \<open>Global\<close>
  m_shutdownOrdered :: bool
  m_haMode :: bool
  m_tasksDone :: bool
  m_compRestart :: bool
  m_oldhaState :: ha_state
  m_rMgrObj :: bool
  m_utilObj :: bool
  m_pwrOffObj :: bool
  m_cngObj :: bool
  m_haObj :: bool
  haState :: ha_state \<comment> \<open>of the object behind \<^verbatim>\<open>m_haObj\<close>\<close>
  \<comment> \<open>HA_AGENT_Utils\<close>
  ap_1 :: bool
  ap_2 :: bool
  \<comment> \<open>HA_AGENT_Config\<close>
  m_Config :: config
  \<comment> \<open>HA_AGENT_PWROff\<close>
  m_fd :: int
  m_map :: pmap
  \<comment> \<open>HA_AGENT_DRBDMgr\<close>
  m_aposOpts :: string
  m_assemble_force :: bool
  \<comment> \<open>HA_AGENT_RoleMgr\<close>
  m_regHndlr :: bool
  m_arpObj :: bool
  m_pingObj :: bool
  m_ndiscObj :: bool
  m_drbdObj :: bool
  m_fileObj :: bool
  m_immObj :: bool
  m_DMObj :: bool
  m_reactorRunner :: bool
  m_handle :: int
  m_startJobsDone :: bool
  m_isVirtual :: bool
  \<comment> \<open>HA_AGENT_DRBDMon\<close>
  m_timerid :: int
  m_rebuildInProgress :: bool
  dm_reactor :: bool
  dm_reactorRunner :: bool
  \<comment> \<open>HA_AGENT_STNBYAdm\<close>
  sb_fileObj :: bool
  sb_DMObj :: bool
  ShutdownDone :: bool
  \<comment> \<open>agentHAClass and APOS_HA_RdeAgent_AmfClass\<close>
  m_actvAdmObj :: bool
  m_stbyAdmObj :: bool
  appMngrObj :: bool
  hCheckKey :: bool
  termAppEventReceived :: bool
  \<comment> \<open>files\<close>
  f_lock :: bool
  f_rcf :: "32 word option"
  f_persis :: "string option"
  \<comment> \<open>history\<close>
  trc :: "acall list"

definition agent_init :: agent where
  "agent_init = \<lparr>m_shutdownOrdered = False, m_haMode = False, m_tasksDone = False, m_compRestart = False,
     m_oldhaState = HA_UNDEFINED, m_rMgrObj = False, m_utilObj = False, m_pwrOffObj = False, m_cngObj = False,
     m_haObj = False, haState = HA_UNDEFINED, ap_1 = False, ap_2 = False, m_Config = default_config,
     m_fd = -1, m_map = MapNull, m_aposOpts = [], m_assemble_force = False,
     m_regHndlr = False, m_arpObj = False, m_pingObj = False, m_ndiscObj = False, m_drbdObj = False,
     m_fileObj = False, m_immObj = False, m_DMObj = False, m_reactorRunner = False, m_handle = -1,
     m_startJobsDone = False, m_isVirtual = False, m_timerid = -1, m_rebuildInProgress = False,
     dm_reactor = False, dm_reactorRunner = False, sb_fileObj = False, sb_DMObj = False, ShutdownDone = False,
     m_actvAdmObj = False, m_stbyAdmObj = False, appMngrObj = False, hCheckKey = False, termAppEventReceived = False,
     f_lock = False, f_rcf = None, f_persis = None, trc = []\<rparr>"

section \<open>Asking the environment\<close>

definition ask_with :: "(acall list \<Rightarrow> 'r) \<Rightarrow> acall \<Rightarrow> (agent, 'r) prog" where
  "ask_with f c = (\<lambda>s. Some (Ok (f (trc s)), s\<lparr>trc := c # trc s\<rparr>))"

definition ask_ok :: "aworld \<Rightarrow> acall \<Rightarrow> (agent, bool) prog" where
  "ask_ok w c = ask_with (\<lambda>t. aw_ok w t c) c"

definition ask_int :: "aworld \<Rightarrow> acall \<Rightarrow> (agent, int) prog" where
  "ask_int w c = ask_with (\<lambda>t. aw_int w t c) c"

definition ask_str :: "aworld \<Rightarrow> acall \<Rightarrow> (agent, string option) prog" where
  "ask_str w c = ask_with (\<lambda>t. aw_str w t c) c"

definition tell :: "acall \<Rightarrow> (agent, unit) prog" where
  "tell c = ask_with (\<lambda>_. ()) c"

lemma run_ask_with [run_simps]: "ask_with f c s = Some (Ok (f (trc s)), s\<lparr>trc := c # trc s\<rparr>)"
  by (simp add: ask_with_def)

lemma ask_with_eq [ok_simps]:
  "ask_with f c s = Some (r, s') \<longleftrightarrow> r = Ok (f (trc s)) \<and> s' = s\<lparr>trc := c # trc s\<rparr>"
  by (auto simp: ask_with_def)

lemma wp_ask_with [wp_simps]: "wp (ask_with f c) Q E s = Q (f (trc s)) (s\<lparr>trc := c # trc s\<rparr>)"
  by (simp add: wp_def ask_with_def)

lemma wlp_ask_with [wp_simps]: "wlp (ask_with f c) Q E s = Q (f (trc s)) (s\<lparr>trc := c # trc s\<rparr>)"
  by (simp add: wlp_def ask_with_def)

lemma outcome_ask_with [outcome_simps]:
  "outcome (ask_with f c) R s = R (Ok (f (trc s))) (s\<lparr>trc := c # trc s\<rparr>)"
  by (simp add: outcome_def ask_with_def)

lemmas ask_defs [run_simps, wp_simps, outcome_simps, ok_simps] = ask_ok_def ask_int_def ask_str_def tell_def

text \<open>A call through an object pointer that is null is undefined.\<close>

definition deref :: "(agent \<Rightarrow> bool) \<Rightarrow> (agent, 'a) prog \<Rightarrow> (agent, 'a) prog" where
  "deref obj m = bind (gets obj) (\<lambda>present. if present then m else crash)"

section \<open>Routines that only look\<close>

text \<open>
  \<open>quiet s s'\<close>: what a routine may change that only asks the environment. It extends the history and
  allocates the utilities and the configuration if they are not there; what is there stays as it is.
\<close>

definition quiet :: "agent \<Rightarrow> agent \<Rightarrow> bool" where
  "quiet s s' \<longleftrightarrow> (\<exists>u a b c cfg t.
     s' = s\<lparr>m_utilObj := u, ap_1 := a, ap_2 := b, m_cngObj := c, m_Config := cfg, trc := t @ trc s\<rparr> \<and>
     (m_utilObj s \<longrightarrow> u \<and> a = ap_1 s \<and> b = ap_2 s) \<and> (m_cngObj s \<longrightarrow> c \<and> cfg = m_Config s))"

lemma quietI:
  assumes "s' = s\<lparr>m_utilObj := u, ap_1 := a, ap_2 := b, m_cngObj := c, m_Config := cfg, trc := t @ trc s\<rparr>"
    "m_utilObj s \<longrightarrow> u \<and> a = ap_1 s \<and> b = ap_2 s" "m_cngObj s \<longrightarrow> c \<and> cfg = m_Config s"
  shows "quiet s s'"
  unfolding quiet_def by (intro exI conjI) (rule assms)+

lemma quietE:
  assumes "quiet s s'"
  obtains u a b c cfg t where
    "s' = s\<lparr>m_utilObj := u, ap_1 := a, ap_2 := b, m_cngObj := c, m_Config := cfg, trc := t @ trc s\<rparr>"
    "m_utilObj s \<longrightarrow> u \<and> a = ap_1 s \<and> b = ap_2 s" "m_cngObj s \<longrightarrow> c \<and> cfg = m_Config s"
  using assms unfolding quiet_def by blast

lemma quiet_trc: "quiet s (s\<lparr>trc := c # trc s\<rparr>)"
  by (rule quietI [where u = "m_utilObj s" and a = "ap_1 s" and b = "ap_2 s" and c = "m_cngObj s"
        and cfg = "m_Config s" and t = "[c]"]) simp_all

lemma quiet_refl [simp]: "quiet s s"
  by (rule quietI [where u = "m_utilObj s" and a = "ap_1 s" and b = "ap_2 s" and c = "m_cngObj s"
        and cfg = "m_Config s" and t = "[]"]) simp_all

lemma quiet_trans:
  assumes "quiet s s'" "quiet s' s''"
  shows "quiet s s''"
proof -
  obtain u a b c cfg t where 1:
    "s' = s\<lparr>m_utilObj := u, ap_1 := a, ap_2 := b, m_cngObj := c, m_Config := cfg, trc := t @ trc s\<rparr>"
    "m_utilObj s \<longrightarrow> u \<and> a = ap_1 s \<and> b = ap_2 s" "m_cngObj s \<longrightarrow> c \<and> cfg = m_Config s"
    using assms(1) by (rule quietE)
  obtain u' a' b' c' cfg' t' where 2:
    "s'' = s'\<lparr>m_utilObj := u', ap_1 := a', ap_2 := b', m_cngObj := c', m_Config := cfg', trc := t' @ trc s'\<rparr>"
    "m_utilObj s' \<longrightarrow> u' \<and> a' = ap_1 s' \<and> b' = ap_2 s'" "m_cngObj s' \<longrightarrow> c' \<and> cfg' = m_Config s'"
    using assms(2) by (rule quietE)
  show ?thesis
  proof (rule quietI [where u = u' and a = a' and b = b' and c = c' and cfg = cfg' and t = "t' @ t"])
    show "s'' = s\<lparr>m_utilObj := u', ap_1 := a', ap_2 := b', m_cngObj := c', m_Config := cfg', trc := (t' @ t) @ trc s\<rparr>"
      using 1(1) 2(1) by simp
  qed (use 1 2 in simp_all)
qed

interpretation quiet: frame quiet
  by unfold_locales (auto intro: quiet_trans)

lemma quiet_fields:
  assumes "quiet s s'"
  shows "m_shutdownOrdered s' = m_shutdownOrdered s" "m_haMode s' = m_haMode s" "m_tasksDone s' = m_tasksDone s"
    "m_compRestart s' = m_compRestart s" "m_oldhaState s' = m_oldhaState s" "m_rMgrObj s' = m_rMgrObj s"
    "m_pwrOffObj s' = m_pwrOffObj s" "m_haObj s' = m_haObj s" "haState s' = haState s" "m_map s' = m_map s"
    "m_startJobsDone s' = m_startJobsDone s" "m_isVirtual s' = m_isVirtual s" "m_drbdObj s' = m_drbdObj s"
    "m_fileObj s' = m_fileObj s" "m_immObj s' = m_immObj s" "m_pingObj s' = m_pingObj s" "m_arpObj s' = m_arpObj s"
    "m_DMObj s' = m_DMObj s" "m_assemble_force s' = m_assemble_force s" "m_aposOpts s' = m_aposOpts s"
    "f_lock s' = f_lock s" "f_rcf s' = f_rcf s" "f_persis s' = f_persis s"
  by (rule quietE [OF assms], simp)+

lemma quiet_objects:
  assumes "quiet s s'"
  shows "m_utilObj s \<Longrightarrow> m_utilObj s' \<and> ap_1 s' = ap_1 s \<and> ap_2 s' = ap_2 s"
    "m_cngObj s \<Longrightarrow> m_cngObj s' \<and> m_Config s' = m_Config s"
  by (rule quietE [OF assms], simp)+

lemma quiet_history: "quiet s s' \<Longrightarrow> suffix (trc s) (trc s')"
  by (erule quietE) (simp add: suffix_def)

lemma quiet_history_iff [simp]: "quiet s (s\<lparr>trc := t\<rparr>) \<longleftrightarrow> suffix (trc s) t"
proof
  assume "suffix (trc s) t"
  then obtain zs where "t = zs @ trc s" by (auto simp: suffix_def)
  then show "quiet s (s\<lparr>trc := t\<rparr>)"
    by (intro quietI [where u = "m_utilObj s" and a = "ap_1 s" and b = "ap_2 s" and c = "m_cngObj s"
          and cfg = "m_Config s" and t = zs]) simp_all
qed (auto dest: quiet_history)

lemma quiet_after: "quiet (s\<lparr>trc := t\<rparr>) s' \<Longrightarrow> suffix (trc s) t \<Longrightarrow> quiet s s'"
  by (rule quiet_trans) simp_all

lemma quiet_cons: "quiet (s\<lparr>trc := c # trc s\<rparr>) s' \<Longrightarrow> quiet s s'"
  by (erule quiet_after) (simp add: suffix_ConsI)

lemma quiet_cong:
  assumes "quiet s s'"
  shows "quiet (s\<lparr>m_aposOpts := x, m_assemble_force := y, f_rcf := z\<rparr>) (s'\<lparr>m_aposOpts := x, m_assemble_force := y, f_rcf := z\<rparr>)"
proof (rule quietE [OF assms])
  fix u a b c cfg t
  assume "s' = s\<lparr>m_utilObj := u, ap_1 := a, ap_2 := b, m_cngObj := c, m_Config := cfg, trc := t @ trc s\<rparr>"
    "m_utilObj s \<longrightarrow> u \<and> a = ap_1 s \<and> b = ap_2 s" "m_cngObj s \<longrightarrow> c \<and> cfg = m_Config s"
  then show ?thesis
    by (intro quietI [where u = u and a = a and b = b and c = c and cfg = cfg and t = t]) simp_all
qed

lemma quiet_ask: "keeps quiet (ask_with f c)"
  by (auto simp: keeps_def ask_with_def suffix_ConsI)

named_theorems quiet_intros "routines that only look"

lemma quiet_ask_ok: "keeps quiet (ask_ok w c)"
  by (simp add: ask_ok_def quiet_ask)

lemma quiet_ask_int: "keeps quiet (ask_int w c)"
  by (simp add: ask_int_def quiet_ask)

lemma quiet_ask_str: "keeps quiet (ask_str w c)"
  by (simp add: ask_str_def quiet_ask)

lemma quiet_tell: "keeps quiet (tell c)"
  by (simp add: tell_def quiet_ask)

lemmas quiet_asks [quiet_intros] = quiet.keeps_rules quiet_ask quiet_ask_ok quiet_ask_int quiet_ask_str quiet_tell

lemma quiet_deref [quiet_intros]: "keeps quiet m \<Longrightarrow> keeps quiet (deref f m)"
  unfolding deref_def by (intro quiet_intros)

section \<open>Routines that end\<close>

lemma ends_ask: "ends (ask_with f c)" "ends (ask_ok w c)" "ends (ask_int w c)" "ends (ask_str w c)" "ends (tell c)"
  by (auto simp: ends_def ask_with_def ask_ok_def ask_int_def ask_str_def tell_def run_simps)

lemmas ends_rules = ends_bind ends_seq ends_basic ends_if ends_when ends_ask ends_prod

section \<open>The files that outlive a run\<close>

text \<open>Neither the lock file nor the persistent file is touched.\<close>

definition same_files :: "agent \<Rightarrow> agent \<Rightarrow> bool" where
  "same_files s s' \<longleftrightarrow> f_lock s' = f_lock s \<and> f_persis s' = f_persis s"

lemma quiet_same_files: "quiet s s' \<Longrightarrow> same_files s s'"
  by (simp add: same_files_def quiet_fields)

lemma same_files_trans: "same_files s s' \<Longrightarrow> same_files s' s'' \<Longrightarrow> same_files s s''"
  by (simp add: same_files_def)

lemma same_files_refl [simp]: "same_files s s"
  by (simp add: same_files_def)

interpretation files: frame same_files
  by unfold_locales (auto intro: same_files_trans)

section \<open>A concrete environment\<close>

text \<open>Everything succeeds, numbers are 0 and there is nothing to read. It serves in examples.\<close>

definition calm_world :: aworld where
  "calm_world = \<lparr>aw_ok = (\<lambda>_ _. True), aw_int = (\<lambda>_ _. 0), aw_str = (\<lambda>_ _. None), aw_shell = (\<lambda>_ _. Status 0),
     aw_spawn = (\<lambda>_ _. PipeFailed)\<rparr>"

definition ready_agent :: agent where
  "ready_agent = agent_init\<lparr>m_haMode := True, m_rMgrObj := True, m_utilObj := True, m_cngObj := True, m_haObj := True,
     m_drbdObj := True, m_fileObj := True, m_immObj := True, m_arpObj := True\<rparr>"

lemmas example_simps = calm_world_def ready_agent_def agent_init_def default_config_def

end
