(* ===== verification/Agent_Utils.thy ===== *)
theory Agent_Utils
  imports Agent_State
begin

text \<open>
  \<^verbatim>\<open>apos_ha_agent_utils.cpp\<close>: the node id, sleeping, running commands, the reboot count file, the
  event for the alarm handler and the queries to the DRBD tools; and the access methods of
  \<^verbatim>\<open>apos_ha_agent_global.cpp\<close> for the utilities and the configuration. An access method that cannot
  allocate returns null, which every caller dereferences.
\<close>

section \<open>Access methods\<close>

definition Utils :: "aworld \<Rightarrow> (agent, unit) prog" where
  "Utils w =
     bind (gets m_utilObj) (\<lambda>present.
     if present then ret ()
     else bind (ask_ok w (New ''HA_AGENT_Utils'')) (\<lambda>ok.
     if ok then modify (\<lambda>s. s\<lparr>m_utilObj := True, ap_1 := False, ap_2 := False\<rparr>) else crash))"

definition Config :: "aworld \<Rightarrow> (agent, unit) prog" where
  "Config w =
     bind (gets m_cngObj) (\<lambda>present.
     if present then ret ()
     else bind (ask_ok w (New ''HA_AGENT_Config'')) (\<lambda>ok.
     if ok then modify (\<lambda>s. s\<lparr>m_cngObj := True, m_Config := default_config\<rparr>) else crash))"

text \<open>\<^verbatim>\<open>Config()->getConfig()\<close>.\<close>

definition getConfig :: "aworld \<Rightarrow> (agent, config) prog" where
  "getConfig w = seq (Config w) (gets m_Config)"

section \<open>The node id\<close>

text \<open>
  \<^verbatim>\<open>fscanf(fp, "%10s", buff)\<close> into \<^verbatim>\<open>char buff[10]\<close>: a word of ten characters leaves no room for the
  terminator.
\<close>

definition Ap :: "aworld \<Rightarrow> (agent, int) prog" where
  "Ap w =
     bind (ask_str w (Sys ''fopen node id'')) (\<lambda>file.
     case file of
       None \<Rightarrow> ret (-1)
     | Some content \<Rightarrow>
         (let word = take 10 (takeWhile (\<lambda>c. \<not> isspace c) (dropWhile isspace content)) in
          if word = [] then ret (-1)
          else if length word \<ge> 10 then crash
          else bind (ask_ok w (Sys ''fclose'')) (\<lambda>ok.
          if \<not> ok then ret (-1)
          else if atoi (cstr word) = 1 then seq (modify (\<lambda>s. s\<lparr>ap_1 := True\<rparr>)) (ret 0)
          else if atoi (cstr word) = 2 then seq (modify (\<lambda>s. s\<lparr>ap_2 := True\<rparr>)) (ret 0)
          else ret (-1))))"

definition Gep :: "(agent, int) prog" where
  "Gep = ret 0"

definition Utils_init :: "aworld \<Rightarrow> (agent, int) prog" where
  "Utils_init w =
     bind (Ap w) (\<lambda>rc. if rc < 0 then ret (-1) else bind Gep (\<lambda>rc. if rc < 0 then ret (-1) else ret 0))"

section \<open>Sleeping and running commands\<close>

text \<open>\<^verbatim>\<open>while (select(...) != 0) ...\<close>: the sleep is repeated until \<^verbatim>\<open>select\<close> reports the timeout.\<close>

partial_function (option) msec_sleep :: "aworld \<Rightarrow> 32 word \<Rightarrow> agent \<Rightarrow> (unit res \<times> agent) option" where
  "msec_sleep w msecs s =
     bind (ask_ok w (Sleep msecs)) (\<lambda>timeout s.
       if timeout then Some (Ok (), s) else msec_sleep w msecs s) s"

text \<open>The seconds of the child's alarm, computed in unsigned arithmetic.\<close>

definition alarm_secs :: "agent \<Rightarrow> 32 word" where
  "alarm_secs s = callbackTmout (if m_cngObj s then m_Config s else default_config) div 1000 - 1"

definition execlp :: "aworld \<Rightarrow> string \<Rightarrow> (agent, int) prog" where
  "execlp w cmdStr =
     bind (gets alarm_secs) (\<lambda>secs.
     bind (ask_with (\<lambda>t. aw_shell w t cmdStr) (Shell secs cmdStr)) (\<lambda>r.
     case r of
       ForkFailed \<Rightarrow> ret (-1)
     | ExecFailed \<Rightarrow> ret 0 \<comment> \<open>the child ends by \<^verbatim>\<open>exit(0)\<close>\<close>
     | Status status \<Rightarrow> ret (if status \<noteq> 0 then -1 else 0)))"

definition execvp :: "aworld \<Rightarrow> string list \<Rightarrow> (agent, int \<times> string option) prog" where
  "execvp w argv =
     bind (gets alarm_secs) (\<lambda>secs.
     bind (ask_with (\<lambda>t. aw_spawn w t argv) (Spawn secs argv)) (\<lambda>r.
     case r of
       PipeFailed \<Rightarrow> ret (-1, None)
     | SpawnForkFailed \<Rightarrow> ret (-1, None)
     | Spawned readable out status \<Rightarrow>
         (let out = (if readable then out else None) in
          ret (if out = None then -1 else if status \<noteq> 0 then -1 else 0, out))))"

section \<open>The reboot count file\<close>

definition FileExist :: "(agent, bool) prog" where
  "FileExist = gets (\<lambda>s. f_rcf s \<noteq> None)"

definition createRCF :: "aworld \<Rightarrow> (agent, int) prog" where
  "createRCF w =
     bind FileExist (\<lambda>present.
     if present then ret 0
     else bind (ask_ok w (Sys ''fopen RCF'')) (\<lambda>ok.
     if \<not> ok then ret (-1)
     else bind (getConfig w) (\<lambda>cfg.
     seq (modify (\<lambda>s. s\<lparr>f_rcf := Some (rebootCount cfg)\<rparr>)) (ret 0))))"

definition removeRCF :: "aworld \<Rightarrow> (agent, int) prog" where
  "removeRCF w =
     bind FileExist (\<lambda>present.
     if \<not> present then ret 0
     else bind (ask_ok w (Sys ''unlink RCF'')) (\<lambda>ok.
     if \<not> ok then ret (-1)
     else seq (modify (\<lambda>s. s\<lparr>f_rcf := None\<rparr>)) (ret 0)))"

section \<open>The event for the alarm handler\<close>

text \<open>
  The text of the event. The process id is printed into \<^verbatim>\<open>char SOURCE[26]\<close>.
\<close>

definition event_source :: "nat \<Rightarrow> string" where
  "event_source pid = ''apos_ha_rdeagentd:'' @ show_nat pid @ '' ''"

definition event_text :: "bool \<Rightarrow> nat \<Rightarrow> string" where
  "event_text on_ap1 pid =
     (if on_ap1 then ''SC-2-1 '' else ''SC-2-2 '') @ ''PASSIVE '' @ ''error '' @ ''root '' @ event_source pid @
     ''10007 '' @ ''EVENT '' @ ''0 '' @ ''P_CAUSE: DATA DISK INCONSISTENT '' @ ''CLASS_REF: APZ '' @
     ''OBJ_REF: apos_ha_rdeagentd '' @
     ''P_DATA: Non recoverable fault on Active node during data disk synchronization. No Active node found in the cluster and peer node cannot be granted as Active because of data disk on this node not consistent''"

definition fillEvent :: "aworld \<Rightarrow> (agent, string) prog" where
  "fillEvent w =
     bind (gets ap_1) (\<lambda>on_ap1.
     bind (ask_int w (Sys ''getpid'')) (\<lambda>pid.
     if length (event_source (nat pid)) < 26 then ret (event_text on_ap1 (nat pid)) else crash))"

definition APEvent :: "aworld \<Rightarrow> (agent, int) prog" where
  "APEvent w =
     bind (ask_ok w (Sys ''open AEH fifo'')) (\<lambda>ok.
     if \<not> ok then ret (-1)
     else bind (fillEvent w) (\<lambda>message.
     bind (ask_int w (Send ''AEH'' message)) (\<lambda>written.
     bind (ask_ok w (Sys ''close AEH fifo'')) (\<lambda>closed.
     ret (if written = -1 \<or> written \<noteq> int (length message) \<or> \<not> closed then -1 else 0)))))"

section \<open>Queries to the DRBD tools\<close>

text \<open>
  One line of \<^verbatim>\<open>runCommand\<close>: a carriage return or newline at the last and at the last but one
  position is cut off. A line of less than two characters is read before its start.
\<close>

definition is_eol :: "char \<Rightarrow> bool" where
  "is_eol c \<longleftrightarrow> c = CHR 0x0D \<or> c = NL"

definition strip_line :: "string \<Rightarrow> string option" where
  "strip_line l =
     (if length l < 2 then None
      else if is_eol (l ! (length l - 2)) then Some (take (length l - 2) l)
      else if is_eol (last l) then Some (butlast l)
      else Some l)"

fun join_lines :: "string list \<Rightarrow> string option" where
  "join_lines [] = Some []"
| "join_lines (l # ls) =
     (case strip_line (cstr l) of
        None \<Rightarrow> None
      | Some x \<Rightarrow> (case join_lines ls of None \<Rightarrow> None | Some y \<Rightarrow> Some (x @ y)))"

definition runCommand :: "aworld \<Rightarrow> string \<Rightarrow> (agent, bool \<times> string) prog" where
  "runCommand w command =
     bind (ask_str w (Popen command)) (\<lambda>fp.
     case fp of
       None \<Rightarrow> ret (False, [])
     | Some out \<Rightarrow>
         (case join_lines (fgets_all 9999 out) of
            None \<Rightarrow> crash
          | Some output \<Rightarrow> ret (True, output)))"

definition quoted :: "string \<Rightarrow> string" where
  "quoted str = [CHR 0x27] @ str @ [CHR 0x27]"

definition disk_state_cmd :: "string \<Rightarrow> bool \<Rightarrow> string" where
  \<open>disk_state_cmd resource isLocal =
     (if isLocal then
        ''drbdadm status '' @ resource @ '' |grep -w " disk" |awk -F : '' @ quoted ''{print $2}'' @ '' | awk '' @ quoted ''{print $1}''
      else
        ''drbdadm status '' @ resource @ '' |grep -w " peer-disk" |awk -F '' @ quoted ''peer-disk:'' @ '' '' @ quoted ''{print $2}'' @ '' | awk '' @ quoted ''{print $1}'')\<close>

definition getDiskState :: "aworld \<Rightarrow> string \<Rightarrow> bool \<Rightarrow> (agent, bool \<times> string) prog" where
  "getDiskState w resource isLocal =
     (if resource \<noteq> [] then runCommand w (disk_state_cmd resource isLocal) else ret (False, []))"

definition local_role_cmd :: "string \<Rightarrow> string" where
  \<open>local_role_cmd resource =
     ''drbdadm status '' @ resource @ '' |grep "'' @ resource @ '' role" |awk -F : '' @ quoted ''{print $2}''\<close>

definition peer_role_cmd :: "string \<Rightarrow> string \<Rightarrow> string" where
  \<open>peer_role_cmd resource peer_name =
     ''drbdadm status '' @ resource @ '' |grep -w "'' @ peer_name @ '' role" |awk -F : '' @ quoted ''{print $2}'' @ '' |awk '' @ quoted ''{print $1}''\<close>

definition getDrbdRole :: "aworld \<Rightarrow> string \<Rightarrow> bool \<Rightarrow> (agent, bool \<times> string) prog" where
  "getDrbdRole w resource isLocal =
     (if resource = [] then ret (False, [])
      else if isLocal then runCommand w (local_role_cmd resource)
      else bind (runCommand w ''cat /etc/cluster/nodes/peer/hostname'') (\<lambda>(ok, peer_name).
           if ok then runCommand w (peer_role_cmd resource peer_name) else ret (False, [])))"

definition replication_cmd :: "string \<Rightarrow> string" where
  \<open>replication_cmd resource =
     ''drbdsetup status '' @ resource @ '' --verbose | grep "replication" | awk -F "replication:" '' @ quoted ''{print $2}'' @ '' | awk '' @ quoted ''{print $1}''\<close>

definition connection_cmd :: "string \<Rightarrow> string" where
  \<open>connection_cmd resource =
     ''drbdsetup status '' @ resource @ '' --verbose | grep "connection" | awk -F "connection:" '' @ quoted ''{print $2}'' @ '' | awk '' @ quoted ''{print $1}''\<close>

definition getConnectedState :: "aworld \<Rightarrow> string \<Rightarrow> (agent, bool \<times> string) prog" where
  "getConnectedState w resource =
     (if resource = [] then ret (False, [])
      else bind (runCommand w (replication_cmd resource)) (\<lambda>(ok, temp).
      bind (if \<not> ok then ret []
            else if temp = ''Established'' \<or> temp = ''Off'' then
              bind (runCommand w (connection_cmd resource)) (\<lambda>(ok, temp). ret (if ok then temp else []))
            else ret temp) (\<lambda>state.
      ret (state \<noteq> [], state))))"

section \<open>Routines that only look\<close>

lemma quiet_Utils [quiet_intros]: "keeps quiet (Utils w)"
proof (rule keepsI)
  fix s r s' assume "Utils w s = Some (r, s')"
  then show "quiet s s' \<and> (\<forall>c. r \<noteq> Exit c)"
    by (auto simp: Utils_def run_simps ask_ok_def split: if_splits intro!: quiet_trc
        quietI [where u = True and a = False and b = False and c = "m_cngObj s" and cfg = "m_Config s" and t = "[New ''HA_AGENT_Utils'']"])
qed

lemma quiet_Config [quiet_intros]: "keeps quiet (Config w)"
proof (rule keepsI)
  fix s r s' assume "Config w s = Some (r, s')"
  then show "quiet s s' \<and> (\<forall>c. r \<noteq> Exit c)"
    by (auto simp: Config_def run_simps ask_ok_def split: if_splits intro!: quiet_trc
        quietI [where u = "m_utilObj s" and a = "ap_1 s" and b = "ap_2 s" and c = True and cfg = default_config
            and t = "[New ''HA_AGENT_Config'']"])
qed

lemma quiet_getConfig [quiet_intros]: "keeps quiet (getConfig w)"
  unfolding getConfig_def by (intro quiet_intros)

lemmas msec_sleep_induct [consumes 1, case_names step] = msec_sleep.raw_induct [rotated]

lemma quiet_msec_sleep [quiet_intros]: "keeps quiet (msec_sleep w n)"
proof (rule keepsI)
  fix s r s' assume "msec_sleep w n s = Some (r, s')"
  then have "quiet s s' \<and> r = Ok ()"
  proof (induction w n s "(r, s')" rule: msec_sleep_induct)
    case (step f w n s)
    then show ?case
      by (fastforce simp: run_simps ask_ok_def split: if_splits intro: quiet_trc quiet_trans)
  qed
  then show "quiet s s' \<and> (\<forall>c. r \<noteq> Exit c)" by simp
qed

lemma quiet_shell_case: 
  "keeps quiet a \<Longrightarrow> keeps quiet b \<Longrightarrow> (\<And>st. keeps quiet (c st)) \<Longrightarrow>
   keeps quiet (case r of ForkFailed \<Rightarrow> a | ExecFailed \<Rightarrow> b | Status st \<Rightarrow> c st)"
  by (cases r) auto

lemma quiet_execlp [quiet_intros]: "keeps quiet (execlp w cmd)"
  unfolding execlp_def by (intro quiet_intros quiet_shell_case)

lemma quiet_runCommand [quiet_intros]: "keeps quiet (runCommand w cmd)"
  unfolding runCommand_def by (intro quiet_intros)

lemma quiet_getDiskState [quiet_intros]: "keeps quiet (getDiskState w r l)"
  unfolding getDiskState_def by (intro quiet_intros)

lemma quiet_getDrbdRole [quiet_intros]: "keeps quiet (getDrbdRole w r l)"
  unfolding getDrbdRole_def by (intro quiet_intros)

lemma quiet_getConnectedState [quiet_intros]: "keeps quiet (getConnectedState w r)"
  unfolding getConnectedState_def by (intro quiet_intros)

lemma quiet_APEvent [quiet_intros]: "keeps quiet (APEvent w)"
  unfolding APEvent_def fillEvent_def by (intro quiet_intros)

lemma quiet_FileExist [quiet_intros]: "keeps quiet FileExist"
  unfolding FileExist_def by (intro quiet_intros)

section \<open>Where sleeping ends\<close>

text \<open>\<^verbatim>\<open>select\<close> reports the timeout at once, without being interrupted or failing.\<close>

definition sleeps_end :: "aworld \<Rightarrow> bool" where
  "sleeps_end w \<longleftrightarrow> (\<forall>t n. aw_ok w t (Sleep n))"

lemma run_msec_sleep [run_simps]:
  "sleeps_end w \<Longrightarrow> msec_sleep w n s = Some (Ok (), s\<lparr>trc := Sleep n # trc s\<rparr>)"
  by (subst msec_sleep.simps) (simp add: run_simps ask_ok_def sleeps_end_def)

lemma run_Utils_present [run_simps]: "m_utilObj s \<Longrightarrow> Utils w s = Some (Ok (), s)"
  by (simp add: Utils_def run_simps)

lemma wp_getConfig: "m_cngObj s \<Longrightarrow> wp (getConfig w) Q E s = Q (m_Config s) s"
  by (simp add: getConfig_def Config_def wp_simps)

lemma run_getConfig [run_simps]: "m_cngObj s \<Longrightarrow> getConfig w s = Some (Ok (m_Config s), s)"
  by (simp add: getConfig_def Config_def run_simps)

section \<open>Running commands\<close>

lemma alarm_secs_update [simp]: "alarm_secs (s\<lparr>trc := t\<rparr>) = alarm_secs s" "alarm_secs (s\<lparr>m_aposOpts := u\<rparr>) = alarm_secs s"
  by (simp_all add: alarm_secs_def)

lemma run_execlp: "execlp w cmd s =
  Some (Ok (if aw_shell w (trc s) cmd \<in> {Status 0, ExecFailed} then 0 else -1), s\<lparr>trc := Shell (alarm_secs s) cmd # trc s\<rparr>)"
  by (cases "aw_shell w (trc s) cmd") (simp_all add: execlp_def run_simps)

definition one_line :: "string \<Rightarrow> bool" where
  "one_line str \<longleftrightarrow> str \<noteq> [] \<and> length str < 9998 \<and> (\<forall>c \<in> set str. \<not> is_eol c \<and> c \<noteq> NUL)"

lemma strip_one_line: "one_line str \<Longrightarrow> strip_line (str @ [NL]) = Some str"
proof -
  assume str: "one_line str"
  then have "(str @ [NL]) ! (length str - 1) = last str" by (simp add: one_line_def nth_append last_conv_nth)
  moreover have "\<not> is_eol (last str)" using str by (auto simp: one_line_def)
  ultimately show ?thesis using str by (cases str) (auto simp: strip_line_def one_line_def is_eol_def)
qed

lemma run_runCommand:
  assumes "aw_str w (trc s) (Popen cmd) = Some (str @ [NL])" "one_line str"
  shows "runCommand w cmd s = Some (Ok (True, str), s\<lparr>trc := Popen cmd # trc s\<rparr>)"
proof -
  have n: "NL \<notin> set str" "NUL \<notin> set str" "length str + 1 < 9999" using assms(2) by (auto simp: one_line_def is_eol_def)
  have "fgets_all 9999 (str @ [NL]) = [str @ [NL]]" using fgets_all_lines [of "[str]" 9999] n by simp
  moreover have "cstr (str @ [NL]) = str @ [NL]" using n by (intro cstr_idem) auto
  ultimately have "join_lines (fgets_all 9999 (str @ [NL])) = Some str" using strip_one_line [OF assms(2)] by simp
  then show ?thesis using assms(1) by (simp add: runCommand_def run_simps ask_str_def)
qed

section \<open>The event for the alarm handler\<close>

lemma event_source_fits: "length (event_source pid) < 26 \<longleftrightarrow> pid < 1000000"
  using length_show_nat [of pid 6] length_show_nat_ge [of 6 pid]
  by (cases "pid < 1000000") (simp_all add: event_source_def not_less)

text \<open>
  C40: \<^verbatim>\<open>fillEvent\<close> can print the event exactly if the process id has at most six digits: with seven the
  source field of 26 bytes is written past its end.
\<close>

lemma fillEvent_bound:
  "(\<exists>message s'. fillEvent w s = Some (Ok message, s')) \<longleftrightarrow> nat (aw_int w (trc s) (Sys ''getpid'')) < 1000000"
  by (simp add: fillEvent_def run_simps ask_int_def event_source_fits)

lemma quiet_execvp [quiet_intros]: "keeps quiet (execvp w argv)"
  unfolding execvp_def by (rule keepsI) (auto simp: run_simps Let_def suffix_ConsI intro: quiet_trc split: spawn_res.splits)

lemma ends_access: "ends (Utils w)" "ends (getConfig w)"
  unfolding Utils_def getConfig_def Config_def by (intro ends_rules)+

lemma ends_sleep: "sleeps_end w \<Longrightarrow> ends (msec_sleep w n)"
  by (simp add: ends_def run_simps)

end
