(* ===== verification/Agent_Config.thy ===== *)
theory Agent_Config
  imports Agent_Utils
begin

text \<open>
  \<^verbatim>\<open>apos_ha_agent_config.cpp\<close>: reading the configuration file and the list of movable addresses.
  Allocating a character buffer always succeeds here.
\<close>

section \<open>The configuration file\<close>

text \<open>
  \<^verbatim>\<open>getToken\<close> moves the text between the first \<open>tok\<close> and the next white space to where \<open>tok\<close> is and
  ends the string there: the result is the token and what the line's buffer holds afterwards.
\<close>

definition getToken :: "string \<Rightarrow> char \<Rightarrow> (string \<times> string) option" where
  "getToken str tok =
     (case strchr str tok of
        None \<Rightarrow> None
      | Some q \<Rightarrow>
          (let token = takeWhile (\<lambda>c. \<not> isspace c) (tl q) in
           Some (token, takeWhile (\<lambda>c. c \<noteq> tok) str @ token)))"

text \<open>\<^verbatim>\<open>if (strstr(ch, key) != NULL) { tmp = getToken(ch, '='); ... }\<close>\<close>

definition read_key :: "string \<Rightarrow> (string \<Rightarrow> config \<Rightarrow> config) \<Rightarrow> string \<times> config \<Rightarrow> string \<times> config" where
  "read_key key set_field = (\<lambda>(ch, cfg).
     if sublist key ch then
       (case getToken ch (CHR ''='') of
          None \<Rightarrow> (ch, cfg)
        | Some (tmp, ch') \<Rightarrow> (ch', set_field tmp cfg))
     else (ch, cfg))"

definition read_keys :: "string \<times> config \<Rightarrow> string \<times> config" where
  "read_keys st =
     read_key ''AGNT_TRACE_DIR='' (\<lambda>tmp c. c\<lparr>traceDir := tmp\<rparr>) (
     read_key ''AGNT_TRACE_CATGY='' (\<lambda>tmp c. c\<lparr>traceMask := strtoull16 tmp\<rparr>) (
     read_key ''AGNT_DRBD_SUPERVISION_INTVL='' (\<lambda>tmp c. c\<lparr>drbdSupervisionIntvl := atoi tmp\<rparr>) (
     read_key ''AGNT_CALLBACK_TMOUT='' (\<lambda>tmp c. c\<lparr>callbackTmout := atoi tmp\<rparr>) (
     read_key ''AGNT_REBOOT_COUNT='' (\<lambda>tmp c. c\<lparr>rebootCount := atoi tmp\<rparr>) (
     read_key ''AGNT_REBOOT_TMOUT='' (\<lambda>tmp c. c\<lparr>rebootTmout := atoi tmp\<rparr>) (
     read_key ''AGNT_Y_MSECS='' (\<lambda>tmp c. c\<lparr>ysecs := atoi tmp\<rparr>) (
     read_key ''AGNT_X_TIMES='' (\<lambda>tmp c. c\<lparr>xtimes := atoi tmp\<rparr>) st)))))))"

definition config_line :: "string \<Rightarrow> config \<Rightarrow> config" where
  "config_line buff cfg =
     (let ch = dropWhile (\<lambda>c. c = CHR '' '' \<or> c = TAB) buff in
      if take 1 ch = ''#'' \<or> take 1 ch = [NL] then cfg
      else
        (let ch = (if CHR ''#'' \<in> set ch then takeWhile (\<lambda>c. c \<noteq> CHR ''#'') ch @ [NL] else ch) in
         snd (read_keys (ch, cfg))))"

definition parse_config :: "string \<Rightarrow> config" where
  "parse_config content = foldl (\<lambda>cfg l. config_line (cstr l) cfg) default_config (fgets_all 100 content)"

definition initLog :: "aworld \<Rightarrow> config \<Rightarrow> (agent, int) prog" where
  "initLog w tmp =
     bind (gets m_Config) (\<lambda>cur.
     bind (if traceDir tmp \<noteq> traceDir cur \<or> traceMask tmp \<noteq> traceMask cur
           then ask_ok w (Sys ''logtrace_init'') else ret True) (\<lambda>ok.
     if \<not> ok then ret (-1)
     else seq (modify (\<lambda>s. s\<lparr>m_Config := (m_Config s)\<lparr>xtimes := xtimes tmp, ysecs := ysecs tmp,
                traceMask := traceMask tmp, rebootTmout := rebootTmout tmp, rebootCount := rebootCount tmp,
                traceDir := traceDir tmp, callbackTmout := callbackTmout tmp\<rparr>\<rparr>)) (ret 0)))"

definition readConfig :: "aworld \<Rightarrow> (agent, int) prog" where
  "readConfig w =
     bind (ask_str w (Sys ''fopen config'')) (\<lambda>file.
     case file of
       None \<Rightarrow> ret (-1)
     | Some content \<Rightarrow>
         bind (initLog w (parse_config content)) (\<lambda>rc.
         bind (ask_ok w (Sys ''fclose'')) (\<lambda>closed.
         ret (if \<not> closed then -1 else rc))))"

section \<open>The movable addresses\<close>

lemma mips_rest_less: "pch \<noteq> [] \<Longrightarrow> length (dropWhile P (tl (dropWhile Q pch))) - Suc 0 < length pch"
  using length_dropWhile_le [of Q pch] length_dropWhile_le [of P "tl (dropWhile Q pch)"]
  by (cases pch) auto

text \<open>
  The loop over the output of the command: an address up to a space, an interface up to a newline,
  both copied into buffers of 256 bytes. The second component is False where the loop runs past the
  end of the text or of a buffer.
\<close>

function parse_mips :: "string \<Rightarrow> (string \<times> string) list \<times> bool" where
  "parse_mips pch =
     (if pch = [] then ([], True)
      else
        (let addr = takeWhile (\<lambda>c. c \<noteq> CHR '' '') pch; rest = dropWhile (\<lambda>c. c \<noteq> CHR '' '') pch in
         if rest = [] \<or> 255 < length addr then ([], False)
         else
           (let intf = takeWhile (\<lambda>c. c \<noteq> NL) (tl rest); rest' = dropWhile (\<lambda>c. c \<noteq> NL) (tl rest) in
            if rest' = [] \<or> 255 < length intf then ([], False)
            else (let (ms, ok) = parse_mips (tl rest') in ((addr, intf) # ms, ok)))))"
  by pat_completeness auto
termination
  by (relation "measure length") (auto simp: mips_rest_less)

declare parse_mips.simps [simp del]

definition readMips :: "aworld \<Rightarrow> (agent, int) prog" where
  "readMips w =
     seq (Utils w) (
     bind (execvp w [APOS_HA_CMD_HA_OPERATIONS, APOS_HA_CMD_GET_MIP_INFO_OPTS]) (\<lambda>(rc, out).
     if rc \<noteq> 0 then ret (-1)
     else
       (let mip_info = cstr (the out); (ms, ok) = parse_mips mip_info in
        seq (modify (\<lambda>s. s\<lparr>m_Config := (m_Config s)\<lparr>mips := ms,
               mip_size := mip_size (m_Config s) + of_nat (count_list mip_info NL)\<rparr>\<rparr>)) (
        if ok then ret 0 else crash))))"

section \<open>Reading back a configuration file\<close>

lemma sublist_key:
  assumes "c \<notin> set k" "c \<notin> set a" "c \<notin> set b"
  shows "sublist (k @ [c]) (a @ c # b) \<longleftrightarrow> suffix k a"
proof
  assume "sublist (k @ [c]) (a @ c # b)"
  then obtain p q where "a @ c # b = p @ (k @ [c]) @ q" by (auto simp: sublist_def)
  then have e: "a @ c # b = (p @ k) @ c # q" by simp
  have "count_list a c = 0" "count_list b c = 0" using assms by (simp_all add: count_list_0_iff)
  then have "count_list (p @ k) c = 0"
    using arg_cong [OF e, of "\<lambda>xs. count_list xs c"] by simp
  then have "c \<notin> set (p @ k)" by (simp only: count_list_0_iff not_False_eq_True)
  then show "suffix k a"
    using e assms by (metis append_Cons_eq_iff suffixI)
next
  assume "suffix k a"
  then obtain p where "a @ c # b = p @ (k @ [c]) @ b" by (auto simp: suffix_def)
  then show "sublist (k @ [c]) (a @ c # b)" unfolding sublist_def by blast
qed

definition plain :: "string \<Rightarrow> bool" where
  "plain tok \<longleftrightarrow> (\<forall>c \<in> set tok. \<not> isspace c \<and> c \<notin> {CHR ''='', CHR ''#'', NUL})"

lemma strchr_append: "c \<notin> set a \<Longrightarrow> strchr (a @ c # b) c = Some (c # b)"
  by (induction a) auto

lemma strchr_None: "c \<notin> set a \<Longrightarrow> strchr a c = None"
  by (induction a) auto

lemma getToken_line:
  assumes "CHR ''='' \<notin> set a" "plain tok"
  shows "getToken (a @ CHR ''='' # tok @ [NL]) (CHR ''='') = Some (tok, a @ tok)"
proof -
  have "takeWhile (\<lambda>c. \<not> isspace c) (tok @ [NL]) = tok"
    using assms(2) by (simp add: plain_def isspace_def takeWhile_append)
  moreover have "takeWhile (\<lambda>c. c \<noteq> CHR ''='') (a @ CHR ''='' # tok @ [NL]) = a"
    using assms(1) by (subst takeWhile_append2) auto
  ultimately show ?thesis
    using assms(1) by (simp add: getToken_def strchr_append)
qed

lemma read_key_line:
  assumes "CHR ''='' \<notin> set a" "plain tok" "CHR ''='' \<notin> set k" "key = k @ ''=''"
  shows "read_key key f (a @ CHR ''='' # tok @ [NL], cfg) =
     (if suffix k a then (a @ tok, f tok cfg) else (a @ CHR ''='' # tok @ [NL], cfg))"
proof -
  have "CHR ''='' \<notin> set (tok @ [NL])" using assms(2) by (auto simp: plain_def)
  then show ?thesis
    using assms sublist_key [of "CHR ''=''" k a "tok @ [NL]"] by (simp add: read_key_def getToken_line)
qed

lemma read_key_done:
  assumes "CHR ''='' \<notin> set ch" "CHR ''='' \<in> set key"
  shows "read_key key f (ch, cfg) = (ch, cfg)"
proof -
  have "\<not> sublist key ch" using assms by (meson set_mono_sublist subsetD)
  then show ?thesis by (simp add: read_key_def)
qed

lemma read_key_lines:
  assumes "CHR ''='' \<notin> set a" "plain tok"
  shows "read_key ''AGNT_X_TIMES='' f (a @ CHR ''='' # tok @ [NL], cfg) =
       (if suffix ''AGNT_X_TIMES'' a then (a @ tok, f tok cfg) else (a @ CHR ''='' # tok @ [NL], cfg))"
    "read_key ''AGNT_Y_MSECS='' f (a @ CHR ''='' # tok @ [NL], cfg) =
       (if suffix ''AGNT_Y_MSECS'' a then (a @ tok, f tok cfg) else (a @ CHR ''='' # tok @ [NL], cfg))"
    "read_key ''AGNT_REBOOT_TMOUT='' f (a @ CHR ''='' # tok @ [NL], cfg) =
       (if suffix ''AGNT_REBOOT_TMOUT'' a then (a @ tok, f tok cfg) else (a @ CHR ''='' # tok @ [NL], cfg))"
    "read_key ''AGNT_REBOOT_COUNT='' f (a @ CHR ''='' # tok @ [NL], cfg) =
       (if suffix ''AGNT_REBOOT_COUNT'' a then (a @ tok, f tok cfg) else (a @ CHR ''='' # tok @ [NL], cfg))"
    "read_key ''AGNT_CALLBACK_TMOUT='' f (a @ CHR ''='' # tok @ [NL], cfg) =
       (if suffix ''AGNT_CALLBACK_TMOUT'' a then (a @ tok, f tok cfg) else (a @ CHR ''='' # tok @ [NL], cfg))"
    "read_key ''AGNT_DRBD_SUPERVISION_INTVL='' f (a @ CHR ''='' # tok @ [NL], cfg) =
       (if suffix ''AGNT_DRBD_SUPERVISION_INTVL'' a then (a @ tok, f tok cfg) else (a @ CHR ''='' # tok @ [NL], cfg))"
    "read_key ''AGNT_TRACE_CATGY='' f (a @ CHR ''='' # tok @ [NL], cfg) =
       (if suffix ''AGNT_TRACE_CATGY'' a then (a @ tok, f tok cfg) else (a @ CHR ''='' # tok @ [NL], cfg))"
    "read_key ''AGNT_TRACE_DIR='' f (a @ CHR ''='' # tok @ [NL], cfg) =
       (if suffix ''AGNT_TRACE_DIR'' a then (a @ tok, f tok cfg) else (a @ CHR ''='' # tok @ [NL], cfg))"
  by (rule read_key_line [OF assms]; simp)+

lemma plain_no_eq: "plain tok \<Longrightarrow> CHR ''='' \<notin> set tok \<and> CHR ''#'' \<notin> set tok \<and> NUL \<notin> set tok \<and> NL \<notin> set tok"
  by (auto simp: plain_def isspace_def)

lemma read_keys_line:
  assumes "CHR ''='' \<notin> set a" "plain tok"
  shows "snd (read_keys (a @ CHR ''='' # tok @ [NL], cfg)) =
     (if suffix ''AGNT_X_TIMES'' a then cfg\<lparr>xtimes := atoi tok\<rparr> else
      if suffix ''AGNT_Y_MSECS'' a then cfg\<lparr>ysecs := atoi tok\<rparr> else
      if suffix ''AGNT_REBOOT_TMOUT'' a then cfg\<lparr>rebootTmout := atoi tok\<rparr> else
      if suffix ''AGNT_REBOOT_COUNT'' a then cfg\<lparr>rebootCount := atoi tok\<rparr> else
      if suffix ''AGNT_CALLBACK_TMOUT'' a then cfg\<lparr>callbackTmout := atoi tok\<rparr> else
      if suffix ''AGNT_DRBD_SUPERVISION_INTVL'' a then cfg\<lparr>drbdSupervisionIntvl := atoi tok\<rparr> else
      if suffix ''AGNT_TRACE_CATGY'' a then cfg\<lparr>traceMask := strtoull16 tok\<rparr> else
      if suffix ''AGNT_TRACE_DIR'' a then cfg\<lparr>traceDir := tok\<rparr> else cfg)"
  using assms plain_no_eq [OF assms(2)] by (simp add: read_keys_def read_key_lines read_key_done)

lemma config_line_line:
  assumes "take 5 a = ''AGNT_''" "CHR ''='' \<notin> set a" "CHR ''#'' \<notin> set a" "plain tok"
  shows "config_line (a @ CHR ''='' # tok @ [NL]) cfg = snd (read_keys (a @ CHR ''='' # tok @ [NL], cfg))"
proof -
  obtain b where "a = CHR ''A'' # b" using assms(1) by (cases a) auto
  then show ?thesis using assms plain_no_eq [OF assms(4)] by (simp add: config_line_def Let_def)
qed

lemma config_line_keys:
  assumes "plain tok"
  shows "config_line (''AGNT_X_TIMES'' @ CHR ''='' # tok @ [NL]) cfg = cfg\<lparr>xtimes := atoi tok\<rparr>"
    "config_line (''AGNT_Y_MSECS'' @ CHR ''='' # tok @ [NL]) cfg = cfg\<lparr>ysecs := atoi tok\<rparr>"
    "config_line (''AGNT_REBOOT_TMOUT'' @ CHR ''='' # tok @ [NL]) cfg = cfg\<lparr>rebootTmout := atoi tok\<rparr>"
    "config_line (''AGNT_REBOOT_COUNT'' @ CHR ''='' # tok @ [NL]) cfg = cfg\<lparr>rebootCount := atoi tok\<rparr>"
    "config_line (''AGNT_CALLBACK_TMOUT'' @ CHR ''='' # tok @ [NL]) cfg = cfg\<lparr>callbackTmout := atoi tok\<rparr>"
    "config_line (''AGNT_DRBD_SUPERVISION_INTVL'' @ CHR ''='' # tok @ [NL]) cfg = cfg\<lparr>drbdSupervisionIntvl := atoi tok\<rparr>"
    "config_line (''AGNT_TRACE_CATGY'' @ CHR ''='' # tok @ [NL]) cfg = cfg\<lparr>traceMask := strtoull16 tok\<rparr>"
    "config_line (''AGNT_TRACE_DIR'' @ CHR ''='' # tok @ [NL]) cfg = cfg\<lparr>traceDir := tok\<rparr>"
  by (subst config_line_line [OF _ _ _ assms]; (simp del: append.simps; fail)?; subst read_keys_line [OF _ assms]; (simp; fail)?; simp add: suffix_to_prefix)+

text \<open>The writer of the file: the mask in hexadecimal, the other numbers in decimal.\<close>

definition hex_digit :: "nat \<Rightarrow> char" where
  "hex_digit d = char_of (if d < 10 then 48 + d else 87 + d)"

fun show_hex :: "nat \<Rightarrow> string" where
  "show_hex n = (if n < 16 then [hex_digit n] else show_hex (n div 16) @ [hex_digit (n mod 16)])"

declare show_hex.simps [simp del]

definition config_entry :: "string \<times> string \<Rightarrow> string" where
  "config_entry = (\<lambda>(key, tok). key @ CHR ''='' # tok @ [NL])"

definition config_entries :: "config \<Rightarrow> (string \<times> string) list" where
  "config_entries c =
     [(''AGNT_X_TIMES'', show_nat (unat (xtimes c))), (''AGNT_Y_MSECS'', show_nat (unat (ysecs c))),
      (''AGNT_TRACE_CATGY'', show_hex (unat (traceMask c))), (''AGNT_REBOOT_TMOUT'', show_nat (unat (rebootTmout c))),
      (''AGNT_REBOOT_COUNT'', show_nat (unat (rebootCount c))), (''AGNT_TRACE_DIR'', traceDir c),
      (''AGNT_CALLBACK_TMOUT'', show_nat (unat (callbackTmout c))),
      (''AGNT_DRBD_SUPERVISION_INTVL'', show_nat (unat (drbdSupervisionIntvl c)))]"

definition print_config :: "config \<Rightarrow> string" where
  "print_config c = concat (map config_entry (config_entries c))"

lemma hex_value_digit: "d < 16 \<Longrightarrow> hex_value (hex_digit d) = Some (int d)"
proof -
  assume d: "d < 16"
  have c: "(of_char (hex_digit d) :: int) = int (of_char (hex_digit d))" by (rule of_nat_of_char [symmetric])
  have n: "(of_char (hex_digit d) :: nat) = (if d < 10 then 48 + d else 87 + d)"
    using d by (simp add: hex_digit_def)
  show ?thesis
    unfolding hex_value_def Let_def c n using d by auto
qed

lemma hex_digit_plain: "d < 16 \<Longrightarrow> \<not> isspace (hex_digit d) \<and> hex_digit d \<notin> {CHR ''='', CHR ''#'', NUL, CHR ''-'', CHR ''+'', CHR ''x'', CHR ''X''}"
proof -
  assume d: "d < 16"
  have n: "(of_char (hex_digit d) :: nat) = (if d < 10 then 48 + d else 87 + d)"
    using d by (simp add: hex_digit_def)
  then have "(of_char (hex_digit d) :: nat) \<in> {48..57} \<union> {97..102}" using d by auto
  then show ?thesis by (auto simp: isspace_def)
qed

lemma show_hex_digits: "set (show_hex n) \<subseteq> hex_digit ` {..<16}"
proof (induction n rule: show_hex.induct)
  case (1 n)
  then show ?case by (subst show_hex.simps) auto
qed

lemma show_hex_nonempty [simp]: "show_hex n \<noteq> []"
  by (subst show_hex.simps) auto

lemma show_hex_value: "foldl (\<lambda>a d. 16 * a + the (hex_value d)) 0 (show_hex n) = int n"
proof (induction n rule: show_hex.induct)
  case (1 n)
  have "int (16 * (n div 16) + n mod 16) = int n" by (simp only: mult_div_mod_eq)
  then have *: "16 * int (n div 16) + int (n mod 16) = int n" by (simp only: of_nat_add of_nat_mult of_nat_numeral)
  show ?case
  proof (cases "n < 16")
    case True
    then show ?thesis by (subst show_hex.simps) (simp add: hex_value_digit)
  next
    case False
    then show ?thesis using 1 * by (subst show_hex.simps) (simp del: of_nat_div of_nat_mod add: hex_value_digit)
  qed
qed

lemma show_hex_plain: "plain (show_hex n)"
  using show_hex_digits [of n] hex_digit_plain by (fastforce simp: plain_def)

lemma show_nat_plain: "plain (show_nat n)"
  using show_nat_digits [of n] by (auto simp: plain_def isdigit_def isspace_def)

lemma strtoull16_show: "strtoull16 (show_hex (unat (x :: 64 word))) = x"
proof -
  let ?h = "show_hex (unat x)"
  obtain c cs where c: "?h = c # cs" by (cases ?h) auto
  have all: "\<exists>d < 16. e = hex_digit d" if "e \<in> set ?h" for e using show_hex_digits [of "unat x"] that by auto
  have 1: "\<not> isspace c" "c \<noteq> CHR ''-''" "c \<noteq> CHR ''+''" using all [of c] hex_digit_plain c by auto
  have 2: "take 2 ?h \<notin> {''0x'', ''0X''}"
  proof (cases cs)
    case (Cons e es)
    then have "e \<noteq> CHR ''x'' \<and> e \<noteq> CHR ''X''" using all [of e] hex_digit_plain c by auto
    then show ?thesis using c Cons by auto
  qed (simp add: c)
  have "hex_value e \<noteq> None" if "e \<in> set ?h" for e using all [OF that] hex_value_digit by auto
  then have 3: "takeWhile (\<lambda>c. hex_value c \<noteq> None) ?h = ?h" by (simp add: takeWhile_eq_all_conv)
  have 4: "\<not> 2 ^ 64 \<le> int (unat x)" using unsigned_less [of x, where ?'a = int] by simp
  have 0: "dropWhile isspace ?h = ?h" "take 1 ?h \<noteq> ''-''" "take 1 ?h \<noteq> ''+''" using 1 by (simp_all add: c)
  show ?thesis
    unfolding strtoull16_def Let_def 0(1) using 0 2 4
    by (simp only: if_False 3 show_hex_value insert_iff empty_iff simp_thms) simp
qed

lemma length_show32: "length (show_nat (unat (x :: 32 word))) \<le> 10"
proof (rule length_show_nat)
  show "unat x < 10 ^ 10" by (rule order.strict_trans2 [OF unsigned_less [of x, where ?'a = nat]]) simp
qed simp

lemma length_show_hex: "n < 16 ^ k \<Longrightarrow> 0 < k \<Longrightarrow> length (show_hex n) \<le> k"
proof (induction n arbitrary: k rule: show_hex.induct)
  case (1 n)
  show ?case
  proof (cases "n < 16")
    case True
    then show ?thesis using "1.prems" by (subst show_hex.simps) simp
  next
    case False
    then obtain k' where k: "k = Suc k'" "0 < k'" using "1.prems" by (cases k; cases "k - 1") auto
    then have "n div 16 < 16 ^ k'" using "1.prems" by (simp add: div_less_iff_less_mult)
    then show ?thesis using "1.IH" [OF False _ k(2)] False k by (subst show_hex.simps) simp
  qed
qed

lemma length_show64: "length (show_hex (unat (x :: 64 word))) \<le> 16"
proof (rule length_show_hex)
  show "unat x < 16 ^ 16" by (rule order.strict_trans2 [OF unsigned_less [of x, where ?'a = nat]]) simp
qed simp

definition entry_ok :: "string \<times> string \<Rightarrow> bool" where
  "entry_ok = (\<lambda>(key, tok). plain tok \<and> NL \<notin> set key \<and> NUL \<notin> set key \<and> length key + length tok < 98)"

lemma parse_entries:
  assumes "\<forall>e \<in> set es. entry_ok e"
  shows "parse_config (concat (map config_entry es)) = foldl (\<lambda>cfg e. config_line (config_entry e) cfg) default_config es"
proof -
  let ?l = "\<lambda>(key, tok). key @ CHR ''='' # tok :: string"
  have e: "config_entry e = ?l e @ [NL]" for e by (cases e) (simp add: config_entry_def)
  have "NL \<notin> set (?l x) \<and> length (?l x) + 1 < 100 \<and> NUL \<notin> set (?l x)" if "x \<in> set es" for x
    using assms that plain_no_eq [of "snd x"] by (cases x) (auto simp: entry_ok_def)
  then have "\<forall>l \<in> set (map ?l es). NL \<notin> set l \<and> length l + 1 < 100" and n: "\<forall>x \<in> set es. NUL \<notin> set (?l x)" by auto
  then have "fgets_all 100 (concat (map (\<lambda>l. l @ [NL]) (map ?l es))) = map (\<lambda>l. l @ [NL]) (map ?l es)"
    by (intro fgets_all_lines)
  then have lines: "fgets_all 100 (concat (map config_entry es)) = map config_entry es"
    unfolding e by (simp add: comp_def)
  have c: "cstr (config_entry x) = config_entry x" if "x \<in> set es" for x
    using n that unfolding e by (intro cstr_idem) auto
  have "foldl (\<lambda>cfg l. config_line (cstr l) cfg) d (map config_entry es) = foldl (\<lambda>cfg e. config_line (config_entry e) cfg) d es" for d
    using c by (induction es arbitrary: d) auto
  then show ?thesis by (simp add: parse_config_def lines)
qed

text \<open>
  C22: A configuration written in the format of the file is read back unchanged, for every value of the
  numbers; the directory must fit the line and contain no white space, comment or equality sign.
\<close>

theorem parse_print_config:
  assumes "plain (traceDir c)" "length (traceDir c) \<le> 83"
  shows "parse_config (print_config c) = c\<lparr>mips := [], mip_size := 0\<rparr>"
proof -
  have n: "entry_ok (a, show_nat (unat (x :: 32 word)))" if "NL \<notin> set a" "NUL \<notin> set a" "length a < 80" for a x
    using show_nat_plain [of "unat x"] length_show32 [of x] that by (simp add: entry_ok_def)
  have "entry_ok (''AGNT_TRACE_CATGY'', show_hex (unat (traceMask c)))" "entry_ok (''AGNT_TRACE_DIR'', traceDir c)"
    using length_show64 [of "traceMask c"] show_hex_plain assms by (simp_all add: entry_ok_def)
  then have "\<forall>e \<in> set (config_entries c). entry_ok e"
    unfolding config_entries_def by (simp add: n)
  then show ?thesis
    unfolding print_config_def
    by (simp add: parse_entries)
     (simp only: config_entries_def foldl.simps config_entry_def prod.case config_line_keys show_nat_plain show_hex_plain assms(1)
        atoi_show strtoull16_show default_config_def, simp)
qed

theorem parse_print_config_witness:
  "parse_config (print_config (default_config\<lparr>traceDir := ''/tmp/'', callbackTmout := 4294967295, traceMask := 48879\<rparr>)) =
     default_config\<lparr>traceDir := ''/tmp/'', callbackTmout := 4294967295, traceMask := 48879\<rparr>"
  using parse_print_config [of "default_config\<lparr>traceDir := ''/tmp/'', callbackTmout := 4294967295, traceMask := 48879\<rparr>"]
  by (simp add: plain_def isspace_def default_config_def)

text \<open>
  Whatever the configuration file says, \<^verbatim>\<open>readConfig\<close> leaves the DRBD supervision interval as it was:
  the value that was read is not copied into the configuration.
\<close>

lemma readConfig_keeps_interval:
  "outcome (readConfig w) (\<lambda>_ s'. drbdSupervisionIntvl (m_Config s') = drbdSupervisionIntvl (m_Config s)) s"
  by (auto simp: readConfig_def initLog_def outcome_def run_simps ask_ok_def ask_str_def split: option.splits if_splits)

section \<open>Reading back the movable addresses\<close>

definition mip_line :: "string \<times> string \<Rightarrow> string" where
  "mip_line = (\<lambda>(addr, intf). addr @ '' '' @ intf @ [NL])"

definition mip_ok :: "string \<times> string \<Rightarrow> bool" where
  "mip_ok = (\<lambda>(addr, intf). CHR '' '' \<notin> set addr \<and> NL \<notin> set addr \<and> NL \<notin> set intf \<and>
     NUL \<notin> set addr \<and> NUL \<notin> set intf \<and> length addr \<le> 255 \<and> length intf \<le> 255)"

lemma split_at:
  "c \<notin> set xs \<Longrightarrow> takeWhile (\<lambda>x. x \<noteq> c) (xs @ c # ys) = xs" "c \<notin> set xs \<Longrightarrow> dropWhile (\<lambda>x. x \<noteq> c) (xs @ c # ys) = c # ys"
  by (induction xs) auto

lemma parse_mip_lines:
  "\<forall>m \<in> set ms. mip_ok m \<Longrightarrow> parse_mips (concat (map mip_line ms)) = (ms, True)"
proof (induction ms)
  case Nil
  then show ?case by (simp add: parse_mips.simps)
next
  case (Cons m ms)
  obtain addr intf where m: "m = (addr, intf)" by (cases m)
  let ?rest = "concat (map mip_line ms)"
  have "parse_mips ((addr @ CHR '' '' # intf @ NL # ?rest)) = (let (ms, ok) = parse_mips ?rest in ((addr, intf) # ms, ok))"
    using Cons.prems m by (subst parse_mips.simps) (simp add: mip_ok_def split_at)
  then show ?case using Cons m by (simp add: mip_line_def)
qed

lemma mip_lines_clean:
  assumes "\<forall>m \<in> set ms. mip_ok m"
  shows "NUL \<notin> set (concat (map mip_line ms))" "count_list (concat (map mip_line ms)) NL = length ms"
  using assms
proof (induction ms)
  case (Cons m ms)
  { case 1 then show ?case using Cons by (cases m) (auto simp: mip_ok_def mip_line_def) }
  { case 2 then show ?case using Cons by (cases m) (auto simp: mip_ok_def mip_line_def count_list_0_iff) }
qed auto

text \<open>
  C38: \<^verbatim>\<open>readMips\<close> stores exactly the addresses and interfaces that the command lists, in order, and adds
  their number to the count.
\<close>

lemma readMips_reads:
  assumes "\<forall>m \<in> set ms. mip_ok m" "m_utilObj s"
    and "\<forall>t. aw_spawn w t [APOS_HA_CMD_HA_OPERATIONS, APOS_HA_CMD_GET_MIP_INFO_OPTS] = Spawned True (Some (concat (map mip_line ms))) 0"
  shows "\<exists>s'. readMips w s = Some (Ok 0, s') \<and> mips (m_Config s') = ms \<and>
    mip_size (m_Config s') = mip_size (m_Config s) + of_nat (length ms)"
proof -
  have "cstr (concat (map mip_line ms)) = concat (map mip_line ms)" using mip_lines_clean(1) [OF assms(1)] by (rule cstr_idem)
  then show ?thesis
    using assms(2,3) parse_mip_lines [OF assms(1)] mip_lines_clean(2) [OF assms(1)]
    by (simp add: readMips_def execvp_def run_simps)
qed

lemma readMips_reads_witness:
  "\<exists>s'. readMips (calm_world\<lparr>aw_spawn := (\<lambda>_ _. Spawned True (Some (concat (map mip_line [(''10.0.0.1'', ''eth1''), (''10.0.0.2'', ''eth0'')]))) 0)\<rparr>) ready_agent
      = Some (Ok 0, s') \<and>
    mips (m_Config s') = [(''10.0.0.1'', ''eth1''), (''10.0.0.2'', ''eth0'')] \<and>
    mip_size (m_Config s') = mip_size (m_Config ready_agent) + of_nat (length [(''10.0.0.1'', ''eth1''), (''10.0.0.2'', ''eth0'')])"
  by (rule readMips_reads) (simp_all add: mip_ok_def example_simps)

end
