(* ===== verification/Agent_PowerOff.thy ===== *)
theory Agent_PowerOff
  imports Agent_Config
begin

text \<open>
  \<^verbatim>\<open>apos_ha_agent_powerOff.cpp\<close>, the information kept over a restart in a memory mapped file, and
  \<^verbatim>\<open>apos_ha_agent_lockFile.cpp\<close>. The file is a list of bytes: sixteen for the connection state, four
  for the reboot count, in the byte order of the machine.
\<close>

section \<open>Bytes of the file\<close>

definition bytes32 :: "32 word \<Rightarrow> string" where
  "bytes32 x = map (\<lambda>i. char_of (unat (drop_bit (8 * i) x) mod 256)) [0, 1, 2, 3]"

definition word_of_bytes :: "string \<Rightarrow> 32 word" where
  "word_of_bytes bs = foldr (\<lambda>b x. of_nat (of_char b) + 256 * x) bs 0"

definition persis_size :: nat where "persis_size = 20"

text \<open>\<^verbatim>\<open>memset\<close> and \<^verbatim>\<open>strcpy\<close> of the state, then the counter.\<close>

definition encode_persis :: "persis_info \<Rightarrow> string" where
  "encode_persis p = pi_cstate p @ replicate (16 - length (pi_cstate p)) NUL @ bytes32 (pi_rebootCount p)"

definition write_at_start :: "string \<Rightarrow> string \<Rightarrow> string" where
  "write_at_start bs content = bs @ drop (length bs) content"

text \<open>\<^verbatim>\<open>lseek\<close> to the last byte of the structure and \<^verbatim>\<open>write(m_fd, "", 1)\<close>.\<close>

definition extend_file :: "string \<Rightarrow> string" where
  "extend_file content =
     take (persis_size - 1) (content @ replicate (persis_size - 1) NUL) @ [NUL] @ drop persis_size content"

section \<open>The lock file\<close>

definition LFile :: "aworld \<Rightarrow> (agent, int) prog" where
  "LFile w =
     bind (ask_ok w (Sys ''open lock file'')) (\<lambda>ok.
     if \<not> ok then ret (-1) else seq (modify (\<lambda>s. s\<lparr>f_lock := True\<rparr>)) (ret 0))"

definition LFileExist :: "(agent, bool) prog" where
  "LFileExist = gets f_lock"

definition RMLFile :: "aworld \<Rightarrow> (agent, int) prog" where
  "RMLFile w =
     bind (ask_ok w (Sys ''unlink lock file'')) (\<lambda>ok.
     if \<not> ok then ret (-1) else seq (modify (\<lambda>s. s\<lparr>f_lock := False\<rparr>)) (ret 0))"

section \<open>DRBD state\<close>

text \<open>\<^verbatim>\<open>strncpy\<close> into sixteen bytes, the last of which is cleared.\<close>

definition copy16 :: "string \<Rightarrow> string" where
  "copy16 str = take 15 (cstr str)"

definition no_drbd_info :: drbd_info where
  "no_drbd_info = \<lparr>isConfigured = False, di_cstate = [], di_role = [], di_dstate = []\<rparr>"

text \<open>\<^verbatim>\<open>drbdinfo\<close> (local) and \<^verbatim>\<open>peerdrbdinfo\<close> ask for the same three values of \<^verbatim>\<open>drbd1\<close>.\<close>

definition query_drbd :: "aworld \<Rightarrow> bool \<Rightarrow> (agent, int \<times> drbd_info) prog" where
  "query_drbd w isLocal =
     seq (Utils w) (
     bind (getConnectedState w ''drbd1'') (\<lambda>(found1, cstate).
     bind (getDrbdRole w ''drbd1'' isLocal) (\<lambda>(found2, role).
     bind (getDiskState w ''drbd1'' isLocal) (\<lambda>(found3, dstate).
     ret (if found1 \<and> found2 \<and> found3 then 0 else -1,
          \<lparr>isConfigured = found1 \<and> found2 \<and> found3,
           di_cstate = (if found1 then copy16 cstate else []),
           di_role = (if found2 then copy16 role else []),
           di_dstate = (if found3 then copy16 dstate else [])\<rparr>)))))"

definition drbdinfo :: "aworld \<Rightarrow> (agent, int \<times> drbd_info) prog" where
  "drbdinfo w = query_drbd w True"

definition peerdrbdinfo :: "aworld \<Rightarrow> (agent, int \<times> drbd_info) prog" where
  "peerdrbdinfo w = query_drbd w False"

section \<open>The persistent information\<close>

definition get_persis_info :: "(agent, bool \<times> persis_info) prog" where
  "get_persis_info =
     bind (gets (\<lambda>s. (m_map s, f_persis s))) (\<lambda>(map, file).
     case (map, file) of
       (Mapped, Some content) \<Rightarrow>
         (if NUL \<in> set (take 16 content) then
            ret (True, \<lparr>pi_cstate = cstr (take 16 content), pi_rebootCount = word_of_bytes (take 4 (drop 16 content))\<rparr>)
          else crash)
     | _ \<Rightarrow> crash)"

definition write_persis_info :: "persis_info \<Rightarrow> (agent, bool) prog" where
  "write_persis_info p =
     bind (gets (\<lambda>s. (m_map s, f_persis s))) (\<lambda>(map, file).
     case (map, file) of
       (MapNull, _) \<Rightarrow> ret True
     | (Mapped, Some content) \<Rightarrow>
         (if length (pi_cstate p) < 16 then
            seq (modify (\<lambda>s. s\<lparr>f_persis := Some (write_at_start (encode_persis p) content)\<rparr>)) (ret True)
          else crash)
     | _ \<Rightarrow> crash)"

text \<open>The part of \<^verbatim>\<open>init\<close> after the open: seek and write one byte, then map.\<close>

definition extend_and_map :: "aworld \<Rightarrow> (agent, int) prog" where
  "extend_and_map w =
     bind (ask_ok w (Sys ''lseek'')) (\<lambda>ok.
     if \<not> ok then ret (-1)
     else bind (ask_ok w (Sys ''write byte'')) (\<lambda>ok.
     if \<not> ok then ret (-1)
     else seq (modify (\<lambda>s. s\<lparr>f_persis := map_option extend_file (f_persis s)\<rparr>)) (
     bind (ask_ok w (Sys ''mmap'')) (\<lambda>ok.
     if \<not> ok then seq (modify (\<lambda>s. s\<lparr>m_map := MapFailed\<rparr>)) (ret (-1))
     else seq (modify (\<lambda>s. s\<lparr>m_map := Mapped\<rparr>)) (ret 0)))))"

definition PWROff_init :: "aworld \<Rightarrow> (agent, int) prog" where
  "PWROff_init w =
     bind (gets f_persis) (\<lambda>file.
     if file \<noteq> None then
       bind (ask_int w (Sys ''open persistent info'')) (\<lambda>fd.
       seq (modify (\<lambda>s. s\<lparr>m_fd := fd\<rparr>)) (
       if fd < 0 then ret (-1) else extend_and_map w))
     else
       bind (ask_int w (Sys ''create persistent info'')) (\<lambda>fd.
       seq (modify (\<lambda>s. s\<lparr>m_fd := fd\<rparr>)) (
       if fd < 0 then seq (tell (Sys ''lseek'')) (ret (-1))
       else
         seq (modify (\<lambda>s. s\<lparr>f_persis := Some []\<rparr>)) (
         bind (extend_and_map w) (\<lambda>rc.
         if rc \<noteq> 0 then ret (-1)
         else bind (drbdinfo w) (\<lambda>(rc, info).
         if rc \<noteq> 0 then ret 0
         else bind (write_persis_info \<lparr>pi_cstate = di_cstate info, pi_rebootCount = 0\<rparr>) (\<lambda>ok.
         ret (if ok then 0 else -1))))))))"

text \<open>\<^verbatim>\<open>Global::PWROff\<close>: a failed \<^verbatim>\<open>init\<close> is only logged.\<close>

definition PWROff :: "aworld \<Rightarrow> (agent, unit) prog" where
  "PWROff w =
     bind (gets m_pwrOffObj) (\<lambda>present.
     if present then ret ()
     else bind (ask_ok w (New ''HA_AGENT_PWROff'')) (\<lambda>ok.
     if ok then
       seq (modify (\<lambda>s. s\<lparr>m_pwrOffObj := True, m_fd := -1, m_map := MapNull\<rparr>)) (
       seq (PWROff_init w) (ret ()))
     else crash))"

section \<open>Routines that only look\<close>

lemma quiet_LFileExist [quiet_intros]: "keeps quiet LFileExist"
  unfolding LFileExist_def by (intro quiet_intros)

lemma quiet_query_drbd [quiet_intros]: "keeps quiet (query_drbd w l)"
  unfolding query_drbd_def by (intro quiet_intros)

lemma quiet_drbdinfo [quiet_intros]: "keeps quiet (drbdinfo w)" "keeps quiet (peerdrbdinfo w)"
  unfolding drbdinfo_def peerdrbdinfo_def by (intro quiet_intros)+

lemma run_PWROff_present [run_simps]: "m_pwrOffObj s \<Longrightarrow> PWROff w s = Some (Ok (), s)"
  by (simp add: PWROff_def run_simps)

section \<open>Reading back the persistent information\<close>

lemma word_of_bytes_bytes32: "word_of_bytes (bytes32 x) = x"
proof -
  define n where "n = unat x"
  have x: "x = of_nat n" by (simp add: n_def)
  have n: "n < 2 ^ 32" using unsigned_less [of x, where ?'a = nat] by (simp add: n_def)
  have b: "unat (drop_bit (8 * i) x) mod 256 = n div 256 ^ i mod 256" for i
    by (simp only: unat_drop_bit_eq n_def) (simp add: drop_bit_eq_div power_mult)
  have "word_of_bytes (bytes32 x) = (of_nat (n mod 256 + 256 * (n div 256 mod 256 + 256 * (n div 65536 mod 256 + 256 * (n div 16777216 mod 256)))) :: 32 word)"
    by (simp add: word_of_bytes_def bytes32_def b [of 0, simplified] b [of 1, simplified] b [of 2, simplified] b [of 3, simplified])
  also have "n mod 256 + 256 * (n div 256 mod 256 + 256 * (n div 65536 mod 256 + 256 * (n div 16777216 mod 256))) = n"
  proof -
    have "n div 16777216 < 256" using n by (simp add: less_mult_imp_div_less)
    then have "n div 16777216 mod 256 = n div 16777216" by simp
    moreover have "n div 256 div 256 = n div 65536" "n div 65536 div 256 = n div 16777216"
      by (simp_all add: div_mult2_eq [symmetric])
    ultimately show ?thesis
      by (metis mult.commute mod_mult_div_eq)
  qed
  finally show ?thesis using x by simp
qed

lemma length_bytes32 [simp]: "length (bytes32 x) = 4"
  by (simp add: bytes32_def)

lemma encode_persis_length [simp]: "length (pi_cstate p) < 16 \<Longrightarrow> length (encode_persis p) = 20"
  by (simp add: encode_persis_def)

lemma encode_persis_parts:
  assumes "length (pi_cstate p) < 16" "NUL \<notin> set (pi_cstate p)"
  shows "NUL \<in> set (take 16 (encode_persis p @ zs))" "cstr (take 16 (encode_persis p @ zs)) = pi_cstate p"
    "word_of_bytes (take 4 (drop 16 (encode_persis p @ zs))) = pi_rebootCount p"
proof -
  obtain k where k: "16 - length (pi_cstate p) = Suc k" using assms(1) by (metis Suc_diff_Suc)
  have t: "take 16 (encode_persis p @ zs) = pi_cstate p @ replicate (16 - length (pi_cstate p)) NUL"
    using assms(1) by (simp add: encode_persis_def)
  show "NUL \<in> set (take 16 (encode_persis p @ zs))" "cstr (take 16 (encode_persis p @ zs)) = pi_cstate p"
    unfolding t k using assms by (simp_all add: cstr_no_NUL)
  show "word_of_bytes (take 4 (drop 16 (encode_persis p @ zs))) = pi_rebootCount p"
    using assms(1) by (simp add: encode_persis_def word_of_bytes_bytes32)
qed

lemma run_write_persis [run_simps]:
  "m_map s = Mapped \<Longrightarrow> f_persis s = Some content \<Longrightarrow> length (pi_cstate p) < 16 \<Longrightarrow>
   write_persis_info p s = Some (Ok True, s\<lparr>f_persis := Some (encode_persis p @ drop 20 content)\<rparr>)"
  by (simp add: write_persis_info_def run_simps write_at_start_def)

lemma run_get_persis:
  assumes "m_map s = Mapped" "f_persis s = Some (encode_persis p @ zs)" "length (pi_cstate p) < 16" "NUL \<notin> set (pi_cstate p)"
  shows "get_persis_info s = Some (Ok (True, p), s)"
  using encode_persis_parts [OF assms(3,4), of zs] assms(1,2)
  by (simp add: get_persis_info_def run_simps)

lemma bytes32_top:
  assumes "unat x < 2 ^ 24"
  shows "\<exists>bs. bytes32 x = bs @ [NUL]"
proof -
  have "unat (drop_bit 24 x) = 0" using assms by (simp only: unat_drop_bit_eq) (simp add: drop_bit_eq_div)
  then show ?thesis by (simp add: bytes32_def char_of_def)
qed

lemma extend_file_kept: "length ys = 19 \<Longrightarrow> extend_file (ys @ NUL # zs) = ys @ NUL # zs"
  by (simp add: extend_file_def persis_size_def)

lemma extend_file_encoded:
  assumes "length (pi_cstate p) < 16" "unat (pi_rebootCount p) < 2 ^ 24"
  shows "extend_file (encode_persis p @ zs) = encode_persis p @ zs"
proof -
  obtain bs where bs: "bytes32 (pi_rebootCount p) = bs @ [NUL]" using bytes32_top [OF assms(2)] by blast
  define ys where "ys = pi_cstate p @ replicate (16 - length (pi_cstate p)) NUL @ bs"
  have "length bs = 3" using length_bytes32 [of "pi_rebootCount p"] bs by simp
  then have "length ys = 19" using assms(1) by (simp add: ys_def)
  moreover have "encode_persis p @ zs = ys @ NUL # zs" by (simp add: encode_persis_def ys_def bs)
  ultimately show ?thesis by (simp only: extend_file_kept)
qed

definition persis_io_ok :: "aworld \<Rightarrow> bool" where
  "persis_io_ok w \<longleftrightarrow> (\<forall>t. aw_ok w t (New ''HA_AGENT_PWROff'') \<and> \<not> aw_int w t (Sys ''open persistent info'') < 0 \<and>
     aw_ok w t (Sys ''lseek'') \<and> aw_ok w t (Sys ''write byte'') \<and> aw_ok w t (Sys ''mmap''))"

text \<open>The state of a new process: only the files of the old one are left.\<close>

definition new_process :: "agent \<Rightarrow> agent" where
  "new_process s = agent_init\<lparr>f_persis := f_persis s, f_lock := f_lock s, trc := trc s\<rparr>"

lemma run_PWROff_existing:
  assumes "persis_io_ok w" "f_persis s = Some content" "\<not> m_pwrOffObj s"
  shows "\<exists>s'. PWROff w s = Some (Ok (), s') \<and> m_map s' = Mapped \<and> f_persis s' = Some (extend_file content)"
  using assms by (simp add: run_simps PWROff_def PWROff_init_def extend_and_map_def ask_ok_def ask_int_def persis_io_ok_def)

text \<open>
  C23: What was written is what the next process reads: the connection state and the reboot count survive
  a restart, although opening the file writes its last byte, as long as the count is below two to the
  twenty-fourth.
\<close>

theorem persis_survives_restart:
  assumes "m_map s = Mapped" "f_persis s \<noteq> None" "length (pi_cstate p) < 16" "NUL \<notin> set (pi_cstate p)"
    "unat (pi_rebootCount p) < 2 ^ 24" "persis_io_ok w"
  shows "\<exists>s' s''. write_persis_info p s = Some (Ok True, s') \<and>
    seq (PWROff w) get_persis_info (new_process s') = Some (Ok (True, p), s'')"
proof -
  obtain content where c: "f_persis s = Some content" using assms(2) by auto
  let ?s' = "s\<lparr>f_persis := Some (encode_persis p @ drop 20 content)\<rparr>"
  have w: "write_persis_info p s = Some (Ok True, ?s')" using assms c by (simp add: run_write_persis)
  obtain t where t: "PWROff w (new_process ?s') = Some (Ok (), t)" "m_map t = Mapped" "f_persis t = Some (encode_persis p @ drop 20 content)"
    using run_PWROff_existing [OF assms(6), of "new_process ?s'" "encode_persis p @ drop 20 content"] assms
    by (auto simp: new_process_def agent_init_def extend_file_encoded)
  show ?thesis using w t run_get_persis [OF t(2,3) assms(3,4)] by (auto simp: run_simps)
qed

theorem persis_survives_restart_witness:
  "\<exists>s' s''. write_persis_info \<lparr>pi_cstate = ''SyncTarget'', pi_rebootCount = 2\<rparr> (ready_agent\<lparr>m_map := Mapped, f_persis := Some []\<rparr>) = Some (Ok True, s') \<and>
    seq (PWROff calm_world) get_persis_info (new_process s') = Some (Ok (True, \<lparr>pi_cstate = ''SyncTarget'', pi_rebootCount = 2\<rparr>), s'')"
  by (rule persis_survives_restart) (simp_all add: example_simps persis_io_ok_def)

section \<open>The stored connection state\<close>

lemma take_extend_file: "16 \<le> length content \<Longrightarrow> take 16 (extend_file content) = take 16 content"
  by (simp add: extend_file_def persis_size_def)

definition stored_cstate :: "agent \<Rightarrow> string option" where
  "stored_cstate s = (case f_persis s of Some content \<Rightarrow> if 16 \<le> length content then Some (cstr (take 16 content)) else None | None \<Rightarrow> None)"

lemma stored_cstateE:
  assumes "stored_cstate s = Some c"
  obtains content where "f_persis s = Some content" "16 \<le> length content" "cstr (take 16 content) = c"
  using assms by (auto simp: stored_cstate_def split: option.splits if_splits)

lemma length_extend_file: "length (extend_file content) = max 20 (length content)"
  by (simp add: extend_file_def persis_size_def)

lemma PWROff_stored:
  assumes "stored_cstate s = Some c"
  shows "outcome (PWROff w) (\<lambda>r s'. r = Crash \<or> r = Ok () \<and> stored_cstate s' = Some c) s"
proof -
  obtain content where f: "f_persis s = Some content" "16 \<le> length content" "cstr (take 16 content) = c"
    using assms by (rule stored_cstateE)
  show ?thesis
    using f by (auto simp: PWROff_def PWROff_init_def extend_and_map_def ask_ok_def ask_int_def outcome_def run_simps
        stored_cstate_def take_extend_file length_extend_file split: if_splits)
qed

lemma get_persis_stored:
  assumes "stored_cstate s = Some c"
  shows "outcome get_persis_info (\<lambda>r s'. r = Crash \<or> (\<exists>n. r = Ok (True, \<lparr>pi_cstate = c, pi_rebootCount = n\<rparr>)) \<and> s' = s) s"
proof -
  obtain content where f: "f_persis s = Some content" "16 \<le> length content" "cstr (take 16 content) = c"
    using assms by (rule stored_cstateE)
  then show ?thesis
    by (cases "m_map s") (auto simp: get_persis_info_def outcome_def run_simps)
qed

lemma exitless_write: "keeps (\<lambda>_ _. True) (write_persis_info p)"
  by (rule keepsI) (auto simp: write_persis_info_def run_simps split: option.splits pmap.splits if_splits)

lemma exitless_extend: "keeps (\<lambda>_ _. True) (extend_and_map w)"
  unfolding extend_and_map_def
  by (intro exitless.keeps_rules keeps_modify exitless_of [where R = quiet] quiet_intros) simp_all

lemma exitless_PWROff: "keeps (\<lambda>_ _. True) (PWROff w)"
  unfolding PWROff_def PWROff_init_def
  by (intro exitless.keeps_rules keeps_modify exitless_write exitless_extend exitless_of [where R = quiet] quiet_intros) simp_all

end
