(* ===== verification/Agent_DrbdMgr.thy ===== *)
theory Agent_DrbdMgr
  imports Agent_PowerOff
begin

text \<open>
  \<^verbatim>\<open>apos_ha_agent_drbdmgr.cpp\<close>: the jobs that take and release the data disk and the addresses, and
  the health check of the disk; and \<^verbatim>\<open>apos_ha_agent_immOm.cpp\<close>: the queries to the information model
  for the state of the peer node and the kind of node.
\<close>

section \<open>Commands\<close>

text \<open>\<^verbatim>\<open>snprintf(cmdStr, APOS_HA_CMD_LEN, ...)\<close> and \<^verbatim>\<open>Utils()->_execlp(cmdStr)\<close>.\<close>

definition run_cmd :: "aworld \<Rightarrow> string \<Rightarrow> (agent, int) prog" where
  "run_cmd w cmd = seq (Utils w) (execlp w (take (APOS_HA_CMD_LEN - 1) cmd))"

definition set_assemble_force :: "bool \<Rightarrow> (agent, unit) prog" where
  "set_assemble_force flag = modify (\<lambda>s. s\<lparr>m_assemble_force := flag\<rparr>)"

definition assemble :: "aworld \<Rightarrow> (agent, int) prog" where
  "assemble w =
     bind (gets m_assemble_force) (\<lambda>force.
     bind (run_cmd w (APOS_HA_CMD_DRBDMGR @
             (if force then APOS_HA_CMD_ASSEMBLE_FORCE_OPTS else APOS_HA_CMD_ASSEMBLE_OPTS))) (\<lambda>rCode.
     seq (when_do (rCode = 0 \<and> force)
            (seq (Utils w) (seq (removeRCF w) (set_assemble_force False)))) (
     ret rCode)))"

definition aposJobs :: "aworld \<Rightarrow> (agent, int) prog" where
  "aposJobs w =
     bind (gets m_aposOpts) (\<lambda>opts. run_cmd w (APOS_HA_CMD_APOS_OPERATIONS @ '' '' @ opts))"

definition disable :: "aworld \<Rightarrow> (agent, int) prog" where
  "disable w =
     seq (modify (\<lambda>s. s\<lparr>m_aposOpts := ''--cleanup &>/dev/null''\<rparr>)) (
     seq (aposJobs w) (
     run_cmd w (APOS_HA_CMD_DRBDMGR @ APOS_HA_CMD_DISABLE_OPTS)))"

definition drbd_activate :: "aworld \<Rightarrow> (agent, int) prog" where
  "drbd_activate w = run_cmd w (APOS_HA_CMD_DRBDMGR @ APOS_HA_CMD_ACTIVATE_OPTS)"

definition setMipAddrs :: "aworld \<Rightarrow> (agent, int) prog" where
  "setMipAddrs w = run_cmd w (APOS_HA_CMD_APOS_OPERATIONS @ APOS_HA_CMD_ACTIVATE_MIP_OPTS)"

definition usetMipAddrs :: "aworld \<Rightarrow> (agent, int) prog" where
  "usetMipAddrs w = run_cmd w (APOS_HA_CMD_APOS_OPERATIONS @ APOS_HA_CMD_DEACTIVATE_MIP_OPTS)"

definition drbdStartJobs :: "aworld \<Rightarrow> (agent, int) prog" where
  "drbdStartJobs w =
     bind (assemble w) (\<lambda>rc.
     if rc \<noteq> 0 then ret (-1)
     else bind (setMipAddrs w) (\<lambda>rc.
     if rc \<noteq> 0 then ret (-1)
     else seq (modify (\<lambda>s. s\<lparr>m_aposOpts := ''--startup &>/dev/null''\<rparr>)) (
     bind (aposJobs w) (\<lambda>rc.
     ret (if rc \<noteq> 0 then -1 else 0)))))"

definition drbdStopJobs :: "aworld \<Rightarrow> (agent, int) prog" where
  "drbdStopJobs w =
     seq (modify (\<lambda>s. s\<lparr>m_aposOpts := ''--failover active &>/dev/null''\<rparr>)) (
     bind (aposJobs w) (\<lambda>rc.
     if rc \<noteq> 0 then ret (-1)
     else bind (usetMipAddrs w) (\<lambda>rc.
     if rc \<noteq> 0 then ret (-1)
     else bind (disable w) (\<lambda>rc.
     ret (if rc \<noteq> 0 then -1 else 0)))))"

section \<open>Health of the disk\<close>

definition max_retry :: nat where "max_retry = 300"

text \<open>The retry loop of \<^verbatim>\<open>drbdHealth\<close> with the number of retries that are left.\<close>

fun health_loop :: "aworld \<Rightarrow> nat \<Rightarrow> string \<Rightarrow> (agent, nat \<times> string) prog" where
  "health_loop w 0 state = ret (0, state)"
| "health_loop w (Suc k) state =
     (if state = ''UpToDate'' then ret (Suc k, state)
      else seq (tell (Sys ''sleep 1'')) (
           seq (Utils w) (
           bind (getDiskState w ''drbd1'' True) (\<lambda>(_, state). health_loop w k state))))"

definition drbdHealth :: "aworld \<Rightarrow> bool \<Rightarrow> (agent, int) prog" where
  "drbdHealth w OnStart =
     seq (Utils w) (
     bind (getDiskState w ''drbd1'' True) (\<lambda>(_, state).
     bind (getDrbdRole w ''drbd1'' True) (\<lambda>(found, disk_role).
     bind (health_loop w max_retry state) (\<lambda>(left, state).
     ret (if (if OnStart then disk_role \<noteq> ''Secondary'' \<and> disk_role \<noteq> ''Primary'' else disk_role \<noteq> ''Primary'')
             \<or> left = 0 \<and> state \<noteq> ''UpToDate'' \<or> \<not> found
          then -1 else 0)))))"

section \<open>The information model\<close>

definition peer_dn :: "string \<Rightarrow> string" where
  "peer_dn peerNodeId = ''safAmfNode=SC-'' @ peerNodeId @ '',safAmfCluster=myAmfCluster''"

text \<open>
  One read of an integer attribute: initialise, open an accessor, get, close both. The result is the
  flag \<^verbatim>\<open>rCode\<close> of the sequence and the value, if the attribute was delivered with that name.
\<close>

definition imm_read :: "aworld \<Rightarrow> string \<Rightarrow> string \<Rightarrow> (agent, bool \<times> int option) prog" where
  "imm_read w dn attr =
     bind (ask_ok w (Imm ''saImmOmInitialize'' [])) (\<lambda>ok.
     if \<not> ok then ret (False, None)
     else bind (ask_ok w (Imm ''saImmOmAccessorInitialize'' [])) (\<lambda>ok1.
     bind (if ok1 then ask_ok w (Imm ''saImmOmAccessorGet_2'' dn) else ret False) (\<lambda>ok2.
     bind (if ok2 then
             bind (ask_str w (Imm ''attrName'' dn)) (\<lambda>name.
             bind (ask_ok w (Imm ''attrValuesNumber'' dn)) (\<lambda>has_value.
             bind (ask_int w (Imm ''attrValue'' dn)) (\<lambda>v.
             bind (ask_ok w (Imm ''saImmOmAccessorFinalize'' [])) (\<lambda>ok3.
             ret (ok3, if name = Some attr then Some (if has_value then to_int32 v else -1) else None)))))
           else ret (False, None)) (\<lambda>(ok3, v).
     bind (ask_ok w (Imm ''saImmOmFinalize'' [])) (\<lambda>ok4.
     ret (ok3 \<and> ok4, v))))))"

definition peerNodeLockd :: "aworld \<Rightarrow> (agent, bool) prog" where
  "peerNodeLockd w =
     seq (Utils w) (
     bind (gets (\<lambda>s. (ap_1 s, ap_2 s))) (\<lambda>(ap1, ap2).
     if \<not> ap1 \<and> \<not> ap2 then ret False
     else bind (imm_read w (peer_dn (if ap1 then ''2'' else ''1'')) ''saAmfNodeAdminState'') (\<lambda>(rCode, v).
     ret (rCode \<and> (v = Some 2 \<or> v = Some 3)))))"

definition isVirtualNode :: "aworld \<Rightarrow> (agent, bool) prog" where
  "isVirtualNode w =
     bind (imm_read w ''axeFunctionsId=1'' ''apgShelfArchitecture'') (\<lambda>(_, v). ret (v = Some 3))"

section \<open>Routines that only look\<close>

lemma quiet_run_cmd [quiet_intros]: "keeps quiet (run_cmd w c)"
  unfolding run_cmd_def by (intro quiet_intros)

lemma quiet_aposJobs [quiet_intros]: "keeps quiet (aposJobs w)"
  unfolding aposJobs_def by (intro quiet_intros)

lemma quiet_health_loop [quiet_intros]: "keeps quiet (health_loop w k st)"
  by (induction k arbitrary: st) (auto intro!: quiet_intros)

lemma quiet_drbdHealth [quiet_intros]: "keeps quiet (drbdHealth w b)"
  unfolding drbdHealth_def by (intro quiet_intros)

lemma quiet_imm [quiet_intros]: "keeps quiet (imm_read w dn a)"
  unfolding imm_read_def by (intro quiet_intros)

lemma quiet_peerNodeLockd [quiet_intros]: "keeps quiet (peerNodeLockd w)"
  unfolding peerNodeLockd_def by (intro quiet_intros)

lemma quiet_isVirtualNode [quiet_intros]: "keeps quiet (isVirtualNode w)"
  unfolding isVirtualNode_def by (intro quiet_intros)

section \<open>Routines that only run jobs\<close>

text \<open>
  The jobs also set the options of the next command and the force flag, and may remove the reboot
  count file.
\<close>

definition jobs_only :: "agent \<Rightarrow> agent \<Rightarrow> bool" where
  "jobs_only s s' \<longleftrightarrow> quiet (s\<lparr>m_aposOpts := m_aposOpts s', m_assemble_force := m_assemble_force s', f_rcf := f_rcf s'\<rparr>) s'"

lemma quiet_jobs_only: "quiet s s' \<Longrightarrow> jobs_only s s'"
  unfolding jobs_only_def by (simp add: quiet_fields)

lemma jobs_only_trans: "jobs_only s s' \<Longrightarrow> jobs_only s' s'' \<Longrightarrow> jobs_only s s''"
  unfolding jobs_only_def using quiet_cong quiet_trans by fastforce

interpretation jobs: frame jobs_only
  by unfold_locales (auto intro: quiet_jobs_only jobs_only_trans)

lemma jobs_only_fields:
  assumes "jobs_only s s'"
  shows "m_shutdownOrdered s' = m_shutdownOrdered s" "m_haMode s' = m_haMode s" "m_tasksDone s' = m_tasksDone s"
    "m_compRestart s' = m_compRestart s" "m_oldhaState s' = m_oldhaState s" "m_rMgrObj s' = m_rMgrObj s"
    "m_pwrOffObj s' = m_pwrOffObj s" "m_haObj s' = m_haObj s" "haState s' = haState s" "m_map s' = m_map s"
    "m_startJobsDone s' = m_startJobsDone s" "m_isVirtual s' = m_isVirtual s" "m_drbdObj s' = m_drbdObj s"
    "m_fileObj s' = m_fileObj s" "m_immObj s' = m_immObj s" "m_DMObj s' = m_DMObj s"
    "f_lock s' = f_lock s" "f_persis s' = f_persis s" "suffix (trc s) (trc s')"
    "m_utilObj s \<Longrightarrow> m_utilObj s'" "m_cngObj s \<Longrightarrow> m_cngObj s' \<and> m_Config s' = m_Config s"
  using assms quiet_fields [OF assms [unfolded jobs_only_def]] quiet_objects [OF assms [unfolded jobs_only_def]]
    quiet_history [OF assms [unfolded jobs_only_def]] by auto

lemma jobs_quiet: "keeps quiet m \<Longrightarrow> keeps jobs_only m"
  by (erule keeps_mono) (rule quiet_jobs_only)

lemma jobs_modify:
  "keeps jobs_only (modify (\<lambda>s. s\<lparr>m_aposOpts := x\<rparr>))" "keeps jobs_only (modify (\<lambda>s. s\<lparr>m_assemble_force := y\<rparr>))"
  "keeps jobs_only (modify (\<lambda>s. s\<lparr>f_rcf := z\<rparr>))"
  by (auto simp: keeps_def modify_def jobs_only_def)

lemma jobs_removeRCF: "keeps jobs_only (removeRCF w)"
  unfolding removeRCF_def by (intro jobs.keeps_rules jobs_modify jobs_quiet quiet_intros)

lemma jobs_createRCF: "keeps jobs_only (createRCF w)"
  unfolding createRCF_def by (intro jobs.keeps_rules jobs_modify jobs_quiet quiet_intros)

lemma jobs_assemble: "keeps jobs_only (assemble w)"
  unfolding assemble_def set_assemble_force_def
  by (intro jobs.keeps_rules jobs_modify jobs_removeRCF jobs_quiet quiet_intros)

lemma jobs_start: "keeps jobs_only (drbdStartJobs w)"
  unfolding drbdStartJobs_def setMipAddrs_def
  by (intro jobs.keeps_rules jobs_modify jobs_assemble jobs_quiet quiet_intros)

lemma jobs_stop: "keeps jobs_only (drbdStopJobs w)"
  unfolding drbdStopJobs_def usetMipAddrs_def disable_def
  by (intro jobs.keeps_rules jobs_modify jobs_quiet quiet_intros)

lemma jobs_same_files: "jobs_only s s' \<Longrightarrow> same_files s s'"
  by (simp add: same_files_def jobs_only_fields)

section \<open>The order of the jobs\<close>

text \<open>
  What starting and stopping mean: commands that are run in turn, where a needed one that fails ends
  the list. A command that cannot be executed counts as successful.
\<close>

fun run_jobs :: "aworld \<Rightarrow> 32 word \<Rightarrow> (bool \<times> string) list \<Rightarrow> acall list \<Rightarrow> bool \<times> acall list" where
  "run_jobs w secs [] t = (True, t)"
| "run_jobs w secs ((needed, cmd) # jobs) t =
     (if needed \<and> aw_shell w t cmd \<notin> {Status 0, ExecFailed} then (False, Shell secs cmd # t)
      else run_jobs w secs jobs (Shell secs cmd # t))"

definition start_jobs :: "(bool \<times> string) list" where
  "start_jobs =
     [(True, ''/opt/ap/apos/bin/raidmgr --assemble --mount &>/dev/null''),
      (True, ''/opt/ap/apos/bin/apos_operations --activate-mips &>/dev/null''),
      (True, ''/opt/ap/apos/bin/apos_operations --startup &>/dev/null'')]"

definition stop_jobs :: "(bool \<times> string) list" where
  "stop_jobs =
     [(True, ''/opt/ap/apos/bin/apos_operations --failover active &>/dev/null''),
      (True, ''/opt/ap/apos/bin/apos_operations --deactivate-mips &>/dev/null''),
      (False, ''/opt/ap/apos/bin/apos_operations --cleanup &>/dev/null''),
      (True, ''/opt/ap/apos/bin/raidmgr --disable --unmount &>/dev/null'')]"

lemmas command_texts = APOS_HA_CMD_LEN_def APOS_HA_CMD_APOS_OPERATIONS_def APOS_HA_CMD_DRBDMGR_def APOS_HA_CMD_ASSEMBLE_OPTS_def
  APOS_HA_CMD_ACTIVATE_MIP_OPTS_def APOS_HA_CMD_DEACTIVATE_MIP_OPTS_def APOS_HA_CMD_DISABLE_OPTS_def

lemma run_start_commands:
  assumes "m_utilObj s"
  shows "\<not> m_assemble_force s \<Longrightarrow> assemble w s = execlp w ''/opt/ap/apos/bin/raidmgr --assemble --mount &>/dev/null'' s"
    "setMipAddrs w s = execlp w ''/opt/ap/apos/bin/apos_operations --activate-mips &>/dev/null'' s"
    "m_aposOpts s = ''--startup &>/dev/null'' \<Longrightarrow>
       aposJobs w s = execlp w ''/opt/ap/apos/bin/apos_operations --startup &>/dev/null'' s"
  using assms by (simp_all add: assemble_def setMipAddrs_def aposJobs_def run_cmd_def run_simps run_execlp command_texts)

lemma run_stop_commands:
  assumes "m_utilObj s"
  shows "m_aposOpts s = ''--failover active &>/dev/null'' \<Longrightarrow>
       aposJobs w s = execlp w ''/opt/ap/apos/bin/apos_operations --failover active &>/dev/null'' s"
    "usetMipAddrs w s = execlp w ''/opt/ap/apos/bin/apos_operations --deactivate-mips &>/dev/null'' s"
    "m_aposOpts s = ''--cleanup &>/dev/null'' \<Longrightarrow>
       aposJobs w s = execlp w ''/opt/ap/apos/bin/apos_operations --cleanup &>/dev/null'' s"
    "run_cmd w (APOS_HA_CMD_DRBDMGR @ APOS_HA_CMD_DISABLE_OPTS) s =
       execlp w ''/opt/ap/apos/bin/raidmgr --disable --unmount &>/dev/null'' s"
  using assms by (simp_all add: usetMipAddrs_def aposJobs_def run_cmd_def run_simps run_execlp command_texts)

text \<open>
  C29: Starting and stopping the jobs run the listed commands, whole and in that order, up to the first
  needed one that fails; the result is 0 exactly if none did.
\<close>

theorem jobs_in_order:
  assumes "m_utilObj s" "\<not> m_assemble_force s"
  shows "\<exists>s1 s2.
    drbdStartJobs w s = Some (Ok (if fst (run_jobs w (alarm_secs s) start_jobs (trc s)) then 0 else -1), s1) \<and>
    trc s1 = snd (run_jobs w (alarm_secs s) start_jobs (trc s)) \<and>
    drbdStopJobs w s = Some (Ok (if fst (run_jobs w (alarm_secs s) stop_jobs (trc s)) then 0 else -1), s2) \<and>
    trc s2 = snd (run_jobs w (alarm_secs s) stop_jobs (trc s))"
proof -
  have "\<exists>s1. drbdStartJobs w s = Some (Ok (if fst (run_jobs w (alarm_secs s) start_jobs (trc s)) then 0 else -1), s1) \<and>
    trc s1 = snd (run_jobs w (alarm_secs s) start_jobs (trc s))"
    using assms by (simp add: drbdStartJobs_def run_bind run_seq run_modify run_ret run_if run_start_commands run_execlp start_jobs_def)
  moreover have "\<exists>s2. drbdStopJobs w s = Some (Ok (if fst (run_jobs w (alarm_secs s) stop_jobs (trc s)) then 0 else -1), s2) \<and>
    trc s2 = snd (run_jobs w (alarm_secs s) stop_jobs (trc s))"
    using assms by (simp add: drbdStopJobs_def disable_def run_bind run_seq run_modify run_ret run_if run_stop_commands run_execlp stop_jobs_def)
  ultimately show ?thesis by blast
qed

theorem jobs_in_order_witness:
  "\<exists>s1 s2.
    drbdStartJobs calm_world ready_agent = Some (Ok (if fst (run_jobs calm_world (alarm_secs ready_agent) start_jobs (trc ready_agent)) then 0 else -1), s1) \<and>
    trc s1 = snd (run_jobs calm_world (alarm_secs ready_agent) start_jobs (trc ready_agent)) \<and>
    drbdStopJobs calm_world ready_agent = Some (Ok (if fst (run_jobs calm_world (alarm_secs ready_agent) stop_jobs (trc ready_agent)) then 0 else -1), s2) \<and>
    trc s2 = snd (run_jobs calm_world (alarm_secs ready_agent) stop_jobs (trc ready_agent))"
  by (rule jobs_in_order) (simp_all add: example_simps)

section \<open>Waiting for the disk\<close>

text \<open>The DRBD tools keep answering with the same disk state and role.\<close>

definition steady_disk :: "aworld \<Rightarrow> string \<Rightarrow> string \<Rightarrow> bool" where
  "steady_disk w d r \<longleftrightarrow> one_line d \<and> one_line r \<and>
     (\<forall>t. aw_str w t (Popen (disk_state_cmd ''drbd1'' True)) = Some (d @ [NL]) \<and>
          aw_str w t (Popen (local_role_cmd ''drbd1'')) = Some (r @ [NL]))"

lemma run_steady:
  assumes "steady_disk w d r"
  shows "getDiskState w ''drbd1'' True s = Some (Ok (True, d), s\<lparr>trc := Popen (disk_state_cmd ''drbd1'' True) # trc s\<rparr>)"
    "getDrbdRole w ''drbd1'' True s = Some (Ok (True, r), s\<lparr>trc := Popen (local_role_cmd ''drbd1'') # trc s\<rparr>)"
  using assms by (simp_all add: steady_disk_def getDiskState_def getDrbdRole_def run_runCommand)

lemma health_loop_up: "health_loop w k ''UpToDate'' s = Some (Ok (k, ''UpToDate''), s)"
  by (cases k) (simp_all add: run_simps)

lemma health_loop_steady:
  assumes "steady_disk w d r" "d \<noteq> ''UpToDate''"
  shows "m_utilObj s \<Longrightarrow> st \<noteq> ''UpToDate'' \<Longrightarrow> \<exists>s' st'. health_loop w k st s = Some (Ok (0, st'), s') \<and> st' \<noteq> ''UpToDate'' \<and>
     count_list (trc s') (Sys ''sleep 1'') = count_list (trc s) (Sys ''sleep 1'') + k"
proof (induction k arbitrary: s st)
  case 0
  then show ?case by (simp add: run_simps)
next
  case (Suc k)
  define s1 where "s1 = s\<lparr>trc := Popen (disk_state_cmd ''drbd1'' True) # Sys ''sleep 1'' # trc s\<rparr>"
  have "health_loop w (Suc k) st s = health_loop w k d s1"
    using Suc.prems by (simp add: run_simps tell_def run_steady [OF assms(1)] s1_def)
  moreover have "m_utilObj s1" "count_list (trc s1) (Sys ''sleep 1'') = Suc (count_list (trc s) (Sys ''sleep 1''))"
    using Suc.prems by (simp_all add: s1_def)
  ultimately show ?case using Suc.IH [of s1 d] assms(2) by auto
qed

lemma run_drbdHealth:
  assumes "steady_disk w d r" "m_utilObj s"
  shows "\<exists>s'. drbdHealth w OnStart s =
      Some (Ok (if d = ''UpToDate'' \<and> (r = ''Primary'' \<or> OnStart \<and> r = ''Secondary'') then 0 else -1), s') \<and>
    count_list (trc s') (Sys ''sleep 1'') = count_list (trc s) (Sys ''sleep 1'') + (if d = ''UpToDate'' then 0 else 300)"
proof -
  define s1 where "s1 = s\<lparr>trc := Popen (local_role_cmd ''drbd1'') # Popen (disk_state_cmd ''drbd1'' True) # trc s\<rparr>"
  have s1: "m_utilObj s1" "count_list (trc s1) (Sys ''sleep 1'') = count_list (trc s) (Sys ''sleep 1'')"
    using assms(2) by (simp_all add: s1_def)
  show ?thesis
  proof (cases "d = ''UpToDate''")
    case True
    have "health_loop w max_retry d s1 = Some (Ok (max_retry, d), s1)"
      using True health_loop_up by simp
    then show ?thesis
      using assms(2) True s1 by (auto simp: drbdHealth_def run_simps run_steady [OF assms(1)] max_retry_def s1_def [symmetric])
  next
    case False
    obtain s' st' where "health_loop w max_retry d s1 = Some (Ok (0, st'), s')" "st' \<noteq> ''UpToDate''"
      "count_list (trc s') (Sys ''sleep 1'') = count_list (trc s) (Sys ''sleep 1'') + 300"
      using health_loop_steady [OF assms(1) False s1(1) False, of max_retry] s1(2) by (auto simp: max_retry_def)
    then show ?thesis
      using assms(2) False by (auto simp: drbdHealth_def run_simps run_steady [OF assms(1)] s1_def [symmetric])
  qed
qed

text \<open>
  With a steady disk \<^verbatim>\<open>drbdHealth\<close> ends; it reports success exactly if the disk is up to date and the
  role is the required one, and it waits a second three hundred times if the disk is not up to date and
  not at all otherwise.
\<close>

lemma drbdHealth_steady:
  assumes "steady_disk w d r" "m_utilObj s"
  shows "\<exists>s'. drbdHealth w OnStart s =
      Some (Ok (if d = ''UpToDate'' \<and> (r = ''Primary'' \<or> OnStart \<and> r = ''Secondary'') then 0 else -1), s') \<and>
    count_list (trc s') (Sys ''sleep 1'') = count_list (trc s) (Sys ''sleep 1'') + (if d = ''UpToDate'' then 0 else 300)"
  using assms by (rule run_drbdHealth)

definition disk_world :: "string \<Rightarrow> string \<Rightarrow> aworld" where
  "disk_world d r = calm_world\<lparr>aw_str := (\<lambda>_ c. if c = Popen (disk_state_cmd ''drbd1'' True) then Some (d @ [NL])
     else if c = Popen (local_role_cmd ''drbd1'') then Some (r @ [NL]) else None)\<rparr>"

lemma steady_disk_world: "one_line d \<Longrightarrow> one_line r \<Longrightarrow> steady_disk (disk_world d r) d r"
  by (simp add: steady_disk_def disk_world_def disk_state_cmd_def local_role_cmd_def quoted_def)

lemma drbdHealth_steady_witness:
  "\<exists>s'. drbdHealth (disk_world ''UpToDate'' ''Secondary'') True ready_agent =
      Some (Ok (if ''UpToDate'' = ''UpToDate'' \<and> (''Secondary'' = ''Primary'' \<or> True \<and> ''Secondary'' = ''Secondary'') then 0 else -1), s') \<and>
    count_list (trc s') (Sys ''sleep 1'') = count_list (trc ready_agent) (Sys ''sleep 1'') + (if ''UpToDate'' = ''UpToDate'' then 0 else 300)"
  by (rule drbdHealth_steady [OF steady_disk_world]) (simp_all add: one_line_def is_eol_def example_simps)

end
