(* ===== verification/Agent_Probe.thy ===== *)
theory Agent_Probe
  imports Agent_DrbdMgr
begin

text \<open>
  \<^verbatim>\<open>apos_ha_agent_ping.cpp\<close> and \<^verbatim>\<open>apos_ha_agent_arping.cpp\<close>: asking whether an address answers on an
  interface, by ICMP echo on virtual nodes and by ARP elsewhere. Packets are lists of bytes; 16-bit
  fields of an ICMP packet are read in the byte order of the machine (least byte first), those of an
  ARP packet in network order. The members of the two classes are set by \<^verbatim>\<open>init\<close> and cleared at the
  end of every call, so they are arguments here.
\<close>

section \<open>Bytes and the ICMP checksum\<close>

definition byte_at :: "string \<Rightarrow> nat \<Rightarrow> nat" where
  "byte_at p i = (if i < length p then of_char (p ! i) else 0)"

definition le16 :: "string \<Rightarrow> nat \<Rightarrow> nat" where
  "le16 p i = byte_at p i + 256 * byte_at p (i + 1)"

definition be16 :: "string \<Rightarrow> nat \<Rightarrow> nat" where
  "be16 p i = 256 * byte_at p i + byte_at p (i + 1)"

definition le_bytes :: "16 word \<Rightarrow> string" where
  "le_bytes x = [char_of (unat x mod 256), char_of (unat x div 256)]"

text \<open>
  \<^verbatim>\<open>checksum\<close> on the 16-bit words of the buffer and, for an odd length, the last byte. The sum is kept
  in 32 bits.
\<close>

definition sum16 :: "16 word list \<Rightarrow> 32 word" where
  "sum16 ws = foldl (\<lambda>sum x. sum + ucast x) 0 ws"

definition checksum :: "16 word list \<Rightarrow> 8 word option \<Rightarrow> 16 word" where
  "checksum buffer odd_byte =
     (if buffer = [] \<and> odd_byte = None then 0
      else
        (let sum = sum16 buffer + (case odd_byte of None \<Rightarrow> 0 | Some b \<Rightarrow> ucast b);
             sum = drop_bit 16 sum + take_bit 16 sum;
             sum = sum + drop_bit 16 sum
         in not (ucast sum)))"

section \<open>ICMP echo\<close>

text \<open>The words of a request: type 8 and code 0, checksum, identifier, sequence number, data.\<close>

definition echo_words :: "16 word \<Rightarrow> int \<Rightarrow> int \<Rightarrow> 16 word list \<Rightarrow> 16 word list" where
  "echo_words cksum pid seqno payload = [8, cksum, word_of_int pid, word_of_int seqno] @ payload"

definition payload_words :: "string \<Rightarrow> 16 word list" where
  "payload_words junk = map (\<lambda>i. of_nat (le16 junk (2 * i))) [0..<28]"

definition echo_request :: "int \<Rightarrow> int \<Rightarrow> string \<Rightarrow> string" where
  "echo_request pid seqno junk =
     (let ws = payload_words junk; c = checksum (echo_words 0 pid seqno ws) None in
      concat (map le_bytes (echo_words c pid seqno ws)))"

text \<open>Whether a received packet is the reply: an IP header of 20 bytes, then type, identifier, number.\<close>

definition is_echo_reply :: "int \<Rightarrow> int \<Rightarrow> string \<Rightarrow> bool" where
  "is_echo_reply pid seqno packet \<longleftrightarrow>
     28 \<le> length packet \<and> byte_at packet 20 = 0 \<and> int (le16 packet 26) = seqno \<and> int (le16 packet 24) = pid"

partial_function (option) echo_wait ::
  "aworld \<Rightarrow> config \<Rightarrow> int \<Rightarrow> int \<Rightarrow> int \<Rightarrow> agent \<Rightarrow> (int res \<times> agent) option" where
  "echo_wait w cfg pid seqno start s =
     bind (ask_int w (Sys ''select ping'')) (\<lambda>retval s.
       if retval = -1 then Some (Ok (-1), s)
       else if retval = 0 then Some (Ok (-1), s)
       else
         bind (ask_str w (Sys ''recvfrom ping'')) (\<lambda>received s.
           if (case received of None \<Rightarrow> False | Some p \<Rightarrow> is_echo_reply pid seqno (take 192 p)) then Some (Ok 0, s)
           else
             bind (ask_int w (Sys ''gettimeofday'')) (\<lambda>now s.
               if uint (ysecs cfg * 1000) - (now - start) < 0 then Some (Ok (-1), s)
               else echo_wait w cfg pid seqno start s) s) s) s"

definition send_ping :: "aworld \<Rightarrow> config \<Rightarrow> int \<Rightarrow> (agent, int) prog" where
  "send_ping w cfg pingSeqNum =
     bind (ask_ok w (Sys ''malloc'')) (\<lambda>ok.
     if \<not> ok then ret (-1)
     else bind (ask_int w (Sys ''getpid'')) (\<lambda>pid.
     bind (ask_str w (Sys ''outpack'')) (\<lambda>junk.
     bind (ask_int w (Send ''icmp'' (echo_request pid pingSeqNum (case junk of None \<Rightarrow> [] | Some j \<Rightarrow> j)))) (\<lambda>bytesSent.
     if bytesSent < 0 \<or> bytesSent \<noteq> 64 then ret (-1)
     else bind (ask_int w (Sys ''gettimeofday'')) (\<lambda>start.
     echo_wait w cfg pid pingSeqNum start)))))"

definition ping_init :: "aworld \<Rightarrow> string \<Rightarrow> string \<Rightarrow> (agent, int \<times> config \<times> bool) prog" where
  "ping_init w ipAddr interface =
     bind (getConfig w) (\<lambda>cfg.
     bind (ask_ok w (Sys ''socket icmp'')) (\<lambda>sock.
     if \<not> sock then ret (-1, cfg, False)
     else bind (ask_ok w (Imm ''interface up'' interface)) (\<lambda>up.
     if \<not> up then ret (-1, cfg, True)
     else bind (ask_ok w (Imm ''SO_BINDTODEVICE'' interface)) (\<lambda>bound.
     if \<not> bound then ret (-1, cfg, True)
     else bind (ask_ok w (Imm ''getaddrinfo'' ipAddr)) (\<lambda>found.
     ret (if found then 0 else -1, cfg, True))))))"

text \<open>
  The loop of \<^verbatim>\<open>ping\<close> with the number of tries that are left, the last sequence number and the number
  of successes: two answers, or an answer to the last try.
\<close>

fun ping_loop :: "aworld \<Rightarrow> config \<Rightarrow> nat \<Rightarrow> int \<Rightarrow> nat \<Rightarrow> (agent, bool) prog" where
  "ping_loop w cfg 0 seqno successes = ret False"
| "ping_loop w cfg (Suc k) seqno successes =
     bind (send_ping w cfg (seqno + 1)) (\<lambda>rc.
     if rc = 0 then
       if successes + 1 > 1 \<or> successes + 1 = 1 \<and> k = 0 then ret True
       else seq (when_do (0 < k) (seq (Utils w) (msec_sleep w (ysecs cfg)))) (
            ping_loop w cfg k (seqno + 1) (successes + 1))
     else ping_loop w cfg k (seqno + 1) successes)"

definition ping :: "aworld \<Rightarrow> string \<Rightarrow> string \<Rightarrow> (agent, bool) prog" where
  "ping w ipAddr interface =
     bind (ping_init w ipAddr interface) (\<lambda>(rc, cfg, sock).
     bind (if rc \<noteq> 0 then ret False else ping_loop w cfg (unat (xtimes cfg)) (-1) 0) (\<lambda>reachable.
     seq (when_do sock (tell (Sys ''close''))) (ret reachable)))"

section \<open>ARP\<close>

text \<open>What \<^verbatim>\<open>init\<close> leaves in the members: own hardware address, own and other protocol address.\<close>

record arp_ctx =
  ac_config :: config
  ac_haddr :: string
  ac_src :: string
  ac_dst :: string

text \<open>The packet of \<^verbatim>\<open>send_req\<close>.\<close>

definition arp_request :: "arp_ctx \<Rightarrow> string" where
  "arp_request c =
     map char_of [0, 1, 8, 0, length (ac_haddr c), 4, 0, 1 :: nat] @
     ac_haddr c @ ac_src c @ replicate (length (ac_haddr c)) (char_of (255 :: nat)) @ ac_dst c"

datatype arp_verdict = Invalid | Ignore | Accept

text \<open>
  The checks of \<^verbatim>\<open>recv_resp\<close> on a packet of \<open>cc\<close> bytes in a zeroed buffer, with the packet type and
  the hardware type of its sender. An invalid packet ends the wait with an error, a packet for
  somebody else is skipped.
\<close>

definition arp_check :: "arp_ctx \<Rightarrow> string \<Rightarrow> nat \<Rightarrow> nat \<Rightarrow> arp_verdict" where
  "arp_check c packet pkttype hatype =
     (let hln = length (ac_haddr c); p = packet @ replicate (4096 - length packet) NUL in
      if pkttype \<notin> {0, 1, 2} then Invalid
      else if be16 p 6 \<noteq> 2 then Ignore
      else if be16 p 0 \<noteq> hatype \<and> (hatype \<noteq> 774 \<or> be16 p 0 \<noteq> 1) then Invalid
      else if be16 p 2 \<noteq> 2048 \<or> byte_at p 5 \<noteq> 4 \<or> byte_at p 4 \<noteq> hln \<or> length packet < 8 + 2 * (4 + hln) then Invalid
      else if take 4 (drop (8 + hln) p) \<noteq> ac_dst c then Ignore
      else if take 4 (drop (8 + hln + 4 + hln) p) \<noteq> ac_src c \<or> take hln (drop (8 + hln + 4) p) \<noteq> ac_haddr c then Ignore
      else Accept)"

partial_function (option) recv_resp :: "aworld \<Rightarrow> arp_ctx \<Rightarrow> agent \<Rightarrow> (int res \<times> agent) option" where
  "recv_resp w c s =
     bind (ask_int w (Sys ''select arp'')) (\<lambda>ret s.
       if ret \<le> 0 then Some (Ok (-1), s)
       else
         bind (ask_str w (Sys ''recvfrom arp'')) (\<lambda>received s.
         bind (ask_int w (Sys ''sll_pkttype'')) (\<lambda>pkttype s.
         bind (ask_int w (Sys ''sll_hatype'')) (\<lambda>hatype s.
           if received = None \<or> received = Some [] then Some (Ok (-1), s)
           else
             if arp_check c (take 4096 (the received)) (nat pkttype) (nat hatype) = Invalid then Some (Ok (-1), s)
             else if arp_check c (take 4096 (the received)) (nat pkttype) (nat hatype) = Accept then Some (Ok 0, s)
             else recv_resp w c s) s) s) s) s"

definition send_req :: "aworld \<Rightarrow> arp_ctx \<Rightarrow> (agent, int) prog" where
  "send_req w c =
     bind (ask_int w (Send ''arp'' (arp_request c))) (\<lambda>err.
     ret (if err \<noteq> int (length (arp_request c)) then -1 else 0))"

text \<open>\<^verbatim>\<open>set_srcaddr\<close>: the probe socket is closed on every path.\<close>

definition set_srcaddr :: "aworld \<Rightarrow> (agent, string option) prog" where
  "set_srcaddr w =
     bind (ask_ok w (Sys ''socket probe'')) (\<lambda>sock.
     bind (if \<not> sock then ret None
           else seq (tell (Sys ''setsockopt'')) (
           bind (ask_ok w (Sys ''SO_DONTROUTE'')) (\<lambda>ok1.
           bind (if ok1 then ask_ok w (Sys ''connect probe'') else ret False) (\<lambda>ok2.
           bind (if ok2 then ask_ok w (Sys ''getsockname probe'') else ret False) (\<lambda>ok3.
           bind (if ok3 then ask_ok w (Sys ''AF_INET'') else ret False) (\<lambda>ok4.
           if ok4 then ask_str w (Sys ''source address'') else ret None)))))) (\<lambda>src.
     seq (tell (Sys ''close probe'')) (ret src)))"

text \<open>The four bytes of an address.\<close>

definition addr4 :: "string \<Rightarrow> string" where
  "addr4 str = take 4 (str @ replicate 4 NUL)"

definition arp_init :: "aworld \<Rightarrow> string \<Rightarrow> string \<Rightarrow> (agent, arp_ctx option \<times> bool) prog" where
  "arp_init w ipAddr interface =
     bind (getConfig w) (\<lambda>cfg.
     bind (ask_ok w (Sys ''socket arp'')) (\<lambda>sock.
     if \<not> sock then ret (None, False)
     else bind (ask_ok w (Imm ''interface up'' interface)) (\<lambda>up.
     if \<not> up then ret (None, True)
     else bind (ask_ok w (Imm ''interface arpable'' interface)) (\<lambda>arpable.
     if \<not> arpable then ret (None, True)
     else bind (ask_str w (Imm ''getaddrinfo'' ipAddr)) (\<lambda>dst.
     case dst of
       None \<Rightarrow> ret (None, True)
     | Some dst \<Rightarrow>
         bind (set_srcaddr w) (\<lambda>src.
         case src of
           None \<Rightarrow> ret (None, True)
         | Some src \<Rightarrow>
             seq (tell (Sys ''bind arp'')) (
             bind (ask_str w (Sys ''getsockname arp'')) (\<lambda>haddr.
             ret (case haddr of
                    None \<Rightarrow> None
                  | Some h \<Rightarrow> if h = [] then None
                              else Some \<lparr>ac_config = cfg, ac_haddr = take 8 h, ac_src = addr4 src, ac_dst = addr4 dst\<rparr>, True)))))))))"

fun arp_loop :: "aworld \<Rightarrow> arp_ctx \<Rightarrow> nat \<Rightarrow> (agent, bool) prog" where
  "arp_loop w c 0 = ret False"
| "arp_loop w c (Suc k) =
     bind (send_req w c) (\<lambda>rc.
     if rc = 0 then
       bind (recv_resp w c) (\<lambda>rc. if rc = 0 then ret True else arp_loop w c k)
     else arp_loop w c k)"

definition arping :: "aworld \<Rightarrow> string \<Rightarrow> string \<Rightarrow> (agent, bool) prog" where
  "arping w ipAddr interface =
     bind (arp_init w ipAddr interface) (\<lambda>(ctx, sock).
     bind (case ctx of None \<Rightarrow> ret False | Some c \<Rightarrow> arp_loop w c (unat (xtimes (ac_config c)))) (\<lambda>answered.
     seq (when_do sock (tell (Sys ''close''))) (ret answered)))"

section \<open>Routines that only look\<close>

lemmas echo_wait_induct [consumes 1, case_names step] = echo_wait.raw_induct [rotated]

lemma echo_wait_quiet:
  assumes "echo_wait w cfg pid n start s = Some (r, s')"
  shows "quiet s s' \<and> r \<in> {Ok 0, Ok (-1)}"
  using assms
proof (induction w cfg pid n start s "(r, s')" rule: echo_wait_induct)
  case (step f w cfg pid n start s)
  have "quiet s s' \<and> r \<in> {Ok 0, Ok (-1)}"
    if "f w cfg pid n start (s\<lparr>trc := t\<rparr>) = Some (r, s')" "suffix (trc s) t" for t
    using step.hyps(1) [OF that(1)] that(2) by (auto intro: quiet_after)
  then show ?case
    using step.hyps(2) by (auto simp: run_simps ask_int_def ask_str_def suffix_ConsI split: if_splits option.splits)
qed

lemma quiet_echo_wait [quiet_intros]: "keeps quiet (echo_wait w cfg pid n start)"
  by (rule keepsI) (auto dest: echo_wait_quiet)

lemma quiet_send_ping [quiet_intros]: "keeps quiet (send_ping w cfg n)"
  unfolding send_ping_def by (intro quiet_intros)

lemma quiet_ping_init [quiet_intros]: "keeps quiet (ping_init w ip i)"
  unfolding ping_init_def by (intro quiet_intros)

lemma quiet_ping_loop [quiet_intros]: "keeps quiet (ping_loop w cfg k n m)"
  by (induction k arbitrary: n m) (auto intro!: quiet_intros)

lemma quiet_ping [quiet_intros]: "keeps quiet (ping w ip i)"
  unfolding ping_def by (intro quiet_intros)

lemmas recv_resp_induct [consumes 1, case_names step] = recv_resp.raw_induct [rotated]

lemma recv_resp_quiet:
  assumes "recv_resp w c s = Some (r, s')"
  shows "quiet s s' \<and> r \<in> {Ok 0, Ok (-1)}"
  using assms
proof (induction w c s "(r, s')" rule: recv_resp_induct)
  case (step f w c s)
  have "quiet s s' \<and> r \<in> {Ok 0, Ok (-1)}"
    if "f w c (s\<lparr>trc := t\<rparr>) = Some (r, s')" "suffix (trc s) t" for t
    using step.hyps(1) [OF that(1)] that(2) by (auto intro: quiet_after)
  then show ?case
    using step.hyps(2) by (auto simp: run_simps ask_int_def ask_str_def suffix_ConsI split: if_splits)
qed

lemma quiet_recv_resp [quiet_intros]: "keeps quiet (recv_resp w c)"
  by (rule keepsI) (auto dest: recv_resp_quiet)

lemma quiet_send_req [quiet_intros]: "keeps quiet (send_req w c)"
  unfolding send_req_def by (intro quiet_intros)

lemma quiet_set_srcaddr [quiet_intros]: "keeps quiet (set_srcaddr w)"
  unfolding set_srcaddr_def by (intro quiet_intros)

lemma quiet_arp_init [quiet_intros]: "keeps quiet (arp_init w ip i)"
  unfolding arp_init_def by (intro quiet_intros)

lemma quiet_arp_loop [quiet_intros]: "keeps quiet (arp_loop w c k)"
  by (induction k) (auto intro!: quiet_intros)

lemma quiet_arping [quiet_intros]: "keeps quiet (arping w ip i)"
  unfolding arping_def by (intro quiet_intros)

section \<open>The interface to the split brain algorithm\<close>

text \<open>
  The role manager relies on this of a prober: asking changes nothing but the history, and where
  nobody answers the result is False. The lemma in the locale is what its callers use.
\<close>

definition no_answer :: "aworld \<Rightarrow> bool" where
  "no_answer w \<longleftrightarrow> (\<forall>t. aw_int w t (Sys ''select arp'') \<le> 0 \<and> aw_int w t (Sys ''select ping'') \<in> {0, -1})"

locale prober =
  fixes w :: aworld and ask :: "string \<Rightarrow> string \<Rightarrow> (agent, bool) prog"
  assumes ask_quiet: "keeps quiet (ask ip intf)"
    and ask_silent: "no_answer w \<Longrightarrow> m_cngObj s \<Longrightarrow> wp (ask ip intf) (\<lambda>found _. \<not> found) (\<lambda>_ _. False) s"
begin

lemma ask_alone:
  assumes "no_answer w" "m_cngObj s" "obj s"
  shows "wp (deref obj (ask ip intf)) (\<lambda>found s'. \<not> found \<and> quiet s s') (\<lambda>_ _. False) s"
  using wp_keeps [OF ask_silent ask_quiet, OF assms(1,2)] assms(3) by (simp add: deref_def wp_simps)

end

lemma echo_wait_silent: "no_answer w \<Longrightarrow> wp (echo_wait w cfg pid n start) (\<lambda>rc _. rc = -1) (\<lambda>_ _. False) s"
  by (subst wp_def, subst echo_wait.simps) (auto simp: run_simps ask_int_def no_answer_def)

lemma send_ping_silent: "no_answer w \<Longrightarrow> wp (send_ping w cfg n) (\<lambda>rc _. rc = -1) (\<lambda>_ _. False) s"
  by (simp add: send_ping_def wp_simps echo_wait_silent)

lemma ping_loop_silent: "no_answer w \<Longrightarrow> wp (ping_loop w cfg k n m) (\<lambda>found _. \<not> found) (\<lambda>_ _. False) s"
proof (induction k arbitrary: n m s)
  case (Suc k)
  show ?case
    unfolding ping_loop.simps wp_bind
    by (rule wp_mono [OF send_ping_silent]) (use Suc in auto)
qed (simp add: wp_simps)

lemma ping_silent: "no_answer w \<Longrightarrow> m_cngObj s \<Longrightarrow> wp (ping w ip i) (\<lambda>found _. \<not> found) (\<lambda>_ _. False) s"
  by (auto simp: ping_def ping_init_def wp_simps wp_getConfig intro: wp_mono [OF ping_loop_silent])

interpretation ping_prober: prober w "ping w" for w
  by unfold_locales (auto intro: quiet_intros ping_silent)

lemma recv_resp_silent: "no_answer w \<Longrightarrow> wp (recv_resp w c) (\<lambda>rc _. rc = -1) (\<lambda>_ _. False) s"
  by (subst wp_def, subst recv_resp.simps) (auto simp: run_simps ask_int_def no_answer_def)

lemma arp_loop_silent: "no_answer w \<Longrightarrow> wp (arp_loop w c k) (\<lambda>found _. \<not> found) (\<lambda>_ _. False) s"
proof (induction k arbitrary: s)
  case (Suc k)
  then show ?case
    by (auto simp: wp_simps send_req_def intro: wp_mono [OF recv_resp_silent])
qed (simp add: wp_simps)

lemma set_srcaddr_returns: "(\<And>src s'. quiet s s' \<Longrightarrow> Q src s') \<Longrightarrow> wp (set_srcaddr w) Q E s"
proof -
  assume Q: "\<And>src s'. quiet s s' \<Longrightarrow> Q src s'"
  have "wp (set_srcaddr w) (\<lambda>_ _. True) E s" by (simp add: set_srcaddr_def wp_simps)
  from wp_keeps [OF this quiet_set_srcaddr] show ?thesis by (rule wp_mono) (use Q in auto)
qed

lemma arp_init_returns: "m_cngObj s \<Longrightarrow> wp (arp_init w ip i) (\<lambda>_ _. True) (\<lambda>_ _. False) s"
  by (auto simp: arp_init_def wp_simps wp_getConfig wp_option intro!: set_srcaddr_returns split: option.splits)

lemma arping_silent: "no_answer w \<Longrightarrow> m_cngObj s \<Longrightarrow> wp (arping w ip i) (\<lambda>found _. \<not> found) (\<lambda>_ _. False) s"
  unfolding arping_def wp_bind
  by (rule wp_mono [OF arp_init_returns])
    (auto simp: wp_prod wp_simps wp_option intro: wp_mono [OF arp_loop_silent] split: option.splits)

interpretation arp_prober: prober w "arping w" for w
  by unfold_locales (auto intro: quiet_intros arping_silent)

section \<open>ARP requests and replies\<close>

text \<open>The reply of a host with hardware address \<open>h2\<close> to the request of \<open>c\<close>.\<close>

definition arp_reply :: "arp_ctx \<Rightarrow> string \<Rightarrow> string" where
  "arp_reply c h2 =
     map char_of [0, 1, 8, 0, length (ac_haddr c), 4, 0, 2 :: nat] @ h2 @ ac_dst c @ ac_haddr c @ ac_src c"

definition arp_wf :: "arp_ctx \<Rightarrow> bool" where
  "arp_wf c \<longleftrightarrow> 0 < length (ac_haddr c) \<and> length (ac_haddr c) \<le> 8 \<and> length (ac_src c) = 4 \<and> length (ac_dst c) = 4"

lemma arp_header:
  fixes op :: nat
  assumes "n < 256" "op < 256"
  shows "byte_at (map char_of [0, 1, 8, 0, n, 4, 0, op] @ ys) 4 = n" "byte_at (map char_of [0, 1, 8, 0, n, 4, 0, op] @ ys) 5 = 4"
    "be16 (map char_of [0, 1, 8, 0, n, 4, 0, op] @ ys) 0 = 1" "be16 (map char_of [0, 1, 8, 0, n, 4, 0, op] @ ys) 2 = 2048"
    "be16 (map char_of [0, 1, 8, 0, n, 4, 0, op] @ ys) 6 = op"
  using assms by (simp_all add: byte_at_def be16_def)

lemma arp_fields:
  assumes "length hdr = 8" "length h2 = n" "length dst = 4" "length h = n" "length src = 4"
  shows "take 4 (drop (8 + n) (hdr @ h2 @ dst @ h @ src @ zs)) = dst"
    "take 4 (drop (8 + n + 4 + n) (hdr @ h2 @ dst @ h @ src @ zs)) = src"
    "take n (drop (8 + n + 4) (hdr @ h2 @ dst @ h @ src @ zs)) = h"
  using assms by simp_all

lemma arp_check_reply:
  assumes "arp_wf c" "length h2 = length (ac_haddr c)" "k \<in> {0, 1, 2}"
  shows "arp_check c (arp_reply c h2) k 1 = Accept \<and> arp_check c (arp_request c) k 1 \<noteq> Accept"
proof -
  define n where "n = length (ac_haddr c)"
  have n: "n < 256" using assms(1) by (simp add: arp_wf_def n_def)
  define hdr where "hdr op = map char_of [0, 1, 8, 0, n, 4, 0, op]" for op :: nat
  define pad where "pad p = replicate (4096 - length p) NUL" for p :: string
  have p: "arp_reply c h2 = hdr 2 @ h2 @ ac_dst c @ ac_haddr c @ ac_src c"
    by (simp add: arp_reply_def hdr_def n_def)
  have q: "arp_request c = hdr 1 @ ac_haddr c @ ac_src c @ replicate n (char_of (255 :: nat)) @ ac_dst c"
    by (simp add: arp_request_def hdr_def n_def)
  have hdr: "length (hdr op) = 8" for op by (simp add: hdr_def)
  have d: "take 4 (drop (8 + n) (arp_reply c h2 @ zs)) = ac_dst c"
    "take 4 (drop (8 + n + 4 + n) (arp_reply c h2 @ zs)) = ac_src c"
    "take n (drop (8 + n + 4) (arp_reply c h2 @ zs)) = ac_haddr c" for zs
    unfolding p append_assoc
    by (rule arp_fields [OF hdr]; use assms(1,2) in \<open>simp add: arp_wf_def n_def\<close>)+
  have l: "length (arp_reply c h2) = 8 + 2 * (4 + n)"
    using assms by (simp add: p hdr arp_wf_def n_def)
  have h: "byte_at (arp_reply c h2 @ zs) 4 = n" "byte_at (arp_reply c h2 @ zs) 5 = 4" "be16 (arp_reply c h2 @ zs) 0 = 1"
    "be16 (arp_reply c h2 @ zs) 2 = 2048" "be16 (arp_reply c h2 @ zs) 6 = 2" for zs
    unfolding p append_assoc hdr_def by (rule arp_header [OF n], simp)+
  have "arp_check c (arp_reply c h2) k 1 = Accept"
    using assms(3) unfolding arp_check_def Let_def n_def [symmetric] h d by (simp add: l)
  moreover have "be16 (arp_request c @ zs) 6 = 1" for zs
    unfolding q append_assoc hdr_def by (rule arp_header(5) [OF n]) simp
  then have "arp_check c (arp_request c) k 1 \<noteq> Accept"
    using assms(3) by (auto simp: arp_check_def Let_def)
  ultimately show ?thesis by simp
qed

text \<open>
  The reply of the asked host to an ARP request is accepted, with the packet delivered to this host,
  as broadcast or as multicast; a request, also one's own, is never taken for a reply.
\<close>

lemma arp_reply_accepted:
  assumes "arp_wf c" "length h2 = length (ac_haddr c)" "k \<in> {0, 1, 2}"
  shows "arp_check c (arp_reply c h2) k 1 = Accept \<and> arp_check c (arp_request c) k 1 \<noteq> Accept"
  using assms by (rule arp_check_reply)

text \<open>An example.\<close>

definition demo_ctx :: arp_ctx where
  "demo_ctx = \<lparr>ac_config = default_config, ac_haddr = ''abcdef'', ac_src = ''srcA'', ac_dst = ''dstB''\<rparr>"

lemma arp_reply_accepted_witness:
  "arp_check demo_ctx (arp_reply demo_ctx ''uvwxyz'') 0 1 = Accept \<and> arp_check demo_ctx (arp_request demo_ctx) 0 1 \<noteq> Accept"
  by (rule arp_reply_accepted) (simp_all add: demo_ctx_def arp_wf_def)

section \<open>An answering peer\<close>

text \<open>The environment of a native node whose peer holds the asked address and answers.\<close>

definition arp_peer :: "aworld \<Rightarrow> arp_ctx \<Rightarrow> string \<Rightarrow> bool" where
  "arp_peer w c h2 \<longleftrightarrow> arp_wf c \<and> length h2 = length (ac_haddr c) \<and>
     (\<forall>t. aw_ok w t (Sys ''socket arp'') \<and> (\<forall>i. aw_ok w t (Imm ''interface up'' i) \<and> aw_ok w t (Imm ''interface arpable'' i)) \<and>
       (\<forall>ip. aw_str w t (Imm ''getaddrinfo'' ip) = Some (ac_dst c)) \<and>
       aw_ok w t (Sys ''socket probe'') \<and> aw_ok w t (Sys ''SO_DONTROUTE'') \<and> aw_ok w t (Sys ''connect probe'') \<and>
       aw_ok w t (Sys ''getsockname probe'') \<and> aw_ok w t (Sys ''AF_INET'') \<and>
       aw_str w t (Sys ''source address'') = Some (ac_src c) \<and> aw_str w t (Sys ''getsockname arp'') = Some (ac_haddr c) \<and>
       (\<forall>p. aw_int w t (Send ''arp'' p) = int (length p)) \<and> aw_int w t (Sys ''select arp'') = 1 \<and>
       aw_str w t (Sys ''recvfrom arp'') = Some (arp_reply c h2) \<and> aw_int w t (Sys ''sll_pkttype'') = 0 \<and> aw_int w t (Sys ''sll_hatype'') = 1)"

lemma addr4_id: "length a = 4 \<Longrightarrow> addr4 a = a"
  by (simp add: addr4_def)

lemma arp_init_peer:
  assumes "arp_peer w c h2" "m_cngObj s" "ac_config c = m_Config s"
  shows "wp (arp_init w ip i) (\<lambda>(ctx, sock) _. ctx = Some c) (\<lambda>_ _. False) s"
  using assms by (auto simp: arp_init_def set_srcaddr_def wp_simps wp_getConfig wp_option arp_peer_def arp_wf_def addr4_id)

lemma recv_resp_peer:
  assumes "arp_peer w c h2"
  shows "wp (recv_resp w c) (\<lambda>rc _. rc = 0) (\<lambda>_ _. False) s"
proof -
  have l: "take 4096 (arp_reply c h2) = arp_reply c h2" "arp_reply c h2 \<noteq> []"
    using assms by (auto simp: arp_reply_def arp_peer_def arp_wf_def)
  have "arp_check c (arp_reply c h2) 0 1 = Accept"
    using arp_check_reply assms by (simp add: arp_peer_def)
  then show ?thesis
    using assms by (subst wp_def, subst recv_resp.simps) (simp add: run_simps ask_int_def ask_str_def arp_peer_def l)
qed

lemma arping_peer:
  assumes "arp_peer w c h2" "m_cngObj s" "ac_config c = m_Config s" "xtimes (m_Config s) \<noteq> 0"
  shows "wp (arping w ip i) (\<lambda>found _. found) (\<lambda>_ _. False) s"
proof -
  obtain k where k: "unat (xtimes (ac_config c)) = Suc k"
    using assms(3,4) by (metis unat_eq_zero not0_implies_Suc)
  have "wp (arp_loop w c (Suc k)) (\<lambda>found _. found) (\<lambda>_ _. False) s'" for s'
    using assms(1) by (auto simp: wp_simps send_req_def arp_peer_def intro: wp_mono [OF recv_resp_peer [OF assms(1)]])
  then have loop: "wp (arp_loop w c (unat (xtimes (ac_config c)))) (\<lambda>found _. found) (\<lambda>_ _. False) s'" for s'
    by (simp add: k)
  show ?thesis
    unfolding arping_def wp_bind
    by (rule wp_mono [OF arp_init_peer [OF assms(1-3)]])
      (auto simp: wp_prod wp_bind wp_seq wp_when wp_ret wp_ask_with tell_def wp_option intro!: wp_mono [OF loop])
qed

section \<open>The checksum of an echo request\<close>

text \<open>The folded sum of the words as a natural number: their sum modulo 65535, and never 0.\<close>

definition fold16 :: "nat \<Rightarrow> nat" where
  "fold16 x = (let y = x div 65536 + x mod 65536 in (y + y div 65536) mod 65536)"

lemma fold16_range:
  assumes "0 < x" "x < 2 ^ 32"
  shows "0 < fold16 x" "fold16 x \<le> 65535" "fold16 x mod 65535 = x mod 65535"
proof -
  define q r where "q = x div 65536" and "r = x mod 65536"
  have x: "x = 65536 * q + r" by (simp add: q_def r_def)
  have r: "r < 65536" by (simp add: r_def)
  have q: "q < 65536" using assms(2) x by simp
  have m: "(q + r) mod 65535 = x mod 65535"
  proof -
    have "x = (q + r) + 65535 * q" using x by simp
    then show ?thesis by (metis mod_mult_self2)
  qed
  have f: "fold16 x = (q + r + (q + r) div 65536) mod 65536" by (simp add: fold16_def q_def r_def Let_def)
  have pos: "0 < q + r" using assms(1) x by (cases q) auto
  show "0 < fold16 x" "fold16 x \<le> 65535" "fold16 x mod 65535 = x mod 65535"
  proof (atomize (full), cases "q + r < 65536")
    case True
    then show "0 < fold16 x \<and> fold16 x \<le> 65535 \<and> fold16 x mod 65535 = x mod 65535" using f pos m by simp
  next
    case False
    define k where "k = q + r - 65535"
    have k: "q + r = k + 65535" "0 < k" "k < 65536" using False q r by (simp_all add: k_def)
    have d: "(k + 65535) div 65536 = 1" using k(2,3) by (simp add: div_nat_eqI)
    have "(k + 65535 + 1) mod 65536 = k" using k(3) by simp
    then have "fold16 x = k" using f k(1) d by simp
    moreover have "k mod 65535 = x mod 65535" using m k(1) by simp
    ultimately show "0 < fold16 x \<and> fold16 x \<le> 65535 \<and> fold16 x mod 65535 = x mod 65535" using k by simp
  qed
qed

lemma fold16_complement:
  assumes "0 < x" "x < 2 ^ 31"
  shows "fold16 (x + (65535 - fold16 x)) = 65535"
proof -
  have a: "fold16 x \<le> 65535" "fold16 x mod 65535 = x mod 65535" using fold16_range [of x] assms by auto
  define y where "y = x + (65535 - fold16 x)"
  have y: "0 < y" "y < 2 ^ 32" using assms by (simp_all add: y_def)
  have "(y + fold16 x) mod 65535 = x mod 65535" using a(1) by (simp add: y_def)
  then have "(y + fold16 x) mod 65535 = fold16 x mod 65535" using a(2) by simp
  then have "65535 dvd y" by (metis add_diff_cancel_right' le_add2 mod_eq_dvd_iff_nat)
  then have "fold16 y mod 65535 = 0" using fold16_range(3) [OF y] by (simp add: dvd_eq_mod_eq_0)
  then show ?thesis
    using fold16_range(1,2) [OF y] unfolding y_def [symmetric]
    by (metis dvd_imp_le le_antisym mod_0_imp_dvd)
qed

definition word_total :: "16 word list \<Rightarrow> nat" where
  "word_total ws = sum_list (map unat ws)"

lemma sum16_total: "sum16 ws = of_nat (word_total ws)"
proof -
  have "foldl (\<lambda>sum x. sum + ucast x) (a :: 32 word) ws = a + of_nat (word_total ws)" for a
    by (induction ws arbitrary: a) (simp_all add: word_total_def unsigned_of_nat [symmetric] add.assoc)
  then show ?thesis by (simp add: sum16_def)
qed

lemma drop16_of_nat: "n < 2 ^ 32 \<Longrightarrow> drop_bit 16 (of_nat n :: 32 word) = of_nat (n div 65536)"
  by (rule word_unat_eq_iff [THEN iffD2]) (simp only: unat_drop_bit_eq unat_of_nat, simp add: drop_bit_eq_div take_bit_eq_mod)

lemma take16_of_nat: "take_bit 16 (of_nat n :: 32 word) = of_nat (n mod 65536)"
  by (rule word_unat_eq_iff [THEN iffD2]) (simp only: unsigned_take_bit_eq unat_of_nat, simp add: take_bit_eq_mod mod_mod_cancel)

lemma ucast16_of_nat: "(ucast (of_nat n :: 32 word) :: 16 word) = of_nat n"
  by (rule word_unat_eq_iff [THEN iffD2]) (simp add: unsigned_ucast_eq unat_of_nat take_bit_eq_mod mod_mod_cancel)

lemma not_of_nat: "n \<le> 65535 \<Longrightarrow> not (of_nat n :: 16 word) = of_nat (65535 - n)"
  by (simp add: of_nat_diff not_eq_complement)

lemma of_nat_mod16: "(of_nat n :: 16 word) = of_nat (n mod 65536)"
  by (rule word_unat_eq_iff [THEN iffD2]) (simp add: unat_of_nat take_bit_eq_mod)

lemma checksum_total:
  assumes "ws \<noteq> []" "word_total ws < 2 ^ 32"
  shows "checksum ws None = of_nat (65535 - fold16 (word_total ws))"
proof -
  define S where "S = word_total ws"
  define y where "y = S div 65536 + S mod 65536"
  have y: "y < 2 ^ 32" using assms(2) by (simp add: y_def S_def)
  have y2: "y + y div 65536 < 2 ^ 32" using assms(2) by (simp add: y_def S_def)
  have 1: "drop_bit 16 (of_nat S :: 32 word) + take_bit 16 (of_nat S) = of_nat y"
    using assms(2) by (simp add: S_def drop16_of_nat take16_of_nat y_def)
  have 2: "(of_nat y :: 32 word) + drop_bit 16 (of_nat y) = of_nat (y + y div 65536)" using y by (simp add: drop16_of_nat)
  have 3: "(ucast (of_nat (y + y div 65536) :: 32 word) :: 16 word) = of_nat (fold16 S)"
    unfolding fold16_def y_def [symmetric] Let_def
    by (subst of_nat_mod16 [symmetric]) (rule ucast16_of_nat)
  have "checksum ws None = not (ucast (of_nat (y + y div 65536) :: 32 word))"
    using assms(1) unfolding checksum_def Let_def sum16_total S_def [symmetric] by (simp only: option.case add_0_right 1 2) simp
  also have "\<dots> = of_nat (65535 - fold16 S)"
    unfolding 3 by (rule not_of_nat) (simp add: fold16_def Let_def)
  finally show ?thesis by (simp add: S_def)
qed

lemma word_total_bound: "word_total ws \<le> 65535 * length ws"
proof (induction ws)
  case (Cons x ws)
  have "unat x \<le> 65535" using unsigned_less [of x, where ?'a = nat] by simp
  then show ?case using Cons by (simp add: word_total_def)
qed (simp add: word_total_def)

lemma echo_words_total: "word_total (echo_words c pid seqno ws) = unat c + word_total (echo_words 0 pid seqno ws)"
  by (simp add: echo_words_def word_total_def)

lemma echo_words_verify:
  assumes "length ws \<le> 30000"
  shows "checksum (echo_words (checksum (echo_words 0 pid seqno ws) None) pid seqno ws) None = 0"
proof -
  define S where "S = word_total (echo_words 0 pid seqno ws)"
  have S: "0 < S" "S < 2 ^ 31"
    using word_total_bound [of "echo_words 0 pid seqno ws"] assms by (simp_all add: S_def echo_words_def word_total_def)
  define c :: "16 word" where "c = checksum (echo_words 0 pid seqno ws) None"
  have c: "c = of_nat (65535 - fold16 S)" unfolding c_def S_def
    by (rule checksum_total) (use S in \<open>simp_all add: echo_words_def S_def\<close>)
  have uc: "unat c = 65535 - fold16 S" unfolding c unat_of_nat by (simp add: take_bit_eq_mod)
  have "checksum (echo_words c pid seqno ws) None = of_nat (65535 - fold16 (word_total (echo_words c pid seqno ws)))"
    by (rule checksum_total) (use S uc in \<open>simp_all add: echo_words_total [of c] S_def [symmetric]\<close>, simp add: echo_words_def)
  also have "word_total (echo_words c pid seqno ws) = S + (65535 - fold16 S)"
    using uc by (simp add: echo_words_total [of c] S_def)
  also have "fold16 (S + (65535 - fold16 S)) = 65535" using S by (rule fold16_complement)
  finally show ?thesis by (simp add: c_def)
qed

lemma length_echo_request: "length (echo_request pid seqno junk) = 64"
  by (simp add: echo_request_def echo_words_def payload_words_def le_bytes_def length_concat comp_def Let_def sum_list_triv)


section \<open>When a ping ends, and when it cannot succeed\<close>

lemma le16_less: "le16 p i < 65536"
proof -
  have "(of_char c :: nat) < 256" for c by simp
  then have "byte_at p i < 256" for i by (simp add: byte_at_def)
  from this [of i] this [of "i + 1"] show ?thesis by (simp add: le16_def)
qed

lemma echo_wait_no_reply:
  assumes "65536 \<le> pid" "echo_wait w cfg pid n start s = Some (r, s')"
  shows "r = Ok (-1)"
  using assms(2,1)
proof (induction w cfg pid n start s "(r, s')" rule: echo_wait_induct)
  case (step f w cfg pid n start s)
  have "\<not> is_echo_reply pid n p" for p using le16_less [of p 24] step.prems by (auto simp: is_echo_reply_def)
  then show ?case
    using step.hyps(2) step.hyps(1) [OF _ step.prems] by (auto simp: run_simps ask_int_def ask_str_def split: if_splits option.splits)
qed

lemma send_ping_no_reply:
  assumes "\<forall>t. 65536 \<le> aw_int w t (Sys ''getpid'')" "send_ping w cfg n s = Some (r, s')"
  shows "r = Ok (-1)"
  using assms(2) echo_wait_no_reply [OF spec [OF assms(1)]]
  by (auto simp: send_ping_def run_simps ask_ok_def ask_int_def ask_str_def split: if_splits)

lemma ping_loop_no_reply:
  assumes "\<forall>t. 65536 \<le> aw_int w t (Sys ''getpid'')" "ping_loop w cfg k n m s = Some (r, s')"
  shows "r = Ok False"
  using assms(2)
proof (induction k arbitrary: n m s)
  case (Suc k)
  then show ?case by (auto simp: run_simps dest!: send_ping_no_reply [OF assms(1)] split: option.splits res.splits)
qed (simp add: run_simps)

text \<open>
  On a system that gives the agent a process id above 65535 no ping ever succeeds, whoever answers:
  the reply carries sixteen bits of the id and is compared with all of it.
\<close>

lemma ping_no_reply:
  assumes "\<forall>t. 65536 \<le> aw_int w t (Sys ''getpid'')"
  shows "outcome (ping w ip intf) (\<lambda>r s'. r = Ok False \<or> r = Crash) s"
proof (rule outcomeI)
  fix r s' assume run: "ping w ip intf s = Some (r, s')"
  have i: "\<forall>c. q \<noteq> Exit c" if "ping_init w ip intf s = Some (q, t)" for q t
    using that keeps_no_exit [OF quiet_ping_init] by blast
  show "r = Ok False \<or> r = Crash"
    using run i unfolding ping_def
    by (auto simp: run_simps dest!: ping_loop_no_reply [OF assms] split: option.splits res.splits if_splits)
qed

lemma ping_no_reply_witness:
  "outcome (ping (calm_world\<lparr>aw_int := \<lambda>_ _. 70000\<rparr>) ''10.0.0.1'' ''eth0'') (\<lambda>r s'. r = Ok False \<or> r = Crash) ready_agent"
  by (rule ping_no_reply) (simp add: calm_world_def)

text \<open>The clock advances by at least a microsecond for every call to the outside.\<close>

definition clock_runs :: "aworld \<Rightarrow> bool" where
  "clock_runs w \<longleftrightarrow> (\<forall>t. int (length t) \<le> aw_int w t (Sys ''gettimeofday''))"

lemma echo_wait_ends:
  assumes "clock_runs w"
  shows "\<exists>r s'. echo_wait w cfg pid n start s = Some (r, s')"
proof (induction "nat (start + uint (ysecs cfg * 1000) + 1 - int (length (trc s)))" arbitrary: s rule: less_induct)
  case less
  define s1 where "s1 = s\<lparr>trc := Sys ''recvfrom ping'' # Sys ''select ping'' # trc s\<rparr>"
  define now where "now = aw_int w (trc s1) (Sys ''gettimeofday'')"
  define s2 where "s2 = s1\<lparr>trc := Sys ''gettimeofday'' # trc s1\<rparr>"
  show ?case
  proof (cases "uint (ysecs cfg * 1000) - (now - start) < 0")
    case True
    then show ?thesis
      by (subst echo_wait.simps) (simp add: run_simps ask_int_def ask_str_def s1_def now_def)
  next
    case False
    have "int (length (trc s1)) \<le> now" using assms by (simp add: clock_runs_def now_def)
    then have "int (length (trc s)) \<le> start + uint (ysecs cfg * 1000)" using False by (simp add: s1_def)
    then have "nat (start + uint (ysecs cfg * 1000) + 1 - int (length (trc s2))) < nat (start + uint (ysecs cfg * 1000) + 1 - int (length (trc s)))"
      by (simp add: s1_def s2_def)
    then have "\<exists>r s'. echo_wait w cfg pid n start s2 = Some (r, s')" by (rule less.hyps)
    then show ?thesis
      by (subst echo_wait.simps) (simp add: run_simps ask_int_def ask_str_def s1_def s2_def now_def)
  qed
qed

lemma ends_echo_wait: "clock_runs w \<Longrightarrow> ends (echo_wait w cfg pid n start)"
  using echo_wait_ends by (fastforce simp: ends_def)

lemma ends_ping_loop: "clock_runs w \<Longrightarrow> sleeps_end w \<Longrightarrow> ends (ping_loop w cfg k n m)"
  by (induction k arbitrary: n m) (auto simp: send_ping_def intro!: ends_rules ends_access ends_sleep ends_echo_wait)

text \<open>
  C34: A ping ends, even if packets that are not the reply keep coming in, as long as the clock advances
  and sleeping ends.
\<close>

theorem ping_terminates:
  assumes "clock_runs w" "sleeps_end w"
  shows "\<exists>r s'. ping w ip intf s = Some (r, s')"
proof -
  have "ends (ping w ip intf)"
    unfolding ping_def ping_init_def
    by (intro ends_rules ends_access ends_ping_loop [OF assms])
  then show ?thesis by (auto simp: ends_def)
qed

theorem ping_terminates_witness:
  "\<exists>r s'. ping (calm_world\<lparr>aw_int := \<lambda>t _. int (length t)\<rparr>) ''10.0.0.1'' ''eth0'' ready_agent = Some (r, s')"
  by (rule ping_terminates) (simp_all add: clock_runs_def sleeps_end_def calm_world_def)

end
