(* ===== verification/Agent_Global.thy ===== *)
theory Agent_Global
  imports Agent_DrbdMgr
begin

text \<open>
  \<^verbatim>\<open>apos_ha_agent_global.cpp\<close>: the flags shared by the threads, and the operations that end or restart
  the agent: shutting down, failing over, rebooting. They and \<^verbatim>\<open>shutDown_all\<close> of the role manager call
  each other. Threads are modelled by their bodies, run one at a time; what another thread does to the
  shared flags while this one waits is an answer of the environment.
\<close>

section \<open>Start and stop jobs\<close>

definition StartJobs :: "aworld \<Rightarrow> (agent, int) prog" where
  "StartJobs w =
     bind (deref m_drbdObj (drbdStartJobs w)) (\<lambda>rc.
     if rc < 0 then ret (-1)
     else seq (modify (\<lambda>s. s\<lparr>m_startJobsDone := True\<rparr>)) (ret 0))"

definition StopJobs :: "aworld \<Rightarrow> (agent, int) prog" where
  "StopJobs w = bind (deref m_drbdObj (drbdStopJobs w)) (\<lambda>rc. ret (if rc < 0 then -1 else 0))"

section \<open>Rebooting, failing over, shutting down\<close>

text \<open>\<^verbatim>\<open>m_utilObj->msec_sleep(m_cngObj->getConfig().rebootTmout)\<close>\<close>

definition reboot_sleep :: "aworld \<Rightarrow> (agent, unit) prog" where
  "reboot_sleep w =
     deref m_utilObj (deref m_cngObj (bind (gets m_Config) (\<lambda>cfg. msec_sleep w (rebootTmout cfg))))"

definition reboot :: "aworld \<Rightarrow> (agent, unit) prog" where
  "reboot w =
     bind (ask_with (\<lambda>t. aw_shell w t ''/sbin/reboot'') (Shell 0 ''/sbin/reboot'')) (\<lambda>r.
     seq (when_do (r \<noteq> Status 0) (reboot_sleep w)) (exit_with EXIT_FAILURE))"

text \<open>The part of \<^verbatim>\<open>nodefailOver\<close> and \<^verbatim>\<open>nodefailFast\<close> after the shutdown.\<close>

definition report_and_reboot :: "aworld \<Rightarrow> recovery \<Rightarrow> (agent, unit) prog" where
  "report_and_reboot w r =
     bind (gets m_haObj) (\<lambda>present.
     seq (when_do present
            (bind (ask_ok w (Report r)) (\<lambda>ok. when_do ok (reboot_sleep w)))) (
     reboot w))"

text \<open>\<^verbatim>\<open>HA_AGENT_RoleMgr::shutDown_all\<close>, with the body of \<^verbatim>\<open>nodefailOver\<close> in place of its call.\<close>

partial_function (option) shutDown_all :: "aworld \<Rightarrow> agent \<Rightarrow> (unit res \<times> agent) option" where
  "shutDown_all w s =
     (if m_startJobsDone s then
        bind (StopJobs w) (\<lambda>rc s.
          if rc < 0 then
            seq (\<lambda>s. if m_haMode s
                     then seq (\<lambda>s. if m_rMgrObj s then shutDown_all w s else Some (Ok (), s))
                            (report_and_reboot w NODE_FAILOVER) s
                     else Some (Ok (), s))
              (exit_with EXIT_FAILURE) s
          else Some (Ok (), s\<lparr>m_tasksDone := False, m_startJobsDone := False\<rparr>)) s
      else Some (Ok (), s\<lparr>m_tasksDone := False, m_startJobsDone := False\<rparr>))"

definition shutdown_if_role :: "aworld \<Rightarrow> (agent, unit) prog" where
  "shutdown_if_role w = (\<lambda>s. if m_rMgrObj s then shutDown_all w s else Some (Ok (), s))"

definition nodefailOver :: "aworld \<Rightarrow> (agent, unit) prog" where
  "nodefailOver w = seq (shutdown_if_role w) (report_and_reboot w NODE_FAILOVER)"

definition nodefailFast :: "aworld \<Rightarrow> (agent, unit) prog" where
  "nodefailFast w = seq (shutdown_if_role w) (report_and_reboot w NODE_FAILFAST)"

definition compRestart :: "aworld \<Rightarrow> (agent, unit) prog" where
  "compRestart w = seq (shutdown_if_role w) (modify (\<lambda>s. s\<lparr>m_compRestart := True\<rparr>))"

text \<open>The pattern of all callers: fail over under AMF, exit otherwise or if that returns.\<close>

definition fail_or_exit :: "aworld \<Rightarrow> (agent, 'a) prog" where
  "fail_or_exit w =
     bind (gets m_haMode) (\<lambda>ha. seq (when_do ha (nodefailOver w)) (exit_with EXIT_FAILURE))"

definition forceExit :: "aworld \<Rightarrow> (agent, 'a) prog" where
  "forceExit w = fail_or_exit w"

text \<open>
  \<^verbatim>\<open>Global::waitOntask\<close>. The other threads set the flags between two looks at them.
\<close>

definition task_progress :: "aworld \<Rightarrow> (agent, unit) prog" where
  "task_progress w =
     bind (ask_ok w (Sys ''tasks done'')) (\<lambda>done.
     bind (ask_ok w (Sys ''restart ordered'')) (\<lambda>restart.
     modify (\<lambda>s. s\<lparr>m_tasksDone := done, m_compRestart := restart\<rparr>)))"

partial_function (option) wait_loop :: "aworld \<Rightarrow> nat \<Rightarrow> nat \<Rightarrow> agent \<Rightarrow> (nat res \<times> agent) option" where
  "wait_loop w limit ticks s =
     (if \<not> m_tasksDone s \<and> \<not> m_compRestart s \<and> ticks \<le> limit then
        seq (deref m_utilObj (msec_sleep w 1000)) (seq (task_progress w) (wait_loop w limit (Suc ticks))) s
      else Some (Ok ticks, s))"

definition waitOntask :: "aworld \<Rightarrow> (agent, int) prog" where
  "waitOntask w =
     deref m_cngObj (
     bind (gets m_Config) (\<lambda>cfg.
     seq (wait_loop w (unat (callbackTmout cfg div 1000)) 0) (
     bind (gets (\<lambda>s. \<not> m_tasksDone s \<or> m_compRestart s)) (\<lambda>bad. ret (if bad then -1 else 0)))))"

definition getHAState :: "(agent, ha_state) prog" where
  "getHAState = gets (\<lambda>s. if m_haObj s then haState s else HA_UNDEFINED)"

text \<open>\<^verbatim>\<open>Global::reset\<close>, \<^verbatim>\<open>Global::deactivate\<close> and \<^verbatim>\<open>Global::roleMgr\<close>.\<close>

definition reset :: "agent \<Rightarrow> agent" where
  "reset s = s\<lparr>m_shutdownOrdered := False, m_haMode := False, m_oldhaState := HA_UNDEFINED, m_tasksDone := False,
     m_compRestart := False\<rparr>"

definition deactivate :: "(agent, unit) prog" where
  "deactivate =
     seq (modify (\<lambda>s. s\<lparr>m_cngObj := False, m_utilObj := False, m_pwrOffObj := False, m_map := MapNull, m_rMgrObj := False\<rparr>))
       (modify reset)"

definition roleMgr :: "aworld \<Rightarrow> (agent, unit) prog" where
  "roleMgr w =
     bind (gets m_rMgrObj) (\<lambda>present.
     if present then ret ()
     else bind (ask_ok w (New ''HA_AGENT_RoleMgr'')) (\<lambda>ok.
     if ok then
       modify (\<lambda>s. s\<lparr>m_rMgrObj := True, m_regHndlr := False, m_arpObj := False, m_pingObj := False, m_ndiscObj := False,
         m_drbdObj := False, m_fileObj := False, m_immObj := False, m_DMObj := False, m_reactorRunner := False,
         m_handle := -1, m_startJobsDone := False, m_isVirtual := False\<rparr>)
     else crash))"

definition setHaMgr :: "(agent, unit) prog" where
  "setHaMgr = modify (\<lambda>s. s\<lparr>m_haObj := True\<rparr>)"

definition new_object :: "aworld \<Rightarrow> string \<Rightarrow> (agent \<Rightarrow> agent) \<Rightarrow> (agent, bool) prog" where
  "new_object w cls constructed =
     bind (ask_ok w (New cls)) (\<lambda>ok. seq (when_do ok (modify constructed)) (ret ok))"

section \<open>How failing over ends\<close>

lemma jobs_StopJobs: "keeps jobs_only (StopJobs w)"
  unfolding StopJobs_def deref_def by (intro jobs.keeps_rules jobs_stop)

lemma reboot_sleep_quiet [quiet_intros]: "keeps quiet (reboot_sleep w)"
  unfolding reboot_sleep_def by (intro quiet_intros)

text \<open>The two ways in which the process can be gone.\<close>

definition gone :: "'a res \<Rightarrow> bool" where
  "gone r \<longleftrightarrow> r = Exit EXIT_FAILURE \<or> r = Crash"

lemma gone_simps [simp]: "\<not> gone (Ok x)" "gone (Exit c) \<longleftrightarrow> c = EXIT_FAILURE" "gone Crash"
  by (simp_all add: gone_def)

lemma reboot_gone: "reboot w s = Some (r, s') \<Longrightarrow> gone r \<and> quiet s s'"
proof -
  assume run: "reboot w s = Some (r, s')"
  have q: "quiet t t' \<and> (\<forall>c. r \<noteq> Exit c)" if "reboot_sleep w t = Some (r, t')" for r t t'
    using reboot_sleep_quiet [of w] that by (auto simp: keeps_def)
  show ?thesis
    using run unfolding reboot_def
    by (auto simp: run_simps suffix_ConsI dest!: q intro: quiet_after split: if_splits option.splits res.splits)
qed

lemma report_and_reboot_gone: "report_and_reboot w c s = Some (r, s') \<Longrightarrow> gone r \<and> quiet s s'"
proof -
  assume run: "report_and_reboot w c s = Some (r, s')"
  have q: "quiet t t' \<and> (\<forall>c. r \<noteq> Exit c)" if "reboot_sleep w t = Some (r, t')" for r t t'
    using reboot_sleep_quiet [of w] that by (auto simp: keeps_def)
  show ?thesis
    using run unfolding report_and_reboot_def
    by (auto simp: run_simps ask_ok_def suffix_ConsI dest!: q reboot_gone quiet_cons intro: quiet_trans
        split: if_splits option.splits res.splits)
qed

lemmas shutDown_all_induct [consumes 1, case_names step] = shutDown_all.raw_induct [rotated]

lemma shutDown_all_ends:
  assumes "shutDown_all w s = Some (r, s')"
  shows "r = Ok () \<or> gone r"
  using assms
proof (induction w s "(r, s')" arbitrary: r s' rule: shutDown_all_induct)
  case (step f w s r s')
  have j: "\<forall>c. r \<noteq> Exit c" if "StopJobs w t = Some (r, t')" for r :: "int res" and t t'
    using jobs_StopJobs [of w] that by (auto simp: keeps_def)
  show ?case
    using step.hyps(2)
    by (auto simp: run_simps dest!: j report_and_reboot_gone step.hyps(1) split: if_splits option.splits res.splits)
qed

lemma nodefailOver_gone:
  assumes "nodefailOver w s = Some (r, s')"
  shows "gone r"
  using assms unfolding nodefailOver_def shutdown_if_role_def
  by (auto simp: run_simps dest!: shutDown_all_ends report_and_reboot_gone split: if_splits option.splits res.splits)

lemma shutDown_all_files:
  assumes "shutDown_all w s = Some (r, s')"
  shows "same_files s s'"
  using assms
proof (induction w s "(r, s')" arbitrary: r s' rule: shutDown_all_induct)
  case (step f w s r s')
  have j: "same_files t t'" if "StopJobs w t = Some (r, t')" for r :: "int res" and t t'
    using jobs_StopJobs [of w] that by (auto simp: keeps_def intro: jobs_same_files quiet_same_files)
  have q: "same_files t t'" if "report_and_reboot w c t = Some (r, t')" for r t t' c
    using report_and_reboot_gone [OF that] by (auto intro: jobs_same_files quiet_same_files)
  have tail: "same_files s1 s'"
    if "seq (\<lambda>s. if m_haMode s then seq (\<lambda>s. if m_rMgrObj s then f w s else Some (Ok (), s)) (report_and_reboot w NODE_FAILOVER) s
          else Some (Ok (), s)) (exit_with EXIT_FAILURE) s1 = Some (r, s')" for s1 r s'
    using that by (auto simp: run_simps dest!: q step.hyps(1) split: if_splits option.splits res.splits
        intro: same_files_trans simp: same_files_def)
  show ?case
    using step.hyps(2)
    by (auto simp: run_bind dest!: j tail split: if_splits option.splits res.splits
        intro: same_files_trans simp: same_files_def)
qed

lemma nodefailOver_files: "nodefailOver w s = Some (r, s') \<Longrightarrow> same_files s s'"
  unfolding nodefailOver_def shutdown_if_role_def
  by (auto simp: run_simps dest!: shutDown_all_files report_and_reboot_gone quiet_same_files split: if_splits option.splits res.splits
      intro: same_files_trans simp: same_files_def)

lemma nodefailOver_ends: "nodefailOver w s = Some (r, s') \<Longrightarrow> gone r \<and> same_files s s'"
  using nodefailOver_gone nodefailOver_files by blast

lemma fail_or_exit_gone: "fail_or_exit w s = Some (r, s') \<Longrightarrow> gone r \<and> same_files s s'"
  unfolding fail_or_exit_def
  by (auto simp: run_simps same_files_def dest!: nodefailOver_ends split: if_splits option.splits res.splits)

lemma nodefailFast_ends:
  assumes "nodefailFast w s = Some (r, s')"
  shows "gone r \<and> same_files s s'"
proof
  show "gone r"
    using assms unfolding nodefailFast_def shutdown_if_role_def
    by (auto simp: run_simps dest!: shutDown_all_ends report_and_reboot_gone split: if_splits option.splits res.splits)
  show "same_files s s'"
    using assms unfolding nodefailFast_def shutdown_if_role_def
    by (auto simp: run_simps dest!: shutDown_all_files report_and_reboot_gone quiet_same_files split: if_splits option.splits res.splits
        intro: same_files_trans simp: same_files_def)
qed

text \<open>
  C25: \<^verbatim>\<open>nodefailOver\<close> and \<^verbatim>\<open>nodefailFast\<close> never come back to their caller: whatever the environment
  answers, a run that ends has left the process with a failure, unless it stopped in undefined
  behaviour. They touch neither the lock file nor the persistent file.
\<close>

lemma failover_never_returns:
  "outcome (nodefailOver w) (\<lambda>r s'. (r = Exit EXIT_FAILURE \<or> r = Crash) \<and> same_files s s') s \<and>
   outcome (nodefailFast w) (\<lambda>r s'. (r = Exit EXIT_FAILURE \<or> r = Crash) \<and> same_files s s') s"
  by (intro conjI outcomeI) (auto dest: nodefailOver_ends nodefailFast_ends simp: gone_def)

lemma run_reboot_sleep [run_simps]:
  "sleeps_end w \<Longrightarrow> m_utilObj s \<Longrightarrow> m_cngObj s \<Longrightarrow>
   reboot_sleep w s = Some (Ok (), s\<lparr>trc := Sleep (rebootTmout (m_Config s)) # trc s\<rparr>)"
  by (simp add: reboot_sleep_def deref_def run_simps)

lemma run_reboot:
  assumes "sleeps_end w" "m_utilObj s" "m_cngObj s"
  obtains t where "reboot w s = Some (Exit EXIT_FAILURE, s\<lparr>trc := t\<rparr>)" "suffix (Shell 0 ''/sbin/reboot'' # trc s) t"
  using assms by (cases "aw_shell w (trc s) ''/sbin/reboot'' = Status 0")
    (auto simp: reboot_def run_simps suffix_ConsI)

lemma run_report_and_reboot:
  assumes "sleeps_end w" "m_utilObj s" "m_cngObj s"
  obtains t where "report_and_reboot w c s = Some (Exit EXIT_FAILURE, s\<lparr>trc := t\<rparr>)" "suffix (trc s) t"
    "Shell 0 ''/sbin/reboot'' \<in> set t" "m_haObj s \<longrightarrow> Report c \<in> set t"
proof -
  define u where "u = (if m_haObj s then
      (if aw_ok w (trc s) (Report c) then Sleep (rebootTmout (m_Config s)) # Report c # trc s else Report c # trc s) else trc s)"
  obtain t where t: "reboot w (s\<lparr>trc := u\<rparr>) = Some (Exit EXIT_FAILURE, s\<lparr>trc := t\<rparr>)" "suffix (Shell 0 ''/sbin/reboot'' # u) t"
    using run_reboot [of w "s\<lparr>trc := u\<rparr>"] assms by auto
  have "report_and_reboot w c s = reboot w (s\<lparr>trc := u\<rparr>)"
    using assms by (auto simp: report_and_reboot_def run_simps ask_ok_def u_def)
  moreover have "suffix (trc s) u" "m_haObj s \<longrightarrow> Report c \<in> set u"
    by (auto simp: u_def suffix_ConsI)
  ultimately show ?thesis
    using t that [of t] by (auto simp: suffix_def)
qed

lemma shutDown_idle: "\<not> m_startJobsDone s \<Longrightarrow> shutDown_all w s = Some (Ok (), s\<lparr>m_tasksDone := False, m_startJobsDone := False\<rparr>)"
  by (subst shutDown_all.simps) simp

lemma failover_runs:
  assumes "sleeps_end w" "m_utilObj s" "m_cngObj s" "m_haObj s" "\<not> m_startJobsDone s"
  shows "\<exists>s'. nodefailOver w s = Some (Exit EXIT_FAILURE, s') \<and>
      Report NODE_FAILOVER \<in> set (trc s') \<and> Shell 0 ''/sbin/reboot'' \<in> set (trc s')"
proof -
  define s1 where "s1 = (if m_rMgrObj s then s\<lparr>m_tasksDone := False, m_startJobsDone := False\<rparr> else s)"
  have "m_utilObj s1" "m_cngObj s1" "m_haObj s1" using assms by (simp_all add: s1_def)
  then obtain t where "report_and_reboot w NODE_FAILOVER s1 = Some (Exit EXIT_FAILURE, s1\<lparr>trc := t\<rparr>)"
    "Shell 0 ''/sbin/reboot'' \<in> set t" "Report NODE_FAILOVER \<in> set t"
    using run_report_and_reboot [OF assms(1), of s1 NODE_FAILOVER] by metis
  then show ?thesis
    using assms(5) by (auto simp: nodefailOver_def shutdown_if_role_def run_simps shutDown_idle s1_def)
qed

text \<open>
  A failover under AMF with no jobs to stop completes: the error is reported to AMF with the
  recommendation of a node failover, the reboot command is run, and the process exits with a failure.
\<close>

lemma failover_completes:
  assumes "sleeps_end w" "m_utilObj s" "m_cngObj s" "m_haObj s" "\<not> m_startJobsDone s"
  shows "\<exists>s'. nodefailOver w s = Some (Exit EXIT_FAILURE, s') \<and>
      Report NODE_FAILOVER \<in> set (trc s') \<and> Shell 0 ''/sbin/reboot'' \<in> set (trc s')"
  using assms by (rule failover_runs)

lemma failover_completes_witness:
  "\<exists>s'. nodefailOver calm_world ready_agent = Some (Exit EXIT_FAILURE, s') \<and>
      Report NODE_FAILOVER \<in> set (trc s') \<and> Shell 0 ''/sbin/reboot'' \<in> set (trc s')"
  by (rule failover_completes) (simp_all add: example_simps sleeps_end_def)

definition failover_cmd :: string where
  "failover_cmd = ''/opt/ap/apos/bin/apos_operations --failover active &>/dev/null''"

lemma stop_fails:
  assumes "m_utilObj s" "m_drbdObj s" "aw_shell w (trc s) failover_cmd = Status 1"
  shows "\<exists>s'. StopJobs w s = Some (Ok (-1), s') \<and> jobs_only s s'"
proof -
  have "take (APOS_HA_CMD_LEN - 1) (APOS_HA_CMD_APOS_OPERATIONS @ '' '' @ ''--failover active &>/dev/null'') = failover_cmd"
    by (simp add: APOS_HA_CMD_LEN_def APOS_HA_CMD_APOS_OPERATIONS_def failover_cmd_def)
  then have "\<exists>s'. StopJobs w s = Some (Ok (-1), s')"
    using assms by (simp add: StopJobs_def deref_def drbdStopJobs_def aposJobs_def run_cmd_def execlp_def run_simps)
  then show ?thesis using jobs_StopJobs [of w] by (auto simp: keeps_def)
qed

lemma shutDown_diverges:
  assumes "\<forall>t. aw_shell w t failover_cmd = Status 1"
  shows "m_utilObj s \<Longrightarrow> m_drbdObj s \<Longrightarrow> m_rMgrObj s \<Longrightarrow> m_startJobsDone s \<Longrightarrow> m_haMode s \<Longrightarrow> shutDown_all w s = None"
proof (rule ccontr)
  assume *: "m_utilObj s" "m_drbdObj s" "m_rMgrObj s" "m_startJobsDone s" "m_haMode s" and "shutDown_all w s \<noteq> None"
  then obtain y where "shutDown_all w s = Some y" by auto
  then have "(\<forall>t. aw_shell w t failover_cmd = Status 1) \<longrightarrow>
      \<not> (m_utilObj s \<and> m_drbdObj s \<and> m_rMgrObj s \<and> m_startJobsDone s \<and> m_haMode s)"
  proof (induction w s y rule: shutDown_all_induct)
    case (step f w s y)
    show ?case
    proof (intro impI notI)
      assume w: "\<forall>t. aw_shell w t failover_cmd = Status 1"
        and s: "m_utilObj s \<and> m_drbdObj s \<and> m_rMgrObj s \<and> m_startJobsDone s \<and> m_haMode s"
      obtain s' where s': "StopJobs w s = Some (Ok (-1), s')" "jobs_only s s'"
        using stop_fails w s by blast
      then have "m_utilObj s' \<and> m_drbdObj s' \<and> m_rMgrObj s' \<and> m_startJobsDone s' \<and> m_haMode s'"
        using s by (simp add: jobs_only_fields [OF s'(2)])
      moreover from this have "f w s' \<noteq> None"
        using step.hyps s s' by (auto simp: run_simps split: option.splits)
      ultimately show False using step.IH w by blast
    qed
  qed
  then show False using * assms by blast
qed

text \<open>
  C17: If the jobs are running and the command that stops them keeps failing, a failover under AMF never
  ends: \<^verbatim>\<open>shutDown_all\<close> and \<^verbatim>\<open>nodefailOver\<close> call each other for ever, and neither the report to AMF nor
  the reboot is reached.
\<close>

theorem failover_recursion:
  assumes "\<forall>t. aw_shell w t failover_cmd = Status 1"
    and "m_utilObj s" "m_drbdObj s" "m_rMgrObj s" "m_startJobsDone s" "m_haMode s"
  shows "nodefailOver w s = None"
  using shutDown_diverges [OF assms] assms by (simp add: nodefailOver_def shutdown_if_role_def run_simps)

theorem failover_recursion_witness:
  "nodefailOver (calm_world\<lparr>aw_shell := \<lambda>_ _. Status 1\<rparr>) (ready_agent\<lparr>m_startJobsDone := True\<rparr>) = None"
  by (rule failover_recursion) (simp_all add: example_simps)

section \<open>Waiting for the tasks\<close>

lemma wait_loop_bound:
  assumes "sleeps_end w" "m_utilObj s" "ticks \<le> Suc limit"
  shows "\<exists>n s'. wait_loop w limit ticks s = Some (Ok n, s') \<and>
     (m_tasksDone s' \<or> m_compRestart s' \<or> n = Suc limit) \<and> ticks \<le> n \<and> n \<le> Suc limit \<and>
     count_list (trc s') (Sleep 1000) = count_list (trc s) (Sleep 1000) + (n - ticks)"
  using assms(2,3)
proof (induction "Suc limit - ticks" arbitrary: ticks s)
  case 0
  then show ?case by (subst wait_loop.simps) auto
next
  case (Suc k)
  show ?case
  proof (cases "\<not> m_tasksDone s \<and> \<not> m_compRestart s \<and> ticks \<le> limit")
    case False
    then show ?thesis using Suc.prems by (subst wait_loop.simps) auto
  next
    case True
    define s1 where "s1 = s\<lparr>trc := Sys ''restart ordered'' # Sys ''tasks done'' # Sleep 1000 # trc s,
      m_tasksDone := aw_ok w (Sleep 1000 # trc s) (Sys ''tasks done''),
      m_compRestart := aw_ok w (Sys ''tasks done'' # Sleep 1000 # trc s) (Sys ''restart ordered'')\<rparr>"
    have "wait_loop w limit ticks s = wait_loop w limit (Suc ticks) s1"
      using True assms(1) Suc.prems(1)
      by (subst wait_loop.simps) (simp add: run_simps deref_def task_progress_def ask_ok_def s1_def)
    moreover have "m_utilObj s1" using Suc.prems by (simp add: s1_def)
    moreover have "count_list (trc s1) (Sleep 1000) = Suc (count_list (trc s) (Sleep 1000))"
      by (simp add: s1_def)
    ultimately show ?thesis
      using Suc.hyps(1) [of "Suc ticks" s1] Suc.hyps(2) True by (fastforce simp: Suc_diff_le)
  qed
qed

text \<open>
  C32: \<^verbatim>\<open>waitOntask\<close> returns, after at most as many sleeps of a second as the callback timeout has seconds
  and one more; it reports success exactly if the tasks are done and no restart was ordered.
\<close>

theorem waitOntask_bounded:
  assumes "sleeps_end w" "m_utilObj s" "m_cngObj s"
  shows "wp (waitOntask w) (\<lambda>rc s'. (rc = 0 \<longleftrightarrow> m_tasksDone s' \<and> \<not> m_compRestart s') \<and> (rc = 0 \<or> rc = -1) \<and>
      count_list (trc s') (Sleep 1000) \<le> count_list (trc s) (Sleep 1000) + unat (callbackTmout (m_Config s) div 1000) + 1)
    (\<lambda>_ _. False) s"
proof -
  define limit where "limit = unat (callbackTmout (m_Config s) div 1000)"
  obtain n s' where "wait_loop w limit 0 s = Some (Ok n, s')" "n \<le> Suc limit"
    "count_list (trc s') (Sleep 1000) = count_list (trc s) (Sleep 1000) + n"
    using wait_loop_bound [OF assms(1,2), of 0 limit] by (metis diff_zero le0)
  then show ?thesis
    using assms(3) unfolding limit_def [symmetric] wp_def waitOntask_def deref_def run_simps
    by (simp only: limit_def [symmetric] if_True option.case res.case prod.case) (simp add: run_simps)
qed

theorem waitOntask_bounded_witness:
  "wp (waitOntask calm_world) (\<lambda>rc s'. (rc = 0 \<longleftrightarrow> m_tasksDone s' \<and> \<not> m_compRestart s') \<and> (rc = 0 \<or> rc = -1) \<and>
      count_list (trc s') (Sleep 1000) \<le> count_list (trc ready_agent) (Sleep 1000) + unat (callbackTmout (m_Config ready_agent) div 1000) + 1)
    (\<lambda>_ _. False) ready_agent"
  by (rule waitOntask_bounded) (simp_all add: example_simps sleeps_end_def)

section \<open>Routines that end in a failure\<close>

lemma exitless_gone: 
  "keeps (\<lambda>_ _. True) m \<Longrightarrow> (\<And>x s. outcome (k x) (\<lambda>r _. gone r) s) \<Longrightarrow> outcome (bind m k) (\<lambda>r _. gone r) s"
proof (rule outcomeI)
  fix r s' assume m: "keeps (\<lambda>_ _. True) m" and k: "\<And>x s. outcome (k x) (\<lambda>r _. gone r) s" and "bind m k s = Some (r, s')"
  then show "gone r"
    using keeps_no_exit [OF m, of s] outcomeD [OF k] by (cases "m s") (auto simp: run_simps split: res.splits)
qed

lemma exitless_gone_seq: 
  "keeps (\<lambda>_ _. True) m \<Longrightarrow> (\<And>s. outcome n (\<lambda>r _. gone r) s) \<Longrightarrow> outcome (seq m n) (\<lambda>r _. gone r) s"
  unfolding seq_def by (rule exitless_gone)

lemma run_fail_or_exit:
  assumes "sleeps_end w" "m_utilObj s" "m_cngObj s" "m_haObj s" "\<not> m_startJobsDone s" "m_haMode s"
  shows "\<exists>s'. fail_or_exit w s = Some (Exit EXIT_FAILURE, s') \<and> same_files s s' \<and> Report NODE_FAILOVER \<in> set (trc s')"
proof -
  obtain s' where s': "nodefailOver w s = Some (Exit EXIT_FAILURE, s')" "Report NODE_FAILOVER \<in> set (trc s')"
    using failover_runs [OF assms(1-5)] by blast
  then show ?thesis using nodefailOver_files [OF s'(1)] assms(6) by (simp add: fail_or_exit_def run_simps)
qed

section \<open>The files\<close>

lemma same_files_quiet: "keeps quiet m \<Longrightarrow> keeps same_files m"
  by (erule keeps_mono) (rule quiet_same_files)

lemma files_new_object:
  "(\<And>s. same_files s (f s)) \<Longrightarrow> keeps same_files (new_object w c f)"
  unfolding new_object_def by (intro files.keeps_rules same_files_quiet quiet_intros keeps_modify)

end
