(* ===== verification/Agent_DrbdMon.thy ===== *)
theory Agent_DrbdMon
  imports Agent_Global
begin

text \<open>
  \<^verbatim>\<open>apos_ha_agent_drbdmon.cpp\<close>: the thread that looks at the DRBD state at every timeout. At most one
  monitor exists at a time, owned by the role manager on the active node and by the standby
  administrator on the other, so its members are fields of the agent's state.
\<close>

section \<open>Message queues\<close>

text \<open>\<^verbatim>\<open>getq\<close>: nothing on failure, otherwise the message at the head of the queue.\<close>

definition agent_msg_of :: "int \<Rightarrow> agent_msg" where
  "agent_msg_of n =
     (if n = 0 then AGENT_SHUTDOWN else if n = 1 then ROLEMGR_CLOSE else if n = 2 then DRBDMON_TIMEOUT
      else if n = 3 then DRBDMON_CLOSE else OTHER_MSG)"

definition getq :: "aworld \<Rightarrow> string \<Rightarrow> (agent, agent_msg option) prog" where
  "getq w queue =
     bind (ask_int w (Sys (''getq '' @ queue))) (\<lambda>n. ret (if n < 0 then None else Some (agent_msg_of n)))"

text \<open>Creating a message block and posting it.\<close>

definition post :: "aworld \<Rightarrow> string \<Rightarrow> (agent, int) prog" where
  "post w message =
     bind (ask_ok w (New ''ACE_Message_Block'')) (\<lambda>mb.
     if \<not> mb then ret (-1)
     else bind (ask_ok w (Sys (''putq '' @ message))) (\<lambda>ok. ret (if ok then 0 else -1)))"

section \<open>Supervision\<close>

text \<open>
  The attempts to connect again, with the number that is left before \<^verbatim>\<open>Counter\<close> equals
  \<^verbatim>\<open>MAX_ATTEMPTS\<close>; the result is the counter after the loop.
\<close>

fun reconnect :: "aworld \<Rightarrow> nat \<Rightarrow> nat \<Rightarrow> (agent, nat) prog" where
  "reconnect w 0 counter = ret counter"
| "reconnect w (Suc k) counter =
     bind (drbd_activate w) (\<lambda>rc.
     if rc = 0 then ret counter
     else seq (Utils w) (seq (msec_sleep w 1000) (reconnect w k (counter + 1))))"

definition standalone :: "aworld \<Rightarrow> (agent, int) prog" where
  "standalone w =
     bind (reconnect w (3 - 1) 1) (\<lambda>counter.
     bind (gets m_haMode) (\<lambda>ha.
     seq (when_do (3 < counter \<and> ha) (seq (nodefailOver w) (exit_with EXIT_FAILURE))) (ret 0)))"

definition save_cstate :: "aworld \<Rightarrow> string \<Rightarrow> (agent, int) prog" where
  "save_cstate w cstate =
     seq (PWROff w) (
     bind get_persis_info (\<lambda>(ok, pInfo).
     if \<not> ok then ret (-1)
     else
       seq (when_do (cstate \<noteq> ''WFConnection'')
              (seq (PWROff w) (seq (write_persis_info (pInfo\<lparr>pi_cstate := cstate\<rparr>)) (ret ())))) (
       ret 0)))"

definition peer_lost :: "drbd_info \<Rightarrow> drbd_info \<Rightarrow> bool" where
  "peer_lost info peer \<longleftrightarrow>
     di_cstate info \<notin> {''Connected'', ''SyncTarget'', ''PausedSyncT'', ''StartingSyncT''} \<and>
     di_role peer = ''Unknown'' \<and> di_dstate peer = ''DUnknown''"

definition judge_drbd :: "aworld \<Rightarrow> drbd_info \<Rightarrow> drbd_info \<Rightarrow> (agent, int) prog" where
  "judge_drbd w info peer =
     (if \<not> isConfigured info then fail_or_exit w
      else bind getHAState (\<lambda>ha.
        if ha = HA_STANDBY \<and> peer_lost info peer then
          seq (Utils w) (seq (msec_sleep w 60000) (fail_or_exit w))
        else if ha = HA_STANDBY \<and> di_cstate info = ''StandAlone'' \<and> di_role info = ''Secondary'' then
          standalone w
        else save_cstate w (di_cstate info)))"

text \<open>The peer is asked only if the local query failed, since the condition is a disjunction.\<close>

definition superviseDRBD :: "aworld \<Rightarrow> (agent, int) prog" where
  "superviseDRBD w =
     seq (PWROff w) (
     bind (drbdinfo w) (\<lambda>(rc, info).
     bind (if rc = 0 then ret (0, no_drbd_info) else seq (PWROff w) (peerdrbdinfo w)) (\<lambda>(peer_rc, peer).
     if rc = 0 \<or> peer_rc = 0 then judge_drbd w info peer else ret (-1))))"

section \<open>The thread\<close>

definition DRBDMon_ctor :: "agent \<Rightarrow> agent" where
  "DRBDMon_ctor s = s\<lparr>m_timerid := -1, m_rebuildInProgress := False, dm_reactor := False, dm_reactorRunner := False\<rparr>"

definition DRBDMon_open :: "aworld \<Rightarrow> (agent, int) prog" where
  "DRBDMon_open w = bind (ask_ok w (Sys ''activate DRBDMon'')) (\<lambda>ok. ret (if ok then 0 else -1))"

text \<open>\<^verbatim>\<open>m_reactor->schedule_timer\<close> with the interval in seconds.\<close>

definition schedule_timer :: "aworld \<Rightarrow> (agent, int) prog" where
  "schedule_timer w =
     bind (getConfig w) (\<lambda>cfg.
     bind (ask_int w (Send ''schedule_timer'' (show_nat (unat (drbdSupervisionIntvl cfg div 1000))))) (\<lambda>timerid.
     seq (modify (\<lambda>s. s\<lparr>m_timerid := timerid\<rparr>)) (ret (if timerid < 0 then -1 else 0))))"

definition DRBDMon_init :: "aworld \<Rightarrow> (agent, int) prog" where
  "DRBDMon_init w =
     bind (new_object w ''ACE_Reactor'' (\<lambda>s. s\<lparr>dm_reactor := True\<rparr>)) (\<lambda>ok.
     if \<not> ok then ret (-1)
     else bind (new_object w ''APOS_HA_ReactorRunner'' (\<lambda>s. s\<lparr>dm_reactorRunner := True\<rparr>)) (\<lambda>ok.
     if \<not> ok then ret (-1)
     else bind (ask_ok w (Sys ''reactor open'')) (\<lambda>ok.
     if \<not> ok then ret (-1) else schedule_timer w)))"

partial_function (option) drbdmon_loop :: "aworld \<Rightarrow> agent \<Rightarrow> (unit res \<times> agent) option" where
  "drbdmon_loop w s =
     bind (getq w ''DRBDMon'') (\<lambda>msg s.
       if msg = Some DRBDMON_TIMEOUT then
         (if m_rebuildInProgress s then drbdmon_loop w s
          else seq (superviseDRBD w) (drbdmon_loop w) s)
       else Some (Ok (), s)) s"

definition DRBDMon_svc :: "aworld \<Rightarrow> (agent, int) prog" where
  "DRBDMon_svc w =
     bind (DRBDMon_init w) (\<lambda>rc.
     if rc < 0 then
       bind (gets m_haMode) (\<lambda>ha. seq (when_do ha (compRestart w)) (exit_with EXIT_FAILURE))
     else seq (drbdmon_loop w) (ret 0))"

definition DRBDMon_close :: "aworld \<Rightarrow> (agent, int) prog" where
  "DRBDMon_close w = seq (deref dm_reactor (tell (Sys ''cancel_timer''))) (post w ''DRBDMON_CLOSE'')"

definition DRBDMon_close_thread :: "(agent, int) prog" where
  "DRBDMon_close_thread =
     bind (gets dm_reactorRunner) (\<lambda>runner.
     seq (when_do runner (seq (tell (Sys ''stop reactor'')) (modify (\<lambda>s. s\<lparr>dm_reactorRunner := False\<rparr>)))) (
     seq (modify (\<lambda>s. s\<lparr>dm_reactor := False\<rparr>)) (ret 0)))"

definition handle_timeout :: "aworld \<Rightarrow> (agent, int) prog" where
  "handle_timeout w = seq (post w ''DRBDMON_TIMEOUT'') (deref dm_reactor (schedule_timer w))"

definition setRebuildInProgress :: "(agent, unit) prog" where
  "setRebuildInProgress = modify (\<lambda>s. s\<lparr>m_rebuildInProgress := \<not> m_rebuildInProgress s\<rparr>)"

section \<open>What supervision comes down to\<close>

text \<open>The same without the branches that no run takes.\<close>

definition judge_spec :: "aworld \<Rightarrow> int \<Rightarrow> drbd_info \<Rightarrow> (agent, int) prog" where
  "judge_spec w rc info =
     (if rc = 0 then
        bind getHAState (\<lambda>ha.
        if ha = HA_STANDBY \<and> di_cstate info = ''StandAlone'' \<and> di_role info = ''Secondary''
        then seq (reconnect w 2 1) (ret 0)
        else save_cstate w (di_cstate info))
      else
        seq (PWROff w) (
        bind (peerdrbdinfo w) (\<lambda>(peer_rc, _).
        if peer_rc = 0 then fail_or_exit w else ret (-1))))"

definition supervise_spec :: "aworld \<Rightarrow> (agent, int) prog" where
  "supervise_spec w = seq (PWROff w) (bind (drbdinfo w) (\<lambda>(rc, info). judge_spec w rc info))"

lemma query_drbd_result:
  "outcome (query_drbd w b) (\<lambda>r s'. \<forall>rc info. r = Ok (rc, info) \<longrightarrow> (rc = 0 \<longleftrightarrow> isConfigured info)) s"
  unfolding query_drbd_def by (auto simp: outcome_def run_simps split: option.splits res.splits prod.splits)

lemma reconnect_counter:
  "outcome (reconnect w k n) (\<lambda>r s'. \<forall>c. r = Ok c \<longrightarrow> c \<le> n + k) s"
proof (induction k arbitrary: n s)
  case 0
  then show ?case by (simp add: outcome_simps)
next
  case (Suc k)
  show ?case
    using Suc [of "n + 1"] unfolding reconnect.simps
    by (fastforce simp: outcome_def run_simps split: option.splits res.splits if_splits)
qed

lemma standalone_no_failover: "standalone w s = seq (reconnect w 2 1) (ret 0) s"
  using outcomeD [OF reconnect_counter, of w 2 1 s]
  by (fastforce simp: standalone_def run_simps split: option.splits res.splits)

lemma judge_configured:
  "isConfigured info \<Longrightarrow> judge_drbd w info no_drbd_info s = judge_spec w 0 info s"
  by (simp add: judge_drbd_def judge_spec_def peer_lost_def no_drbd_info_def getHAState_def run_simps standalone_no_failover)

lemma supervise_step:
  assumes "rc = 0 \<longleftrightarrow> isConfigured info"
  shows "bind (if rc = 0 then ret (0, no_drbd_info) else seq (PWROff w) (peerdrbdinfo w)) (\<lambda>(peer_rc, peer).
     if rc = 0 \<or> peer_rc = 0 then judge_drbd w info peer else ret (-1)) s = judge_spec w rc info s"
proof (cases "rc = 0")
  case True
  then show ?thesis using assms by (simp add: judge_configured)
next
  case False
  then have "judge_drbd w info peer = fail_or_exit w" for peer using assms by (simp add: judge_drbd_def)
  then show ?thesis using False by (simp add: judge_spec_def seq_def bind_assoc case_prod_unfold cong: if_cong)
qed

text \<open>
  C18: \<^verbatim>\<open>superviseDRBD\<close> is equal to the routine without the failover on a lost peer and without the failover
  after the attempts to connect again: neither is ever reached, in any environment.
\<close>

theorem superviseDRBD_equiv: "superviseDRBD w s = supervise_spec w s"
proof -
  have q: "outcome (drbdinfo w) (\<lambda>r _. \<forall>x. r = Ok x \<longrightarrow> (fst x = 0 \<longleftrightarrow> isConfigured (snd x))) s1" for s1
    unfolding drbdinfo_def by (rule outcome_mono [OF query_drbd_result]) auto
  show ?thesis
    unfolding superviseDRBD_def supervise_spec_def
    by (intro seq_cong bind_cong_outcome [OF q]) (unfold case_prod_unfold, erule supervise_step [unfolded case_prod_unfold])
qed

end
