(* ===== verification/Agent_RoleMgr.thy ===== *)
theory Agent_RoleMgr
  imports Agent_Probe Agent_DrbdMon
begin

text \<open>
  \<^verbatim>\<open>apos_ha_agent_rolemngr.cpp\<close>, the thread that makes the node active: it checks the health of the
  local disk, looks for another active node, starts the jobs, and then waits to be closed.
\<close>

section \<open>Initialisation of the role manager\<close>

text \<open>\<^verbatim>\<open>mkfifo\<close> answers 0, -1 with \<^verbatim>\<open>EEXIST\<close> (here 1) or another error.\<close>

definition p_open :: "aworld \<Rightarrow> (agent, int) prog" where
  "p_open w =
     bind (ask_int w (Sys ''mkfifo'')) (\<lambda>r.
     if r \<noteq> 0 \<and> r \<noteq> 1 then ret (-1)
     else bind (ask_int w (Sys ''open fifo'')) (\<lambda>fd.
     if fd = -1 then ret (-1) else seq (modify (\<lambda>s. s\<lparr>m_handle := fd\<rparr>)) (ret 0)))"

definition p_close :: "aworld \<Rightarrow> (agent, int) prog" where
  "p_close w =
     bind (ask_ok w (Sys ''close fifo'')) (\<lambda>ok.
     if \<not> ok then ret (-1) else seq (modify (\<lambda>s. s\<lparr>m_handle := -1\<rparr>)) (ret 0))"

text \<open>The last step of the code tests \<^verbatim>\<open>m_immObj\<close> where it means \<^verbatim>\<open>m_fileObj\<close>.\<close>

definition initRoleMgr :: "aworld \<Rightarrow> (agent, int) prog" where
  "initRoleMgr w =
     bind (p_open w) (\<lambda>rc.
     if rc < 0 then ret (-1)
     else bind (new_object w ''APOS_HA_ReactorRunner'' (\<lambda>s. s\<lparr>m_reactorRunner := True\<rparr>)) (\<lambda>ok.
     if \<not> ok then ret (-1)
     else bind (ask_ok w (Sys ''reactor open'')) (\<lambda>ok.
     if \<not> ok then ret (-1)
     else bind (ask_ok w (Sys ''register handler'')) (\<lambda>ok.
     if \<not> ok then ret (-1)
     else seq (modify (\<lambda>s. s\<lparr>m_regHndlr := True\<rparr>)) (
     bind (new_object w ''HA_AGENT_DRBDMgr'' (\<lambda>s. s\<lparr>m_drbdObj := True, m_aposOpts := [], m_assemble_force := False\<rparr>)) (\<lambda>ok.
     if \<not> ok then ret (-1)
     else bind (new_object w ''HA_AGENT_ImmOm'' (\<lambda>s. s\<lparr>m_immObj := True\<rparr>)) (\<lambda>ok.
     if \<not> ok then ret (-1)
     else bind (isVirtualNode w) (\<lambda>virtual.
     seq (modify (\<lambda>s. s\<lparr>m_isVirtual := virtual\<rparr>)) (
     bind (if virtual then new_object w ''HA_AGENT_Ping'' (\<lambda>s. s\<lparr>m_pingObj := True\<rparr>)
           else new_object w ''HA_AGENT_Arping'' (\<lambda>s. s\<lparr>m_arpObj := True\<rparr>)) (\<lambda>ok.
     if \<not> ok then ret (-1)
     else bind (new_object w ''HA_AGENT_ndisc'' (\<lambda>s. s\<lparr>m_ndiscObj := True\<rparr>)) (\<lambda>ok.
     if \<not> ok then ret (-1)
     else seq (new_object w ''HA_AGENT_LFile'' (\<lambda>s. s\<lparr>m_fileObj := True\<rparr>)) (ret 0))))))))))))"

section \<open>Health check\<close>

definition syncing_target :: "string \<Rightarrow> bool" where
  "syncing_target cstate \<longleftrightarrow> cstate \<in> {''StartingSyncT'', ''SyncTarget'', ''PausedSyncT''}"

definition inconsistent_disk :: "aworld \<Rightarrow> persis_info \<Rightarrow> (agent, int) prog" where
  "inconsistent_disk w pInfo =
     bind (getConfig w) (\<lambda>cfg.
     seq (Utils w) (
     seq (if pi_rebootCount pInfo \<ge> rebootCount cfg then APEvent w else createRCF w) (
     seq (PWROff w) (
     seq (write_persis_info (pInfo\<lparr>pi_rebootCount := pi_rebootCount pInfo + 1\<rparr>)) (
     fail_or_exit w)))))"

definition healthCheck :: "aworld \<Rightarrow> (agent, int) prog" where
  "healthCheck w =
     seq (PWROff w) (
     bind get_persis_info (\<lambda>(ok, pInfo).
     if \<not> ok then ret (-1)
     else if syncing_target (pi_cstate pInfo) then inconsistent_disk w pInfo
     else
       seq (when_do (pi_rebootCount pInfo > 0)
              (seq (PWROff w) (seq (write_persis_info (pInfo\<lparr>pi_rebootCount := 0\<rparr>)) (ret ())))) (
       bind (deref m_drbdObj (drbdHealth w True)) (\<lambda>rc.
       seq (Utils w) (
       seq (removeRCF w) (
       ret (if rc < 0 then -1 else 0)))))))"

section \<open>Split brain\<close>

text \<open>The loop over the addresses, with the number of addresses that are left.\<close>

definition probe :: "aworld \<Rightarrow> string \<Rightarrow> string \<Rightarrow> (agent, bool) prog" where
  "probe w ip intf =
     bind (gets m_isVirtual) (\<lambda>virtual.
     if virtual then (if intf \<noteq> ''eth1'' then deref m_pingObj (ping w ip intf) else ret False)
     else deref m_arpObj (arping w ip intf))"

fun probe_mips :: "aworld \<Rightarrow> nat \<Rightarrow> nat \<Rightarrow> (agent, bool) prog" where
  "probe_mips w 0 cntr = ret False"
| "probe_mips w (Suc k) cntr =
     bind (getConfig w) (\<lambda>cfg.
     if cntr < length (mips cfg) then
       bind (probe w (fst (mips cfg ! cntr)) (snd (mips cfg ! cntr))) (\<lambda>found.
       if found then ret True else probe_mips w k (Suc cntr))
     else crash)"

text \<open>Whether the first level of the algorithm asks for the addresses to be probed.\<close>

definition must_probe :: "aworld \<Rightarrow> (agent, bool) prog" where
  "must_probe w =
     bind (deref m_immObj (peerNodeLockd w)) (\<lambda>locked.
     if locked then ret False
     else bind (gets (\<lambda>s. (m_haMode s, m_oldhaState s))) (\<lambda>(ha, old).
     if ha \<and> old = HA_UNDEFINED then
       bind (deref m_fileObj LFileExist) (\<lambda>lock. ret lock)
     else ret True))"

definition search_active :: "aworld \<Rightarrow> bool \<Rightarrow> (agent, bool) prog" where
  "search_active w needed =
     (if needed then bind (getConfig w) (\<lambda>cfg. probe_mips w (unat (mip_size cfg)) 0) else ret False)"

definition clear_lock :: "aworld \<Rightarrow> (agent, int) prog" where
  "clear_lock w =
     bind (deref m_fileObj LFileExist) (\<lambda>lock.
     seq (when_do lock (seq (RMLFile w) (ret ()))) (ret 0))"

definition splitBrainAlgo :: "aworld \<Rightarrow> (agent, int) prog" where
  "splitBrainAlgo w =
     bind (must_probe w) (\<lambda>arping.
     bind (search_active w arping) (\<lambda>isSplitBrainDetected.
     if isSplitBrainDetected then seq (deref m_fileObj (LFile w)) (fail_or_exit w)
     else clear_lock w))"

section \<open>The thread and its events\<close>

definition RoleMgr_open :: "aworld \<Rightarrow> (agent, int) prog" where
  "RoleMgr_open w =
     bind (ask_ok w (Sys ''register SIGALRM'')) (\<lambda>ok.
     if \<not> ok then ret (-1)
     else bind (ask_ok w (Sys ''activate RoleMgr'')) (\<lambda>ok. ret (if ok then 0 else -1)))"

definition start_drbdmon :: "aworld \<Rightarrow> (agent, bool) prog" where
  "start_drbdmon w =
     bind (new_object w ''HA_AGENT_DRBDMon'' (\<lambda>s. DRBDMon_ctor (s\<lparr>m_DMObj := True\<rparr>))) (\<lambda>ok.
     if \<not> ok then ret False else bind (DRBDMon_open w) (\<lambda>rc. ret (rc = 0)))"

text \<open>The start of \<^verbatim>\<open>svc\<close>: True when no error was detected.\<close>

definition become_active :: "aworld \<Rightarrow> (agent, bool) prog" where
  "become_active w =
     bind (initRoleMgr w) (\<lambda>rc.
     if rc < 0 then ret False
     else bind (healthCheck w) (\<lambda>rc.
     if rc < 0 then ret False
     else bind (splitBrainAlgo w) (\<lambda>rc.
     if rc < 0 then ret False
     else bind (StartJobs w) (\<lambda>rc.
     if rc < 0 then ret False
     else start_drbdmon w))))"

text \<open>Whatever message arrives, and also if none can be read, the thread ends.\<close>

definition RoleMgr_svc :: "aworld \<Rightarrow> (agent, int) prog" where
  "RoleMgr_svc w =
     bind (become_active w) (\<lambda>ok.
     bind (gets m_haMode) (\<lambda>ha.
     seq (when_do (\<not> ok) (if ha then compRestart w else exit_with EXIT_FAILURE)) (
     seq (modify (\<lambda>s. s\<lparr>m_tasksDone := True\<rparr>)) (
     seq (getq w ''RoleMgr'') (
     seq (shutDown_all w) (ret 0))))))"

definition RoleMgr_handle_signal :: "aworld \<Rightarrow> bool \<Rightarrow> (agent, int) prog" where
  "RoleMgr_handle_signal w is_alarm =
     (if is_alarm then
        bind (gets m_utilObj) (\<lambda>present.
        bind (if present then ret True
              else new_object w ''HA_AGENT_Utils'' (\<lambda>s. s\<lparr>m_utilObj := True, ap_1 := False, ap_2 := False\<rparr>)) (\<lambda>ok.
        if ok then seq (Utils w) (seq (forceExit w) (ret 0)) else ret 0))
      else ret 0)"

definition remove_handler :: "aworld \<Rightarrow> (agent, unit) prog" where
  "remove_handler w =
     bind (gets m_regHndlr) (\<lambda>reg.
     when_do reg
       (bind (ask_ok w (Sys ''remove handler'')) (\<lambda>ok. when_do ok (modify (\<lambda>s. s\<lparr>m_regHndlr := False\<rparr>)))))"

text \<open>\<^verbatim>\<open>close()\<close> posts the message that ends the thread, \<^verbatim>\<open>close(u_long)\<close> releases the objects.\<close>

definition RoleMgr_close :: "aworld \<Rightarrow> (agent, int) prog" where
  "RoleMgr_close w =
     bind (ask_ok w (New ''ACE_Message_Block'')) (\<lambda>mb.
     seq (remove_handler w) (
     if \<not> mb then ret (-1)
     else bind (ask_ok w (Sys ''putq ROLEMGR_CLOSE'')) (\<lambda>ok. ret (if ok then 0 else -1))))"

definition RoleMgr_close_thread :: "aworld \<Rightarrow> (agent, int) prog" where
  "RoleMgr_close_thread w =
     bind (gets m_shutdownOrdered) (\<lambda>ordered.
     if \<not> ordered then exit_with EXIT_FAILURE
     else seq (tell (Sys ''remove SIGALRM'')) (
     seq (modify (\<lambda>s. s\<lparr>m_drbdObj := False, m_arpObj := False, m_pingObj := False, m_ndiscObj := False,
            m_immObj := False, m_fileObj := False\<rparr>)) (
     bind (gets m_DMObj) (\<lambda>mon.
     seq (when_do mon (seq (DRBDMon_close w) (seq (tell (Sys ''wait DRBDMon'')) (modify (\<lambda>s. s\<lparr>m_DMObj := False\<rparr>))))) (
     bind (gets m_reactorRunner) (\<lambda>runner.
     seq (when_do runner (seq (tell (Sys ''stop reactor'')) (modify (\<lambda>s. s\<lparr>m_reactorRunner := False\<rparr>)))) (
     seq (p_close w) (ret 0))))))))"

text \<open>Messages of the device monitor: the type is the first word of the message.\<close>

definition readMsg :: "aworld \<Rightarrow> (agent, devmon_msg option) prog" where
  "readMsg w =
     bind (ask_str w (Sys ''read fifo'')) (\<lambda>bytes.
     ret (case bytes of
            None \<Rightarrow> None
          | Some [] \<Rightarrow> None
          | Some bs \<Rightarrow> Some (devmon_msg_of (word_of_bytes (take 4 (bs @ replicate 4 NUL))))))"

definition processMsg :: "aworld \<Rightarrow> devmon_msg \<Rightarrow> (agent, int) prog" where
  "processMsg w msg =
     (if msg = DRBD_ROLE_CHANGE then
        bind (deref m_drbdObj (drbdHealth w False)) (\<lambda>rc. if rc < 0 then fail_or_exit w else ret 0)
      else ret 0)"

definition dispatch :: "aworld \<Rightarrow> (agent, unit) prog" where
  "dispatch w =
     bind (ask_ok w (New ''HA_DEVMON_MsgT'')) (\<lambda>ok.
     if \<not> ok then ret ()
     else bind (readMsg w) (\<lambda>msg.
     case msg of None \<Rightarrow> ret () | Some m \<Rightarrow> seq (processMsg w m) (ret ())))"

definition RoleMgr_handle_input :: "aworld \<Rightarrow> (agent, int) prog" where
  "RoleMgr_handle_input w = seq (dispatch w) (ret 0)"

definition RoleMgr_handle_close :: "aworld \<Rightarrow> (agent, int) prog" where
  "RoleMgr_handle_close w = seq (remove_handler w) (ret 0)"

section \<open>Routines that only look\<close>

lemma quiet_probe [quiet_intros]: "keeps quiet (probe w ip i)"
  unfolding probe_def by (intro quiet_intros)

lemma quiet_probe_mips [quiet_intros]: "keeps quiet (probe_mips w k n)"
  by (induction k arbitrary: n) (auto intro!: quiet_intros)

lemma quiet_search_active [quiet_intros]: "keeps quiet (search_active w b)"
  unfolding search_active_def by (intro quiet_intros)

lemma quiet_must_probe [quiet_intros]: "keeps quiet (must_probe w)"
  unfolding must_probe_def by (intro quiet_intros)

section \<open>Taking the active role where nobody answers\<close>

definition prober_ready :: "agent \<Rightarrow> bool" where
  "prober_ready s \<longleftrightarrow> m_cngObj s \<and> (if m_isVirtual s then m_pingObj s else m_arpObj s)"

lemma quiet_prober_ready: "quiet s s' \<Longrightarrow> prober_ready s \<Longrightarrow> prober_ready s'"
  by (auto simp: prober_ready_def quiet_fields quiet_objects)

lemma probe_alone:
  assumes "no_answer w" "prober_ready s"
  shows "wp (probe w ip i) (\<lambda>found s'. \<not> found \<and> quiet s s') (\<lambda>_ _. False) s"
  using assms ping_prober.ask_alone [of w s m_pingObj ip i] arp_prober.ask_alone [of w s m_arpObj ip i]
  by (auto simp: probe_def wp_simps prober_ready_def)

lemma probe_mips_alone:
  assumes "no_answer w" "prober_ready s" "n + k \<le> length (mips (m_Config s))"
  shows "wp (probe_mips w k n) (\<lambda>found s'. \<not> found \<and> quiet s s') (\<lambda>_ _. False) s"
  using assms(2,3)
proof (induction k arbitrary: n s)
  case (Suc k)
  have cng: "m_cngObj s" using Suc.prems by (simp add: prober_ready_def)
  have "wp (probe_mips w k (Suc n)) (\<lambda>found s''. \<not> found \<and> quiet s s'') (\<lambda>_ _. False) s'" if q: "quiet s s'" for s'
    by (rule wp_mono [OF Suc.IH])
      (use Suc.prems q quiet_prober_ready quiet_objects [OF q] cng in \<open>auto intro: quiet_trans\<close>)
  then show ?case
    using Suc.prems cng
    by (auto simp: wp_simps wp_getConfig intro!: wp_mono [OF probe_alone [OF assms(1)]])
qed (simp add: wp_simps)

lemma imm_read_returns: "wp (imm_read w dn a) (\<lambda>_ _. True) E s"
  by (simp add: imm_read_def wp_simps wp_prod)

lemma must_probe_returns:
  assumes "m_immObj s" "m_fileObj s" "m_utilObj s"
  shows "wp (must_probe w) (\<lambda>_ s'. quiet s s') (\<lambda>_ _. False) s"
proof -
  have "wp (peerNodeLockd w) (\<lambda>_ _. True) (\<lambda>_ _. False) s"
    using assms(3) by (auto simp: peerNodeLockd_def Utils_def wp_simps wp_prod intro: wp_mono [OF imm_read_returns])
  from wp_keeps [OF this quiet_peerNodeLockd]
  have "wp (must_probe w) (\<lambda>_ _. True) (\<lambda>_ _. False) s"
    using assms(1,2) unfolding must_probe_def deref_def wp_bind wp_gets
    by (auto simp: wp_simps wp_prod LFileExist_def quiet_fields elim!: wp_mono)
  from wp_keeps [OF this quiet_must_probe] show ?thesis by (rule wp_mono) auto
qed

lemma clear_lock_wp:
  assumes "m_fileObj s" "\<forall>t. aw_ok w t (Sys ''unlink lock file'')"
  shows "wp (clear_lock w) (\<lambda>rc s'. rc = 0 \<and> \<not> f_lock s' \<and> m_startJobsDone s' = m_startJobsDone s) (\<lambda>_ _. False) s"
  using assms by (simp add: clear_lock_def wp_simps deref_def LFileExist_def RMLFile_def)

lemma search_active_alone:
  assumes "no_answer w" "prober_ready s" "unat (mip_size (m_Config s)) \<le> length (mips (m_Config s))"
  shows "wp (search_active w needed) (\<lambda>found s'. \<not> found \<and> quiet s s') (\<lambda>_ _. False) s"
  using assms probe_mips_alone [OF assms(1,2), of 0]
  by (simp add: search_active_def wp_simps wp_getConfig prober_ready_def)

text \<open>
  C21: Where no other node answers a probe, the split brain algorithm ends, allows the active role and
  leaves no lock file.
\<close>

theorem split_brain_alone:
  assumes "no_answer w" "prober_ready s" "m_immObj s" "m_fileObj s" "m_utilObj s"
    and "unat (mip_size (m_Config s)) \<le> length (mips (m_Config s))"
    and "\<forall>t. aw_ok w t (Sys ''unlink lock file'')"
  shows "\<exists>s'. splitBrainAlgo w s = Some (Ok 0, s') \<and> \<not> f_lock s' \<and> m_startJobsDone s' = m_startJobsDone s"
proof -
  have "wp (splitBrainAlgo w) (\<lambda>rc s''. rc = 0 \<and> \<not> f_lock s'' \<and> m_startJobsDone s'' = m_startJobsDone s) (\<lambda>_ _. False) s"
    unfolding splitBrainAlgo_def wp_bind
  proof (rule wp_mono [OF must_probe_returns [OF assms(3-5)]])
    fix needed s1 assume q: "quiet s s1"
    have cfg: "m_Config s1 = m_Config s" using quiet_objects(2) [OF q] assms(2) by (simp add: prober_ready_def)
    show "wp (search_active w needed) (\<lambda>x. wp (if x then seq (deref m_fileObj (LFile w)) (fail_or_exit w) else clear_lock w)
        (\<lambda>rc s''. rc = 0 \<and> \<not> f_lock s'' \<and> m_startJobsDone s'' = m_startJobsDone s) (\<lambda>_ _. False)) (\<lambda>_ _. False) s1"
      by (rule wp_mono [OF search_active_alone [OF assms(1) quiet_prober_ready [OF q assms(2)]]])
        (use assms(4,6,7) cfg q in \<open>auto intro!: wp_mono [OF clear_lock_wp] simp: quiet_fields\<close>)
  qed simp
  then show ?thesis by (auto simp: wp_iff)
qed

definition mip_config :: config where
  "mip_config = default_config\<lparr>mips := [(''10.0.0.1'', ''eth0''), (''10.0.0.2'', ''eth1'')], mip_size := 2\<rparr>"

theorem split_brain_alone_witness:
  "\<exists>s'. splitBrainAlgo calm_world (ready_agent\<lparr>m_oldhaState := HA_STANDBY, f_lock := True, m_Config := mip_config\<rparr>) = Some (Ok 0, s') \<and>
     \<not> f_lock s' \<and> m_startJobsDone s' = m_startJobsDone (ready_agent\<lparr>m_oldhaState := HA_STANDBY, f_lock := True, m_Config := mip_config\<rparr>)"
  by (rule split_brain_alone) (simp_all add: example_simps no_answer_def prober_ready_def mip_config_def)

section \<open>What the split brain algorithm guarantees in any environment\<close>

text \<open>
  If it returns, no jobs were started or stopped and the lock file is gone unless it could not be
  removed; if it leaves the process, the lock file is there unless it could not be created.
\<close>

definition split_brain_contract :: "aworld \<Rightarrow> agent \<Rightarrow> int res \<Rightarrow> agent \<Rightarrow> bool" where
  "split_brain_contract w s r s' \<longleftrightarrow> (case r of
      Ok rc \<Rightarrow> rc = 0 \<and> m_startJobsDone s' = m_startJobsDone s \<and> f_persis s' = f_persis s \<and>
        (f_lock s' \<longrightarrow> (\<exists>t. suffix (trc s) t \<and> \<not> aw_ok w t (Sys ''unlink lock file'')))
    | Exit c \<Rightarrow> c = EXIT_FAILURE \<and> f_persis s' = f_persis s \<and>
        (\<not> f_lock s' \<longrightarrow> (\<exists>t. suffix (trc s) t \<and> \<not> aw_ok w t (Sys ''open lock file'')))
    | Crash \<Rightarrow> True)"

lemma clear_lock_outcome:
  "outcome (clear_lock w) (split_brain_contract w s) s"
  by (auto simp: clear_lock_def outcome_simps deref_def LFileExist_def RMLFile_def split_brain_contract_def)

lemma step_down_outcome:
  "outcome (seq (deref m_fileObj (LFile w)) (fail_or_exit w)) (split_brain_contract w s) s"
proof (rule outcomeI)
  fix r :: "int res" and s' assume "seq (deref m_fileObj (LFile w)) (fail_or_exit w) s = Some (r, s')"
  then show "split_brain_contract w s r s'"
    by (auto simp: run_simps deref_def LFile_def ask_ok_def split_brain_contract_def same_files_def dest!: fail_or_exit_gone
        split: if_splits res.split)
qed

lemma split_brain_contract_quiet: "split_brain_contract w s1 r s' \<Longrightarrow> quiet s s1 \<Longrightarrow> split_brain_contract w s r s'"
  by (auto simp: split_brain_contract_def quiet_fields split: res.splits dest: quiet_history intro: suffix_order.trans)

text \<open>
  C20: In any environment the split brain algorithm keeps its contract: it returns 0 with the lock file
  removed, or it leaves the process with a failure and the lock file in place; the persistent file is
  not touched.
\<close>

theorem split_brain_outcome: "outcome (splitBrainAlgo w) (split_brain_contract w s) s"
  unfolding splitBrainAlgo_def
proof (intro outcome_bind_keeps [OF quiet_must_probe] outcome_bind_keeps [OF quiet_search_active])
    fix detected s1 s2 assume "quiet s s1" "quiet s1 s2"
    then have "quiet s s2" by (rule quiet_trans)
    then show "outcome (if detected then seq (deref m_fileObj (LFile w)) (fail_or_exit w) else clear_lock w) (split_brain_contract w s) s2"
      using outcome_mono [OF step_down_outcome] outcome_mono [OF clear_lock_outcome] split_brain_contract_quiet
      by (cases detected) (simp_all add: outcome_mono)
qed (simp_all add: split_brain_contract_def)

section \<open>Stepping down where the peer answers\<close>

lemma search_active_peer:
  assumes "arp_peer w c h2" "m_cngObj s" "ac_config c = m_Config s" "xtimes (m_Config s) \<noteq> 0"
    "\<not> m_isVirtual s" "m_arpObj s" "mip_size (m_Config s) \<noteq> 0" "mips (m_Config s) \<noteq> []"
  shows "wp (search_active w True) (\<lambda>found s'. found \<and> quiet s s') (\<lambda>_ _. False) s"
proof -
  obtain k where k: "unat (mip_size (m_Config s)) = Suc k"
    using assms(7) by (metis unat_eq_zero not0_implies_Suc)
  have "wp (search_active w True) (\<lambda>found s'. found) (\<lambda>_ _. False) s"
    using assms(2,5,6,8) by (auto simp: search_active_def wp_simps wp_getConfig k probe_def deref_def
        intro!: wp_mono [OF arping_peer [OF assms(1-4)]])
  from wp_keeps [OF this quiet_search_active] show ?thesis .
qed

definition peer_unlocked :: "aworld \<Rightarrow> bool" where
  "peer_unlocked w \<longleftrightarrow> (\<forall>t dn. aw_int w t (Imm ''attrValue'' dn) = 1)"

lemma imm_read_unlocked:
  "peer_unlocked w \<Longrightarrow> wp (imm_read w dn a) (\<lambda>(_, v) _. v \<noteq> Some 2 \<and> v \<noteq> Some 3) E s"
  by (simp add: imm_read_def wp_simps wp_prod peer_unlocked_def to_int32_def)

lemma must_probe_peer:
  assumes "peer_unlocked w" "m_immObj s" "m_fileObj s" "m_utilObj s" "\<not> m_haMode s \<or> m_oldhaState s \<noteq> HA_UNDEFINED \<or> f_lock s"
  shows "wp (must_probe w) (\<lambda>needed s'. needed \<and> quiet s s') (\<lambda>_ _. False) s"
proof -
  have "wp (peerNodeLockd w) (\<lambda>locked _. \<not> locked) (\<lambda>_ _. False) s"
    using assms(1,4) by (auto simp: peerNodeLockd_def Utils_def wp_simps wp_prod intro: wp_mono [OF imm_read_unlocked])
  from wp_keeps [OF this quiet_peerNodeLockd]
  have "wp (must_probe w) (\<lambda>needed _. needed) (\<lambda>_ _. False) s"
    using assms(2,3,5) unfolding must_probe_def deref_def wp_bind wp_gets
    by (auto simp: wp_simps wp_prod LFileExist_def quiet_fields elim!: wp_mono)
  from wp_keeps [OF this quiet_must_probe] show ?thesis .
qed

lemma wpE:
  assumes "wp m Q (\<lambda>_ _. False) s"
  obtains x s' where "m s = Some (Ok x, s')" "Q x s'"
  using assms by (auto simp: wp_iff)

text \<open>
  C5: If the peer is not locked and answers the ARP request for a movable address, a node that was in
  another role before, or finds the lock file, does not become active: it creates the lock file, asks
  AMF for a failover and leaves the process.
\<close>

theorem split_brain_peer:
  assumes peer: "arp_peer w c h2" "ac_config c = m_Config s" "peer_unlocked w"
    and env: "sleeps_end w" "\<forall>t. aw_ok w t (Sys ''open lock file'')"
    and objs: "m_immObj s" "m_fileObj s" "m_utilObj s" "m_cngObj s" "m_arpObj s" "\<not> m_isVirtual s" "m_haObj s"
    and cfg: "xtimes (m_Config s) \<noteq> 0" "mip_size (m_Config s) \<noteq> 0" "mips (m_Config s) \<noteq> []"
    and role: "m_haMode s" "m_oldhaState s \<noteq> HA_UNDEFINED \<or> f_lock s" "\<not> m_startJobsDone s"
  shows "\<exists>s'. splitBrainAlgo w s = Some (Exit EXIT_FAILURE, s') \<and> f_lock s' \<and> Report NODE_FAILOVER \<in> set (trc s')"
proof -
  obtain s1 where s1: "must_probe w s = Some (Ok True, s1)" "quiet s s1"
    by (rule wpE [OF must_probe_peer [OF peer(3) objs(1-3)]]) (use role in auto)
  have c1: "m_cngObj s1" "m_Config s1 = m_Config s" using quiet_objects [OF s1(2)] objs by auto
  obtain s2 where s2: "search_active w True s1 = Some (Ok True, s2)" "quiet s1 s2"
    by (rule wpE [OF search_active_peer [OF peer(1), of s1]])
      (use c1 cfg peer objs in \<open>auto simp: quiet_fields [OF s1(2)]\<close>)
  define s3 where "s3 = s2\<lparr>trc := Sys ''open lock file'' # trc s2, f_lock := True\<rparr>"
  have q: "quiet s s2" using s1(2) s2(2) by (rule quiet_trans)
  note f = quiet_fields [OF q] and o = quiet_objects [OF q]
  have l: "deref m_fileObj (LFile w) s2 = Some (Ok 0, s3)"
    using env(2) objs f by (simp add: deref_def LFile_def run_simps ask_ok_def s3_def)
  have s3: "m_utilObj s3" "m_cngObj s3" "m_haObj s3" "\<not> m_startJobsDone s3"
    using objs role o by (simp_all add: s3_def f)
  obtain s' where s': "nodefailOver w s3 = Some (Exit EXIT_FAILURE, s')" "Report NODE_FAILOVER \<in> set (trc s')"
    using failover_runs [OF env(1) s3] by blast
  moreover have "f_lock s'" using nodefailOver_ends [OF s'(1)] by (simp add: same_files_def s3_def)
  moreover have "splitBrainAlgo w s = Some (Exit EXIT_FAILURE, s')"
    using s1 s2 l s'(1) role(1) f by (simp add: splitBrainAlgo_def run_simps fail_or_exit_def s3_def)
  ultimately show ?thesis by blast
qed

definition peer_world :: aworld where
  "peer_world = calm_world\<lparr>
     aw_int := (\<lambda>_ c. case c of Imm a dn \<Rightarrow> 1 | Send a p \<Rightarrow> int (length p)
                 | Sys n \<Rightarrow> (if n = ''sll_pkttype'' then 0 else 1) | _ \<Rightarrow> 0),
     aw_str := (\<lambda>_ c. case c of Imm a dn \<Rightarrow> Some ''dstB''
                 | Sys n \<Rightarrow> (if n = ''source address'' then Some ''srcA''
                             else if n = ''getsockname arp'' then Some ''abcdef''
                             else Some (arp_reply demo_ctx ''uvwxyz'')) | _ \<Rightarrow> None)\<rparr>"

lemma arp_reply_config: "arp_reply (c\<lparr>ac_config := x\<rparr>) h = arp_reply c h"
  by (simp add: arp_reply_def)

theorem split_brain_peer_witness:
  "\<exists>s'. splitBrainAlgo peer_world (ready_agent\<lparr>m_oldhaState := HA_STANDBY, m_Config := mip_config\<rparr>) = Some (Exit EXIT_FAILURE, s') \<and>
     f_lock s' \<and> Report NODE_FAILOVER \<in> set (trc s')"
proof (rule split_brain_peer [where c = "demo_ctx\<lparr>ac_config := mip_config\<rparr>" and ?h2.0 = "''uvwxyz''"])
  show "arp_peer peer_world (demo_ctx\<lparr>ac_config := mip_config\<rparr>) ''uvwxyz''"
    by (simp add: arp_peer_def peer_world_def arp_wf_def arp_reply_config calm_world_def) (simp add: demo_ctx_def)
qed (simp_all add: example_simps peer_world_def mip_config_def sleeps_end_def peer_unlocked_def)

section \<open>An inconsistent disk\<close>

lemma files_p_open: "keeps same_files (p_open w)"
  unfolding p_open_def by (intro files.keeps_rules same_files_quiet quiet_intros keeps_modify) (simp add: same_files_def)

lemma files_initRoleMgr: "keeps same_files (initRoleMgr w)"
  unfolding initRoleMgr_def
  by (intro files.keeps_rules files_p_open files_new_object keeps_modify same_files_quiet quiet_intros)
    (simp_all add: same_files_def)

lemma inconsistent_disk_gone: "outcome (inconsistent_disk w p) (\<lambda>r _. gone r) s"
  unfolding inconsistent_disk_def
  by (intro exitless_gone exitless_gone_seq exitless.keeps_rules exitless_write exitless_PWROff exitless_of [OF jobs_createRCF]
      exitless_of [where R = quiet] quiet_intros outcomeI conjunct1 [OF fail_or_exit_gone])

lemma healthCheck_inconsistent:
  assumes "stored_cstate s = Some c" "syncing_target c"
  shows "outcome (healthCheck w) (\<lambda>r _. gone r) s"
proof (rule outcomeI)
  fix r s' assume run: "healthCheck w s = Some (r, s')"
  have *: "outcome get_persis_info (\<lambda>r _. r = Crash \<or> (\<exists>n. r = Ok (True, \<lparr>pi_cstate = c, pi_rebootCount = n\<rparr>))) s1"
    if "stored_cstate s1 = Some c" for s1
    by (rule outcome_mono [OF get_persis_stored [OF that]]) auto
  show "gone r"
    using run outcomeD [OF PWROff_stored [OF assms(1)]] outcomeD [OF *] outcomeD [OF inconsistent_disk_gone] assms(2)
    by (fastforce simp: healthCheck_def run_simps split: option.splits res.splits)
qed

text \<open>
  C4: A node that was the target of a synchronisation when the state was last stored never becomes
  active: the start of the role manager fails or leaves the process.
\<close>

theorem no_active_on_inconsistent_disk:
  assumes "stored_cstate s = Some c" "syncing_target c"
  shows "outcome (become_active w) (\<lambda>r _. r = Ok False \<or> r = Exit EXIT_FAILURE \<or> r = Crash) s"
proof (rule outcomeI)
  fix r s' assume run: "become_active w s = Some (r, s')"
  have i: "stored_cstate t = Some c \<and> (\<forall>c. q \<noteq> Exit c)" if "initRoleMgr w s = Some (q, t)" for q t
    using files_initRoleMgr [of w] that assms(1) by (auto simp: keeps_def same_files_def stored_cstate_def)
  have h: "q = Exit EXIT_FAILURE \<or> q = Crash" if "healthCheck w t = Some (q, t')" "stored_cstate t = Some c" for q t t'
    using outcomeD [OF healthCheck_inconsistent [OF that(2) assms(2)] that(1)] by (simp add: gone_def)
  obtain q t where q: "initRoleMgr w s = Some (q, t)" using run by (auto simp: become_active_def run_simps split: option.splits)
  show "r = Ok False \<or> r = Exit EXIT_FAILURE \<or> r = Crash"
  proof (cases "healthCheck w t")
    case None
    then show ?thesis using run q i by (auto simp: become_active_def run_simps split: res.splits if_splits)
  next
    case (Some y)
    then show ?thesis using run q i [OF q] h [of t "fst y" "snd y"]
      by (cases y) (auto simp: become_active_def run_simps split: res.splits if_splits)
  qed
qed

theorem no_active_on_inconsistent_disk_witness:
  "outcome (become_active calm_world) (\<lambda>r _. r = Ok False \<or> r = Exit EXIT_FAILURE \<or> r = Crash)
     (ready_agent\<lparr>f_persis := Some (encode_persis \<lparr>pi_cstate = ''SyncTarget'', pi_rebootCount = 0\<rparr>)\<rparr>)"
  by (rule no_active_on_inconsistent_disk [where c = "''SyncTarget''"])
    (simp_all add: stored_cstate_def syncing_target_def encode_persis_def cstr_def)

lemma APEvent_returns:
  assumes "\<forall>t. aw_int w t (Sys ''getpid'') < 1000000"
  shows "\<exists>rc s'. APEvent w s = Some (Ok rc, s') \<and> jobs_only s s'"
proof -
  have "nat (aw_int w t (Sys ''getpid'')) < 1000000" for t using spec [OF assms, of t] by linarith
  then have "\<exists>rc s'. APEvent w s = Some (Ok rc, s')"
    by (simp add: APEvent_def fillEvent_def run_simps ask_ok_def ask_int_def event_source_fits)
  then show ?thesis using jobs_quiet [OF quiet_APEvent] by (auto simp: keeps_def)
qed

lemma createRCF_returns:
  assumes "m_cngObj s"
  shows "\<exists>rc s'. createRCF w s = Some (Ok rc, s') \<and> jobs_only s s'"
proof -
  have "\<exists>rc s'. createRCF w s = Some (Ok rc, s')"
    using assms by (simp add: createRCF_def FileExist_def run_simps ask_ok_def)
  then show ?thesis using jobs_createRCF by (auto simp: keeps_def)
qed

lemma syncing_target_text: "syncing_target c \<Longrightarrow> length c < 16 \<and> NUL \<notin> set c"
  by (auto simp: syncing_target_def)

text \<open>
  C19: On an inconsistent disk the health check under AMF ends with a failover, and the reboot count in the
  persistent file has grown by one, whether or not the limit is reached.
\<close>

theorem healthCheck_counts:
  assumes "sleeps_end w" "\<forall>t. aw_int w t (Sys ''getpid'') < 1000000"
    and "m_utilObj s" "m_cngObj s" "m_haObj s" "\<not> m_startJobsDone s" "m_haMode s"
    and "m_pwrOffObj s" "m_map s = Mapped" "f_persis s = Some (encode_persis p @ zs)" "syncing_target (pi_cstate p)"
  shows "\<exists>s'. healthCheck w s = Some (Exit EXIT_FAILURE, s') \<and> Report NODE_FAILOVER \<in> set (trc s') \<and>
    f_persis s' = Some (encode_persis (p\<lparr>pi_rebootCount := pi_rebootCount p + 1\<rparr>) @ zs)"
proof -
  let ?p = "p\<lparr>pi_rebootCount := pi_rebootCount p + 1\<rparr>"
  have c: "length (pi_cstate p) < 16" "NUL \<notin> set (pi_cstate p)" using syncing_target_text [OF assms(11)] by auto
  have g: "get_persis_info s = Some (Ok (True, p), s)" using run_get_persis assms(9,10) c by simp
  obtain rc s1 where s1: "(if pi_rebootCount p \<ge> rebootCount (m_Config s) then APEvent w else createRCF w) s = Some (Ok rc, s1)"
    and j: "jobs_only s s1"
    using APEvent_returns [OF assms(2), of s] createRCF_returns [OF assms(4), of w]
    by (cases "pi_rebootCount p \<ge> rebootCount (m_Config s)") auto
  note f = jobs_only_fields [OF j]
  define s2 where "s2 = s1\<lparr>f_persis := Some (encode_persis ?p @ zs)\<rparr>"
  have w: "write_persis_info ?p s1 = Some (Ok True, s2)"
    using run_write_persis [of s1 "encode_persis p @ zs" ?p] c f(10,18) assms(9,10) by (simp add: s2_def)
  have "m_utilObj s2" "m_cngObj s2" "m_haObj s2" "\<not> m_startJobsDone s2" "m_haMode s2"
    using f(2,8,11,20,21) assms(3-7) by (simp_all add: s2_def)
  then obtain s' where s': "fail_or_exit w s2 = Some (Exit EXIT_FAILURE :: int res, s')" "same_files s2 s'" "Report NODE_FAILOVER \<in> set (trc s')"
    using run_fail_or_exit [OF assms(1)] by blast
  have "m_pwrOffObj s1" using f(7) assms(8) by simp
  then have "inconsistent_disk w p s = Some (Exit EXIT_FAILURE, s')"
    unfolding inconsistent_disk_def using assms(3,4) s1 w s'(1) by (simp add: run_simps)
  then have "healthCheck w s = Some (Exit EXIT_FAILURE, s')"
    using assms(8,11) g by (simp add: healthCheck_def run_simps)
  then show ?thesis using s'(2,3) by (auto simp: same_files_def s2_def)
qed

theorem healthCheck_counts_witness:
  "\<exists>s'. healthCheck calm_world (ready_agent\<lparr>m_pwrOffObj := True, m_map := Mapped,
        f_persis := Some (encode_persis \<lparr>pi_cstate = ''SyncTarget'', pi_rebootCount = 7\<rparr> @ [])\<rparr>) = Some (Exit EXIT_FAILURE, s') \<and>
    Report NODE_FAILOVER \<in> set (trc s') \<and>
    f_persis s' = Some (encode_persis (\<lparr>pi_cstate = ''SyncTarget'', pi_rebootCount = 7\<rparr>\<lparr>pi_rebootCount := pi_rebootCount \<lparr>pi_cstate = ''SyncTarget'', pi_rebootCount = 7\<rparr> + 1\<rparr>) @ [])"
  by (rule healthCheck_counts) (simp_all add: example_simps sleeps_end_def syncing_target_def)

section \<open>A start that succeeds\<close>

text \<open>Every call succeeds, every command returns 0, and nobody answers a probe.\<close>

definition good_start :: "aworld \<Rightarrow> bool" where
  "good_start w \<longleftrightarrow> (\<forall>t c. aw_ok w t c) \<and> (\<forall>t cmd. aw_shell w t cmd = Status 0) \<and>
     (\<forall>t. aw_int w t (Sys ''mkfifo'') \<in> {0, 1} \<and> aw_int w t (Sys ''open fifo'') \<noteq> -1) \<and> no_answer w"

lemma wp_new_object:
  "good_start w \<Longrightarrow> wp (new_object w c f) Q E s = Q True (f (s\<lparr>trc := New c # trc s\<rparr>))"
  by (simp add: new_object_def wp_simps good_start_def)

lemma wp_p_open:
  "good_start w \<Longrightarrow> (\<And>fd t. Q 0 (s\<lparr>trc := t, m_handle := fd\<rparr>)) \<Longrightarrow> wp (p_open w) Q E s"
  by (auto simp: p_open_def wp_simps good_start_def)

lemma wp_isVirtualNode:
  "(\<And>v s'. quiet s s' \<Longrightarrow> Q v s') \<Longrightarrow> wp (isVirtualNode w) Q E s"
proof -
  assume Q: "\<And>v s'. quiet s s' \<Longrightarrow> Q v s'"
  have "wp (isVirtualNode w) (\<lambda>_ _. True) (\<lambda>_ _. False) s"
    unfolding isVirtualNode_def wp_bind by (rule wp_mono [OF imm_read_returns]) (auto simp: wp_simps wp_prod)
  from wp_keeps [OF this quiet_isVirtualNode] show ?thesis by (rule wp_mono) (auto intro: Q)
qed

definition role_ready :: "agent \<Rightarrow> agent \<Rightarrow> bool" where
  "role_ready s s' \<longleftrightarrow> prober_ready s' \<and> m_drbdObj s' \<and> m_immObj s' \<and> m_fileObj s' \<and> \<not> m_assemble_force s' \<and>
     m_utilObj s' \<and> m_Config s' = m_Config s \<and> m_pwrOffObj s' = m_pwrOffObj s \<and> m_map s' = m_map s \<and> f_persis s' = f_persis s"

lemma role_ready_after:
  assumes "quiet s1 s'" "m_drbdObj s1" "m_immObj s1" "\<not> m_assemble_force s1" "m_utilObj s1" "m_cngObj s1"
    "m_Config s1 = m_Config s" "m_pwrOffObj s1 = m_pwrOffObj s" "m_map s1 = m_map s" "f_persis s1 = f_persis s"
  shows "m_drbdObj s' \<and> m_immObj s' \<and> \<not> m_assemble_force s' \<and> m_utilObj s' \<and> m_cngObj s' \<and> m_Config s' = m_Config s \<and>
    m_pwrOffObj s' = m_pwrOffObj s \<and> m_map s' = m_map s \<and> f_persis s' = f_persis s"
  using assms(2-) quiet_objects [OF assms(1)] by (simp add: quiet_fields [OF assms(1)])

lemma initRoleMgr_ready:
  assumes "good_start w" "m_utilObj s" "m_cngObj s"
  shows "wp (initRoleMgr w) (\<lambda>rc s'. rc = 0 \<and> role_ready s s') (\<lambda>_ _. False) s"
proof -
  have ok: "aw_ok w t c" for t c using assms(1) by (simp add: good_start_def)
  show ?thesis
    unfolding initRoleMgr_def wp_bind
    by (rule wp_p_open [OF assms(1)], simp add: wp_simps wp_new_object [OF assms(1)] ok, rule wp_isVirtualNode,
        drule role_ready_after [where s = s])
      (use assms in \<open>simp_all add: role_ready_def prober_ready_def wp_simps wp_new_object [OF assms(1)]\<close>)
qed

lemma jobs_only_probers: "jobs_only s s' \<Longrightarrow> m_pingObj s' = m_pingObj s \<and> m_arpObj s' = m_arpObj s"
  unfolding jobs_only_def by (auto dest: quiet_fields(16) quiet_fields(17))

lemma removeRCF_runs: "\<exists>rc s'. removeRCF w s = Some (Ok rc, s') \<and> jobs_only s s' \<and> m_assemble_force s' = m_assemble_force s"
proof -
  have "\<exists>rc s'. removeRCF w s = Some (Ok rc, s') \<and> m_assemble_force s' = m_assemble_force s"
    by (cases "f_rcf s = None") (simp_all add: removeRCF_def FileExist_def run_simps ask_ok_def)
  then show ?thesis using jobs_removeRCF by (auto simp: keeps_def)
qed

lemma healthCheck_passes:
  assumes "steady_disk w ''UpToDate'' r" "r \<in> {''Primary'', ''Secondary''}"
    and "m_utilObj s" "m_pwrOffObj s" "m_map s = Mapped" "m_drbdObj s"
    and "f_persis s = Some (encode_persis p @ zs)" "length (pi_cstate p) < 16" "NUL \<notin> set (pi_cstate p)" "\<not> syncing_target (pi_cstate p)"
  shows "\<exists>s' x. healthCheck w s = Some (Ok 0, s') \<and> jobs_only (s\<lparr>f_persis := x\<rparr>) s' \<and> m_assemble_force s' = m_assemble_force s"
proof -
  define x where "x = (if pi_rebootCount p > 0 then Some (encode_persis (p\<lparr>pi_rebootCount := 0\<rparr>) @ zs) else f_persis s)"
  define s1 where "s1 = s\<lparr>f_persis := x\<rparr>"
  have u: "m_utilObj s1" "m_drbdObj s1" using assms by (simp_all add: s1_def)
  obtain s2 where s2: "drbdHealth w True s1 = Some (Ok 0, s2)"
    using run_drbdHealth [OF assms(1) u(1), of True] assms(2) by auto
  have q: "quiet s1 s2" using keepsD [OF quiet_drbdHealth s2] .
  then have u2: "m_utilObj s2" using quiet_objects(1) u(1) by blast
  obtain rc s3 where s3: "removeRCF w s2 = Some (Ok rc, s3)" and j3: "jobs_only s2 s3" "m_assemble_force s3 = m_assemble_force s2"
    using removeRCF_runs by blast
  have g: "get_persis_info s = Some (Ok (True, p), s)" using run_get_persis assms(5,7,8,9) by simp
  have w: "write_persis_info (p\<lparr>pi_rebootCount := 0\<rparr>) s = Some (Ok True, s\<lparr>f_persis := Some (encode_persis (p\<lparr>pi_rebootCount := 0\<rparr>) @ zs)\<rparr>)"
    using run_write_persis [of s "encode_persis p @ zs" "p\<lparr>pi_rebootCount := 0\<rparr>"] assms(5,7,8) by simp
  have "healthCheck w s = Some (Ok 0, s3)"
    using g w s2 s3 u u2 assms(4,10) by (simp add: healthCheck_def run_simps deref_def s1_def x_def split: if_splits)
  moreover have "jobs_only (s\<lparr>f_persis := x\<rparr>) s3"
    using jobs_only_trans [OF quiet_jobs_only [OF q] j3(1)] by (simp add: s1_def)
  moreover have "m_assemble_force s3 = m_assemble_force s" using j3(2) quiet_fields(19) [OF q] by (simp add: s1_def)
  ultimately show ?thesis by blast
qed

lemma clear_lock_runs:
  assumes "m_fileObj s" "\<forall>t. aw_ok w t (Sys ''unlink lock file'')"
  shows "\<exists>t. clear_lock w s = Some (Ok 0, s\<lparr>trc := t, f_lock := False\<rparr>)"
proof (cases "f_lock s")
  case True
  then show ?thesis using assms by (auto simp: clear_lock_def run_simps deref_def LFileExist_def RMLFile_def ask_ok_def)
next
  case False
  then have "s\<lparr>trc := trc s, f_lock := False\<rparr> = s" by (cases s) simp
  moreover have "clear_lock w s = Some (Ok 0, s)" using False assms by (simp add: clear_lock_def run_simps deref_def LFileExist_def)
  ultimately show ?thesis by metis
qed

lemma split_brain_runs:
  assumes "no_answer w" "prober_ready s" "m_immObj s" "m_fileObj s" "m_utilObj s"
    and "unat (mip_size (m_Config s)) \<le> length (mips (m_Config s))"
    and "\<forall>t. aw_ok w t (Sys ''unlink lock file'')"
  shows "\<exists>s1 t. splitBrainAlgo w s = Some (Ok 0, s1\<lparr>trc := t, f_lock := False\<rparr>) \<and> quiet s s1"
proof -
  have "wp (must_probe w) (\<lambda>needed. wp (search_active w needed) (\<lambda>found s'. \<not> found \<and> quiet s s') (\<lambda>_ _. False)) (\<lambda>_ _. False) s"
  proof (rule wp_mono [OF must_probe_returns [OF assms(3-5)]])
    fix needed s1 assume q: "quiet s s1"
    have cfg: "m_Config s1 = m_Config s" using quiet_objects(2) [OF q] assms(2) by (simp add: prober_ready_def)
    show "wp (search_active w needed) (\<lambda>found s'. \<not> found \<and> quiet s s') (\<lambda>_ _. False) s1"
      by (rule wp_mono [OF search_active_alone [OF assms(1) quiet_prober_ready [OF q assms(2)]]])
        (use assms(6) cfg quiet_trans [OF q] in auto)
  qed simp
  then obtain needed s1 s2 where "must_probe w s = Some (Ok needed, s1)" "search_active w needed s1 = Some (Ok False, s2)" "quiet s s2"
    by (auto simp: wp_iff)
  moreover from this obtain t where "clear_lock w s2 = Some (Ok 0, s2\<lparr>trc := t, f_lock := False\<rparr>)"
    using clear_lock_runs [of s2 w] assms(4,7) by (auto simp: quiet_fields)
  ultimately show ?thesis by (auto simp: splitBrainAlgo_def run_simps)
qed

lemma start_jobs_succeed:
  assumes "good_start w" "m_utilObj s" "\<not> m_assemble_force s" "m_drbdObj s"
  shows "\<exists>s'. StartJobs w s = Some (Ok 0, s'\<lparr>m_startJobsDone := True\<rparr>) \<and> jobs_only s s'"
proof -
  have "\<exists>s'. drbdStartJobs w s = Some (Ok 0, s')"
    using assms by (simp add: drbdStartJobs_def run_bind run_seq run_modify run_ret run_if run_start_commands run_execlp good_start_def)
  then obtain s' where s': "drbdStartJobs w s = Some (Ok 0, s')" by blast
  then show ?thesis using keepsD [OF jobs_start s'] assms(4) by (auto simp: StartJobs_def deref_def run_simps)
qed

lemma become_active_runs:
  assumes "good_start w" "steady_disk w ''UpToDate'' r" "r \<in> {''Primary'', ''Secondary''}"
    and "m_utilObj s" "m_cngObj s" "m_pwrOffObj s" "m_map s = Mapped"
    and "unat (mip_size (m_Config s)) \<le> length (mips (m_Config s))"
    and "f_persis s = Some (encode_persis p @ zs)" "length (pi_cstate p) < 16" "NUL \<notin> set (pi_cstate p)" "\<not> syncing_target (pi_cstate p)"
  shows "\<exists>s'. become_active w s = Some (Ok True, s') \<and> m_startJobsDone s' \<and> m_DMObj s' \<and> \<not> f_lock s'"
proof -
  have ok: "aw_ok w t c" for t c using assms(1) by (simp add: good_start_def)
  obtain s1 where s1: "initRoleMgr w s = Some (Ok 0, s1)" and r: "role_ready s s1"
    using initRoleMgr_ready [OF assms(1,4,5)] by (auto simp: wp_iff)
  have cng: "m_cngObj s1" using r by (simp add: role_ready_def prober_ready_def)
  obtain s2 x where s2: "healthCheck w s1 = Some (Ok 0, s2)" and q2: "jobs_only (s1\<lparr>f_persis := x\<rparr>) s2"
      and force: "m_assemble_force s2 = m_assemble_force s1"
    using healthCheck_passes [OF assms(2,3), where s = s1 and p = p and zs = zs] assms(6,7,9-12) r by (auto simp: role_ready_def)
  have r2: "prober_ready s2" "m_immObj s2" "m_fileObj s2" "m_utilObj s2" "m_Config s2 = m_Config s" "m_drbdObj s2" "\<not> m_assemble_force s2"
    using r force jobs_only_fields(20,21) [OF q2] jobs_only_probers [OF q2]
    by (simp_all add: role_ready_def prober_ready_def jobs_only_fields(1-19) [OF q2])
  obtain s3 t where s3: "splitBrainAlgo w s2 = Some (Ok 0, s3\<lparr>trc := t, f_lock := False\<rparr>)" and q3: "quiet s2 s3"
    using split_brain_runs [of w, OF _ r2(1-4)] r2(5) assms(1,8) ok unfolding good_start_def by auto
  define s4 where "s4 = s3\<lparr>trc := t, f_lock := False\<rparr>"
  have r4: "m_utilObj s4" "\<not> m_assemble_force s4" "m_drbdObj s4"
    using r2 quiet_objects [OF q3] by (simp_all add: s4_def quiet_fields [OF q3])
  obtain s5 where s5: "StartJobs w s4 = Some (Ok 0, s5\<lparr>m_startJobsDone := True\<rparr>)" and j: "jobs_only s4 s5"
    using start_jobs_succeed [OF assms(1) r4] by blast
  have "f_lock s5 = f_lock s4" using jobs_only_fields(17) [OF j] .
  then have "\<not> f_lock s5" by (simp add: s4_def)
  then show ?thesis
    using s1 s2 s3 s5
    by (simp add: become_active_def run_bind s4_def [symmetric] start_drbdmon_def new_object_def DRBDMon_open_def DRBDMon_ctor_def run_simps ask_ok_def ok)
qed

end
