(* ===== verification/Agent_Adm.thy ===== *)
theory Agent_Adm
  imports Agent_RoleMgr
begin

text \<open>
  \<^verbatim>\<open>apos_ha_agent_actvAdm.cpp\<close> and \<^verbatim>\<open>apos_ha_agent_stbyAdm.cpp\<close>: the threads that administrate the
  active and the standby role.
\<close>

section \<open>Shared by both\<close>

text \<open>The loop of both threads: unknown messages are dropped, a shutdown or a failure ends it.\<close>

partial_function (option) adm_loop :: "aworld \<Rightarrow> string \<Rightarrow> agent \<Rightarrow> (unit res \<times> agent) option" where
  "adm_loop w queue s =
     bind (getq w queue) (\<lambda>msg s.
       if msg = None \<or> msg = Some AGENT_SHUTDOWN then Some (Ok (), s) else adm_loop w queue s) s"

text \<open>What both threads do on an error before they wait: restart under AMF, exit otherwise.\<close>

definition restart_or_exit :: "aworld \<Rightarrow> (agent, unit) prog" where
  "restart_or_exit w = bind (gets m_haMode) (\<lambda>ha. if ha then compRestart w else exit_with EXIT_FAILURE)"

definition readConfig_r :: "aworld \<Rightarrow> (agent, unit) prog" where
  "readConfig_r w = seq (Config w) (seq (readConfig w) (ret ()))"

text \<open>Registering a list of signal handlers, up to the first failure.\<close>

fun register_signals :: "aworld \<Rightarrow> string list \<Rightarrow> (agent, bool) prog" where
  "register_signals w [] = ret True"
| "register_signals w (sig # sigs) =
     bind (ask_ok w (Sys (''register '' @ sig))) (\<lambda>ok. if ok then register_signals w sigs else ret False)"

fun remove_signals :: "string list \<Rightarrow> (agent, unit) prog" where
  "remove_signals [] = ret ()"
| "remove_signals (sig # sigs) = seq (tell (Sys (''remove '' @ sig))) (remove_signals sigs)"

datatype signum = SIGINT | SIGHUP | EVENT_REBUILD | OTHER_SIGNAL

section \<open>The active administrator\<close>

definition actv_initClasses :: "aworld \<Rightarrow> (agent, int) prog" where
  "actv_initClasses w =
     seq (Utils w) (
     seq (Utils_init w) (
     seq (Config w) (
     bind (readConfig w) (\<lambda>rc.
     if rc < 0 then ret (-1)
     else bind (readMips w) (\<lambda>rc. ret (if rc < 0 then -1 else 0))))))"

definition actv_start :: "aworld \<Rightarrow> (agent, int) prog" where
  "actv_start w =
     bind (register_signals w [''SIGINT'', ''SIGHUP'']) (\<lambda>ok.
     if \<not> ok then ret (-1)
     else bind (actv_initClasses w) (\<lambda>rc.
     if rc < 0 then ret (-1)
     else ask_int w (Sys ''activate ACTVAdm'')))"

text \<open>\<^verbatim>\<open>start(agentHAClass*)\<close>, called with the object itself.\<close>

definition actv_start_ha :: "aworld \<Rightarrow> (agent, int) prog" where
  "actv_start_ha w = seq setHaMgr (seq (modify (\<lambda>s. s\<lparr>m_haMode := True\<rparr>)) (actv_start w))"

definition actv_stop :: "aworld \<Rightarrow> (agent, unit) prog" where
  "actv_stop w = seq (post w ''AGENT_SHUTDOWN'') (ret ())"

definition actv_handle_signal :: "aworld \<Rightarrow> signum \<Rightarrow> (agent, int) prog" where
  "actv_handle_signal w sig = seq (if sig = SIGHUP then readConfig_r w else actv_stop w) (ret 0)"

definition startRoleMgr :: "aworld \<Rightarrow> (agent, int) prog" where
  "startRoleMgr w =
     seq (roleMgr w) (bind (RoleMgr_open w) (\<lambda>rc. ret (if rc < 0 then -1 else 0)))"

definition actv_shutDown_all :: "aworld \<Rightarrow> (agent, unit) prog" where
  "actv_shutDown_all w =
     seq (remove_signals [''SIGHUP'', ''SIGINT'']) (
     seq (modify (\<lambda>s. s\<lparr>m_shutdownOrdered := True\<rparr>)) (
     seq (roleMgr w) (
     seq (RoleMgr_close w) (
     seq (roleMgr w) (tell (Sys ''wait RoleMgr''))))))"

definition actv_svc :: "aworld \<Rightarrow> (agent, int) prog" where
  "actv_svc w =
     bind (startRoleMgr w) (\<lambda>rc.
     seq (when_do (rc < 0) (restart_or_exit w)) (
     seq (adm_loop w ''ACTVAdm'') (
     seq (actv_shutDown_all w) (ret 0))))"

text \<open>The destructor.\<close>

definition actv_delete :: "(agent, unit) prog" where
  "actv_delete = deactivate"

section \<open>The standby administrator\<close>

definition stby_ctor :: "agent \<Rightarrow> agent" where
  "stby_ctor s = s\<lparr>sb_fileObj := False, sb_DMObj := False, ShutdownDone := False\<rparr>"

definition stby_initClasses :: "aworld \<Rightarrow> (agent, int) prog" where
  "stby_initClasses w =
     bind (new_object w ''HA_AGENT_LFile'' (\<lambda>s. s\<lparr>sb_fileObj := True\<rparr>)) (\<lambda>ok.
     if \<not> ok then ret (-1)
     else seq (Config w) (bind (readConfig w) (\<lambda>rc. ret (if rc < 0 then -1 else 0))))"

definition rmlockfile :: "aworld \<Rightarrow> (agent, int) prog" where
  "rmlockfile w =
     bind (deref sb_fileObj LFileExist) (\<lambda>lock.
     seq (when_do lock (seq (RMLFile w) (ret ()))) (ret 0))"

definition stby_start :: "aworld \<Rightarrow> (agent, int) prog" where
  "stby_start w =
     bind (register_signals w [''SIGINT'', ''SIGHUP'', ''EVENT_REBUILD'']) (\<lambda>ok.
     if \<not> ok then ret (-1)
     else bind (stby_initClasses w) (\<lambda>rc.
     if rc < 0 then ret (-1)
     else bind (rmlockfile w) (\<lambda>rc.
     if rc < 0 then ret (-1)
     else ask_int w (Sys ''activate STNBYAdm''))))"

definition stby_start_ha :: "aworld \<Rightarrow> (agent, int) prog" where
  "stby_start_ha w = seq setHaMgr (seq (modify (\<lambda>s. s\<lparr>m_haMode := True\<rparr>)) (stby_start w))"

definition stby_stop :: "aworld \<Rightarrow> (agent, unit) prog" where
  "stby_stop w =
     bind (gets ShutdownDone) (\<lambda>done.
     when_do (\<not> done)
       (seq (remove_signals [''SIGHUP'', ''SIGINT'', ''EVENT_REBUILD'']) (
        seq (post w ''AGENT_SHUTDOWN'') (
        modify (\<lambda>s. s\<lparr>ShutdownDone := True\<rparr>)))))"

definition stby_handle_signal :: "aworld \<Rightarrow> signum \<Rightarrow> (agent, int) prog" where
  "stby_handle_signal w sig =
     seq (case sig of
            SIGINT \<Rightarrow> stby_stop w
          | SIGHUP \<Rightarrow> readConfig_r w
          | EVENT_REBUILD \<Rightarrow> bind (gets sb_DMObj) (\<lambda>mon. when_do mon setRebuildInProgress)
          | OTHER_SIGNAL \<Rightarrow> stby_stop w) (ret 0)"

definition stby_close_thread :: "aworld \<Rightarrow> (agent, int) prog" where
  "stby_close_thread w =
     seq (modify (\<lambda>s. s\<lparr>sb_fileObj := False\<rparr>)) (
     bind (gets sb_DMObj) (\<lambda>mon.
     seq (when_do mon (seq (DRBDMon_close w) (seq (tell (Sys ''wait DRBDMon'')) (modify (\<lambda>s. s\<lparr>sb_DMObj := False\<rparr>))))) (
     seq (modify (\<lambda>s. s\<lparr>m_tasksDone := False\<rparr>)) (ret 0))))"

definition stby_jobs :: "aworld \<Rightarrow> (agent, unit) prog" where
  "stby_jobs w =
     seq (PWROff w) (
     bind get_persis_info (\<lambda>(_, pInfo).
     seq (PWROff w) (
     seq (write_persis_info (pInfo\<lparr>pi_rebootCount := 0\<rparr>)) (
     seq (Utils w) (
     seq (removeRCF w) (ret ()))))))"

definition stby_svc :: "aworld \<Rightarrow> (agent, int) prog" where
  "stby_svc w =
     bind (new_object w ''HA_AGENT_DRBDMon'' (\<lambda>s. DRBDMon_ctor (s\<lparr>sb_DMObj := True\<rparr>))) (\<lambda>ok.
     bind (if ok then bind (DRBDMon_open w) (\<lambda>rc. ret (rc = 0)) else ret False) (\<lambda>ok.
     seq (if ok then stby_jobs w else restart_or_exit w) (
     seq (modify (\<lambda>s. s\<lparr>m_tasksDone := True\<rparr>)) (
     seq (adm_loop w ''STNBYAdm'') (ret 0)))))"

definition stby_delete :: "(agent, unit) prog" where
  "stby_delete = seq deactivate (modify (\<lambda>s. s\<lparr>m_oldhaState := HA_STANDBY\<rparr>))"

end
