(* ===== verification/Agent_Ha.thy ===== *)
theory Agent_Ha
  imports Agent_Adm
begin

text \<open>
  \<^verbatim>\<open>apos_ha_agent_hamanager.cpp\<close>, the answer to the role changes of the availability management
  framework (AMF); \<^verbatim>\<open>apos_ha_agent_amfclass.cpp\<close>, the callbacks and the main loop of the daemon; and
  \<^verbatim>\<open>apos_ha_agent_main.cpp\<close>. A result of type \<^verbatim>\<open>ACS_APGCC_ReturnType\<close> is True for success.
\<close>

section \<open>Role changes\<close>

definition stopActv :: "aworld \<Rightarrow> (agent, unit) prog" where
  "stopActv w =
     bind (gets m_actvAdmObj) (\<lambda>present.
     when_do present
       (seq (actv_stop w) (
        seq (tell (Sys ''wait ACTVAdm'')) (
        seq actv_delete (
        modify (\<lambda>s. s\<lparr>m_actvAdmObj := False\<rparr>))))))"

definition stopStndby :: "aworld \<Rightarrow> (agent, unit) prog" where
  "stopStndby w =
     bind (gets m_stbyAdmObj) (\<lambda>present.
     when_do present
       (seq (stby_stop w) (
        seq (tell (Sys ''wait STNBYAdm'')) (
        seq stby_delete (
        modify (\<lambda>s. s\<lparr>m_stbyAdmObj := False\<rparr>))))))"

definition activateApp :: "aworld \<Rightarrow> (agent, bool) prog" where
  "activateApp w =
     bind (gets m_stbyAdmObj) (\<lambda>stby.
     seq (when_do stby (seq (stopStndby w) (modify (\<lambda>s. s\<lparr>m_oldhaState := HA_STANDBY\<rparr>)))) (
     bind (gets m_actvAdmObj) (\<lambda>actv.
     if actv then ret True
     else bind (new_object w ''HA_AGENT_ACTVAdm'' (\<lambda>s. s\<lparr>m_actvAdmObj := True\<rparr>)) (\<lambda>ok.
     if \<not> ok then ret False
     else bind (actv_start_ha w) (\<lambda>res.
     if res < 0 then
       seq actv_delete (seq (modify (\<lambda>s. s\<lparr>m_actvAdmObj := False\<rparr>)) (ret False))
     else bind (waitOntask w) (\<lambda>rc. ret (rc = 0)))))))"

definition passifyApp :: "aworld \<Rightarrow> (agent, bool) prog" where
  "passifyApp w =
     bind (gets m_stbyAdmObj) (\<lambda>stby.
     if stby then ret True
     else bind (new_object w ''HA_AGENT_STNBYAdm'' (\<lambda>s. stby_ctor (s\<lparr>m_stbyAdmObj := True\<rparr>))) (\<lambda>ok.
     if \<not> ok then ret False
     else bind (stby_start_ha w) (\<lambda>res.
     if res < 0 then
       seq stby_delete (seq (modify (\<lambda>s. s\<lparr>m_stbyAdmObj := False\<rparr>)) (ret False))
     else bind (waitOntask w) (\<lambda>rc. ret (rc = 0)))))"

definition stopApp :: "aworld \<Rightarrow> (agent, bool) prog" where
  "stopApp w = seq (stopActv w) (seq (stopStndby w) (ret True))"

definition performStateTransitionToActiveJobs :: "aworld \<Rightarrow> ha_state \<Rightarrow> (agent, bool) prog" where
  "performStateTransitionToActiveJobs w previousHAState =
     seq (modify (\<lambda>s. s\<lparr>m_oldhaState := previousHAState\<rparr>)) (activateApp w)"

definition performStateTransitionToPassiveJobs :: "aworld \<Rightarrow> ha_state \<Rightarrow> (agent, bool) prog" where
  "performStateTransitionToPassiveJobs w previousHAState =
     seq (modify (\<lambda>s. s\<lparr>m_oldhaState := previousHAState\<rparr>)) (passifyApp w)"

section \<open>AMF callbacks\<close>

text \<open>A call to AMF that carries an error code.\<close>

definition amf_answer :: "aworld \<Rightarrow> string \<Rightarrow> bool \<Rightarrow> (agent, bool) prog" where
  "amf_answer w call ok = ask_ok w (Send call (if ok then ''SA_AIS_OK'' else ''SA_AIS_ERR_FAILED_OPERATION''))"

definition restore_state :: "bool \<Rightarrow> ha_state \<Rightarrow> (agent, unit) prog" where
  "restore_state ok previous = when_do (\<not> ok) (modify (\<lambda>s. s\<lparr>haState := previous\<rparr>))"

definition coremw_csi_set_callback :: "aworld \<Rightarrow> ha_state \<Rightarrow> (agent, unit) prog" where
  "coremw_csi_set_callback w p_HAState =
     deref appMngrObj (
     bind (gets haState) (\<lambda>previousHAState.
     seq (modify (\<lambda>s. s\<lparr>haState := p_HAState\<rparr>)) (
     if p_HAState = HA_QUIESCING then
       seq (amf_answer w ''saAmfResponse'' True) (
       bind (stopApp w) (\<lambda>done.
       bind (amf_answer w ''saAmfCSIQuiescingComplete'' done) (\<lambda>ok.
       restore_state ok previousHAState)))
     else
       bind (case p_HAState of
               HA_ACTIVE \<Rightarrow> performStateTransitionToActiveJobs w previousHAState
             | HA_STANDBY \<Rightarrow> performStateTransitionToPassiveJobs w previousHAState
             | HA_QUIESCED \<Rightarrow> stopApp w
             | _ \<Rightarrow> ret True) (\<lambda>done.
       bind (amf_answer w ''saAmfResponse'' done) (\<lambda>ok.
       restore_state ok previousHAState)))))"

definition coremw_csi_remove_callback :: "aworld \<Rightarrow> (agent, unit) prog" where
  "coremw_csi_remove_callback w =
     deref appMngrObj (
     seq (modify (\<lambda>s. s\<lparr>haState := HA_UNDEFINED\<rparr>)) (
     bind (stopApp w) (\<lambda>done.
     seq (amf_answer w ''saAmfResponse'' done) (ret ()))))"

definition coremw_csi_terminate_callback :: "aworld \<Rightarrow> (agent, unit) prog" where
  "coremw_csi_terminate_callback w =
     deref appMngrObj (
     seq (modify (\<lambda>s. s\<lparr>haState := HA_UNDEFINED\<rparr>)) (
     bind (stopApp w) (\<lambda>done.
     bind (amf_answer w ''saAmfResponse'' done) (\<lambda>ok.
     when_do ok (modify (\<lambda>s. s\<lparr>termAppEventReceived := True\<rparr>))))))"

definition health_check_key :: string where
  "health_check_key = ''apos_ha_rdeagentd_hck''"

definition coremw_healthcheck_callback :: "aworld \<Rightarrow> string \<Rightarrow> (agent, unit) prog" where
  "coremw_healthcheck_callback w key =
     deref appMngrObj (deref hCheckKey (
     when_do (key = health_check_key) (seq (amf_answer w ''saAmfResponse'' True) (ret ()))))"

text \<open>
  \<^verbatim>\<open>dispatch(ACS_APGCC_AMF_DISPATCH_ALL)\<close>: AMF calls back for every pending event, then reports.
\<close>

definition amf_callback :: "aworld \<Rightarrow> int \<Rightarrow> (agent, unit) prog" where
  "amf_callback w event =
     (if event = 1 then coremw_csi_set_callback w HA_ACTIVE
      else if event = 2 then coremw_csi_set_callback w HA_STANDBY
      else if event = 3 then coremw_csi_set_callback w HA_QUIESCED
      else if event = 4 then coremw_csi_set_callback w HA_QUIESCING
      else if event = 5 then coremw_csi_remove_callback w
      else if event = 6 then coremw_csi_terminate_callback w
      else bind (ask_str w (Sys ''health check key'')) (\<lambda>key.
           coremw_healthcheck_callback w (case key of None \<Rightarrow> [] | Some k \<Rightarrow> cstr k)))"

partial_function (option) amf_callbacks :: "aworld \<Rightarrow> agent \<Rightarrow> (unit res \<times> agent) option" where
  "amf_callbacks w s =
     bind (ask_int w (Sys ''next callback'')) (\<lambda>event s.
       if event \<le> 0 then Some (Ok (), s) else seq (amf_callback w event) (amf_callbacks w) s) s"

definition amf_dispatch :: "aworld \<Rightarrow> (agent, bool) prog" where
  "amf_dispatch w = seq (amf_callbacks w) (ask_ok w (Sys ''saAmfDispatch''))"

section \<open>The daemon\<close>

text \<open>The result of \<^verbatim>\<open>safAMFInitialize\<close> is not looked at.\<close>

definition safAMFInitialize :: "aworld \<Rightarrow> (agent, bool) prog" where
  "safAMFInitialize w =
     bind (ask_ok w (Sys ''saAmfInitialize'')) (\<lambda>ok.
     if \<not> ok then ret False else seq (modify (\<lambda>s. s\<lparr>appMngrObj := True\<rparr>)) (ret True))"

definition coreMWInitialize :: "aworld \<Rightarrow> (agent, bool) prog" where
  "coreMWInitialize w =
     bind (ask_ok w (Sys ''signal SIGUSR2'')) (\<lambda>ok.
     if \<not> ok then ret False
     else seq (safAMFInitialize w) (
     bind (ask_ok w (Sys ''saAmfSelectionObjectGet'')) (\<lambda>ok.
     if \<not> ok then ret False
     else bind (ask_ok w (Sys ''saAmfComponentNameGet'')) (\<lambda>ok.
     if \<not> ok then ret False
     else bind (ask_ok w (Sys ''saAmfComponentRegister'')) (\<lambda>ok.
     if \<not> ok then ret False
     else seq (modify (\<lambda>s. s\<lparr>hCheckKey := True\<rparr>)) (
     ask_ok w (Sys ''saAmfHealthcheckStart'')))))))"

definition finalize :: "aworld \<Rightarrow> (agent, bool) prog" where
  "finalize w =
     bind (ask_ok w (Sys ''saAmfHealthcheckStop'')) (\<lambda>ok.
     if \<not> ok then ret False
     else seq (modify (\<lambda>s. s\<lparr>hCheckKey := False\<rparr>)) (
     bind (ask_ok w (Sys ''saAmfComponentUnregister'')) (\<lambda>ok.
     if \<not> ok then ret False else ask_ok w (Sys ''saAmfFinalize''))))"

definition AmfFinalize :: "aworld \<Rightarrow> (agent, bool) prog" where
  "AmfFinalize w = seq (modify (\<lambda>s. s\<lparr>hCheckKey := False\<rparr>)) (ask_ok w (Sys ''saAmfFinalize''))"

text \<open>
  The answers of \<^verbatim>\<open>poll\<close>: -2 interrupted, -1 failed, 0 nothing, otherwise bit 0 and bit 1 say which of
  the AMF handle and the shutdown pipe can be read.
\<close>

partial_function (option) poll_loop :: "aworld \<Rightarrow> agent \<Rightarrow> (unit res \<times> agent) option" where
  "poll_loop w s =
     bind (ask_int w (Sys ''poll'')) (\<lambda>r s.
       if r = -2 \<or> r = 0 then poll_loop w s
       else if r < 0 then Some (Ok (), s)
       else
         bind (if odd r then amf_dispatch w else ret True) (\<lambda>dispatched s.
           if \<not> dispatched then Some (Ok (), s)
           else if odd r \<and> termAppEventReceived s then Some (Ok (), s)
           else if odd (r div 2) then seq (stopApp w) (ret ()) s
           else poll_loop w s) s) s"

datatype ha_return = HA_SUCCESS | HA_FAILURE | HA_FAILURE_CLOSE

definition amf_activate :: "aworld \<Rightarrow> (agent, ha_return) prog" where
  "amf_activate w =
     bind (coreMWInitialize w) (\<lambda>ok.
     if \<not> ok then ret HA_FAILURE
     else bind (ask_ok w (Sys ''pipe'')) (\<lambda>ok.
     if \<not> ok then ret HA_FAILURE
     else bind (ask_ok w (Sys ''fcntl read'')) (\<lambda>ok.
     if \<not> ok then ret HA_FAILURE
     else bind (ask_ok w (Sys ''fcntl write'')) (\<lambda>ok.
     if \<not> ok then ret HA_FAILURE
     else seq (poll_loop w) (
     seq (tell (Sys ''close pipe'')) (
     bind (gets termAppEventReceived) (\<lambda>term.
     bind (if term then AmfFinalize w else finalize w) (\<lambda>ok.
     ret (if ok then HA_SUCCESS else HA_FAILURE_CLOSE)))))))))"

definition create_pidfile :: "aworld \<Rightarrow> (agent, bool) prog" where
  "create_pidfile w =
     bind (ask_ok w (Sys ''open pidfile'')) (\<lambda>ok.
     if \<not> ok then ret False
     else bind (ask_ok w (Sys ''flock LOCK_EX'')) (\<lambda>ok.
     if \<not> ok then seq (tell (Sys ''fclose'')) (ret False)
     else bind (ask_int w (Sys ''getpid'')) (\<lambda>pid.
     bind (ask_ok w (Send ''pidfile'' (show_nat (nat pid) @ [NL]))) (\<lambda>ok.
     if \<not> ok then seq (tell (Sys ''fclose'')) (ret False)
     else bind (ask_ok w (Sys ''flock LOCK_UN'')) (\<lambda>ok.
     seq (tell (Sys ''fclose'')) (ret ok))))))"

definition daemonize :: "aworld \<Rightarrow> (agent, unit) prog" where
  "daemonize w =
     bind (ask_int w (Sys ''getppid'')) (\<lambda>ppid.
     if ppid = 1 then ret ()
     else bind (ask_ok w (Sys ''setuid'')) (\<lambda>_.
     bind (ask_int w (Sys ''fork'')) (\<lambda>pid.
     if pid < 0 then exit_with EXIT_FAILURE
     else if 0 < pid then exit_with EXIT_SUCCESS
     else bind (ask_int w (Sys ''setsid'')) (\<lambda>sid.
     if sid < 0 then exit_with EXIT_FAILURE
     else seq (tell (Sys ''freopen'')) (
     bind (ask_ok w (Sys ''chdir'')) (\<lambda>ok.
     if \<not> ok then exit_with EXIT_FAILURE
     else bind (create_pidfile w) (\<lambda>ok.
     if \<not> ok then exit_with EXIT_FAILURE else tell (Sys ''signal''))))))))"

section \<open>The program\<close>

text \<open>
  \<^verbatim>\<open>getopt_long\<close> on one argument, with the options of the program, none of which takes a value: an
  option may be cut short where it stays unique. Arguments that are no options are moved to the end.
\<close>

datatype getopt_res = Option string | BadOption | NonOption | EndOptions

definition long_options :: "string list" where
  "long_options = [''noha'', ''active'', ''noactive'']"

definition getopt_long :: "string \<Rightarrow> getopt_res" where
  "getopt_long arg =
     (if arg = ''--'' then EndOptions
      else if take 2 arg = ''--'' then
        (let name = drop 2 arg in
         if name \<in> set long_options then Option name
         else (case List.filter (prefix name) long_options of [full] \<Rightarrow> Option full | _ \<Rightarrow> BadOption))
      else if take 1 arg = ''-'' \<and> arg \<noteq> ''-'' then BadOption
      else NonOption)"

record cmdline =
  nohaflag :: bool
  active :: bool
  noactive :: bool
  noha_opt_cnt :: nat
  active_opt_cnt :: nat
  passive_opt_cnt :: nat

definition cmdline_init :: cmdline where
  "cmdline_init = \<lparr>nohaflag = False, active = False, noactive = False, noha_opt_cnt = 0, active_opt_cnt = 0, passive_opt_cnt = 0\<rparr>"

text \<open>\<^verbatim>\<open>getopt_long\<close> sets the flag of the option; the counters are those of the loop body.\<close>

definition take_option :: "string \<Rightarrow> string \<Rightarrow> cmdline \<Rightarrow> cmdline option" where
  "take_option name arg c =
     (let c = c\<lparr>nohaflag := nohaflag c \<or> name = ''noha'', active := active c \<or> name = ''active'',
                noactive := noactive c \<or> name = ''noactive''\<rparr> in
      if name \<noteq> drop 2 arg then None
      else if name = ''noha'' then
        (if 0 < noha_opt_cnt c then None else Some (c\<lparr>noha_opt_cnt := noha_opt_cnt c + 1\<rparr>))
      else if name = ''active'' then
        (if 0 < active_opt_cnt c \<or> 0 < passive_opt_cnt c then None
         else Some (c\<lparr>active_opt_cnt := active_opt_cnt c + 1\<rparr>))
      else if name = ''passive'' then
        (if 0 < passive_opt_cnt c \<or> 0 < active_opt_cnt c then None
         else Some (c\<lparr>passive_opt_cnt := passive_opt_cnt c + 1\<rparr>))
      else Some c)"

text \<open>The loop; the flag says that an argument that is no option was seen.\<close>

fun parse_loop :: "string list \<Rightarrow> bool \<Rightarrow> cmdline \<Rightarrow> (cmdline \<times> bool) option" where
  "parse_loop [] nonopt c = Some (c, nonopt)"
| "parse_loop (arg # args) nonopt c =
     (case getopt_long arg of
        EndOptions \<Rightarrow> Some (c, True)
      | BadOption \<Rightarrow> None
      | NonOption \<Rightarrow> parse_loop args True c
      | Option name \<Rightarrow> (case take_option name arg c of None \<Rightarrow> None | Some c' \<Rightarrow> parse_loop args nonopt c'))"

text \<open>None is the result -1. An argument \<^verbatim>\<open>--\<close> and arguments left over are refused after the loop.\<close>

definition parse_command_line :: "string list \<Rightarrow> cmdline option" where
  "parse_command_line args =
     (case parse_loop args False cmdline_init of
        None \<Rightarrow> None
      | Some (c, nonopt) \<Rightarrow>
          if noha_opt_cnt c = 0 \<and> (0 < passive_opt_cnt c \<or> 0 < active_opt_cnt c) then None
          else if nonopt then None
          else Some c)"

definition run_active_daemon :: "aworld \<Rightarrow> (agent, unit) prog" where
  "run_active_daemon w =
     bind (ask_ok w (New ''HA_AGENT_ACTVAdm'')) (\<lambda>ok.
     when_do ok
       (bind (actv_start w) (\<lambda>res.
        seq (when_do (0 \<le> res) (tell (Sys ''wait ACTVAdm''))) actv_delete)))"

definition run_noactive_daemon :: "aworld \<Rightarrow> (agent, unit) prog" where
  "run_noactive_daemon w =
     bind (new_object w ''HA_AGENT_STNBYAdm'' stby_ctor) (\<lambda>ok.
     when_do ok
       (bind (stby_start w) (\<lambda>res.
        seq (when_do (0 \<le> res) (tell (Sys ''wait STNBYAdm''))) stby_delete)))"

definition run_agent_daemon :: "aworld \<Rightarrow> cmdline \<Rightarrow> (agent, int) prog" where
  "run_agent_daemon w c =
     bind (ask_ok w (Sys ''logtrace_init'')) (\<lambda>ok.
     if \<not> ok then ret (-1)
     else seq (if active c then run_active_daemon w
               else if noactive c then run_noactive_daemon w else ret ()) (ret 0))"

definition agent_main :: "aworld \<Rightarrow> string list \<Rightarrow> (agent, int) prog" where
  "agent_main w args =
     (case parse_command_line args of
        None \<Rightarrow> ret (-1)
      | Some c \<Rightarrow>
          if nohaflag c then run_agent_daemon w c
          else bind (ask_ok w (New ''agentHAClass'')) (\<lambda>ok.
          if \<not> ok then ret (-1)
          else seq (daemonize w) (
          bind (ask_ok w (Sys ''logtrace_init'')) (\<lambda>ok.
          if \<not> ok then ret (-1)
          else bind (amf_activate w) (\<lambda>errorCode.
          seq (stopApp w) (
          ret (case errorCode of HA_FAILURE \<Rightarrow> -2 | HA_FAILURE_CLOSE \<Rightarrow> -2 | HA_SUCCESS \<Rightarrow> 0)))))))"

section \<open>At most one administrator\<close>

text \<open>
  The frame of a routine that leaves the role and the pointers to the administrators alone; the two
  flags say which of the pointers it keeps.
\<close>

definition same_admins :: "bool \<Rightarrow> bool \<Rightarrow> agent \<Rightarrow> agent \<Rightarrow> bool" where
  "same_admins a b s s' \<longleftrightarrow> haState s' = haState s \<and> appMngrObj s' = appMngrObj s \<and>
     (a \<longrightarrow> m_actvAdmObj s' = m_actvAdmObj s) \<and> (b \<longrightarrow> m_stbyAdmObj s' = m_stbyAdmObj s)"

interpretation admins: frame "same_admins a b" for a b
  by unfold_locales (auto simp: same_admins_def)

named_theorems admins_intros "routines that keep the administrators"

lemma admins_quiet: "keeps quiet m \<Longrightarrow> keeps (same_admins a b) m"
  by (erule keeps_mono) (auto simp: same_admins_def elim!: quietE)

lemma admins_modify: "(\<And>s. same_admins a b s (f s)) \<Longrightarrow> keeps (same_admins a b) (modify f)"
  by (rule keeps_modify)

lemma admins_new_object [admins_intros]: "(\<And>s. same_admins a b s (f s)) \<Longrightarrow> keeps (same_admins a b) (new_object w c f)"
  unfolding new_object_def by (intro admins.keeps_rules admins_modify admins_quiet quiet_intros)

lemma admins_tell [admins_intros]: "keeps (same_admins a b) (tell c)" "keeps (same_admins a b) (ask_ok w c)" "keeps (same_admins a b) (ask_int w c)"
  by (intro admins_quiet quiet_intros)+

lemma admins_post [admins_intros]: "keeps (same_admins a b) (post w m)"
  unfolding post_def by (intro admins.keeps_rules admins_intros)

lemma admins_signals [admins_intros]: "keeps (same_admins a b) (register_signals w l)" "keeps (same_admins a b) (remove_signals l)"
  by (induction l) (auto intro!: admins.keeps_rules admins_intros)

lemma admins_access [admins_intros]: "keeps (same_admins a b) (Utils w)" "keeps (same_admins a b) (Config w)"
  by (intro admins_quiet quiet_intros)+

lemma admins_config [admins_intros]: "keeps (same_admins a b) (readConfig w)" "keeps (same_admins a b) (readMips w)"
  unfolding readConfig_def initLog_def readMips_def Let_def
  by (intro admins.keeps_rules admins_modify admins_quiet quiet_intros; simp add: same_admins_def)+

lemma admins_Utils_init [admins_intros]: "keeps (same_admins a b) (Utils_init w)"
  unfolding Utils_init_def Ap_def Gep_def Let_def
  by (intro admins.keeps_rules admins_modify admins_quiet quiet_intros; simp add: same_admins_def)

lemma admins_deactivate [admins_intros]: "keeps (same_admins a b) deactivate"
  unfolding deactivate_def by (intro admins.keeps_rules admins_modify) (simp_all add: same_admins_def reset_def)

lemma admins_deref [admins_intros]: "keeps (same_admins a b) m \<Longrightarrow> keeps (same_admins a b) (deref f m)"
  unfolding deref_def by (intro admins.keeps_rules)

lemma admins_rmlockfile [admins_intros]: "keeps (same_admins a b) (rmlockfile w)"
  unfolding rmlockfile_def LFileExist_def RMLFile_def
  by (intro admins.keeps_rules admins_intros admins_modify) (simp_all add: same_admins_def)

lemma admins_actv_start [admins_intros]: "keeps (same_admins a b) (actv_start_ha w)"
  unfolding actv_start_ha_def setHaMgr_def actv_start_def actv_initClasses_def
  by (intro admins.keeps_rules admins_intros admins_modify) (simp_all add: same_admins_def)

lemma admins_stby_start [admins_intros]: "keeps (same_admins a b) (stby_start_ha w)"
  unfolding stby_start_ha_def setHaMgr_def stby_start_def stby_initClasses_def
  by (intro admins.keeps_rules admins_intros admins_modify) (simp_all add: same_admins_def)

lemma admins_actv_stop [admins_intros]: "keeps (same_admins a b) (actv_stop w)" "keeps (same_admins a b) actv_delete"
  unfolding actv_stop_def actv_delete_def by (intro admins.keeps_rules admins_intros)+

lemma admins_stby_stop [admins_intros]: "keeps (same_admins a b) (stby_stop w)" "keeps (same_admins a b) stby_delete"
  unfolding stby_stop_def stby_delete_def
  by (intro admins.keeps_rules admins_intros admins_modify; simp add: same_admins_def)+

lemmas wait_loop_induct [consumes 1, case_names step] = wait_loop.raw_induct [rotated]

lemma admins_task_progress: "keeps (same_admins a b) (seq (deref m_utilObj (msec_sleep w 1000)) (task_progress w))"
  unfolding task_progress_def
  by (intro admins.keeps_rules admins_intros admins_modify admins_quiet quiet_intros) (simp add: same_admins_def)

lemma admins_wait_loop: "keeps (same_admins a b) (wait_loop w n k)"
proof (rule keepsI)
  fix s r s' assume "wait_loop w n k s = Some (r, s')"
  then show "same_admins a b s s' \<and> (\<forall>c. r \<noteq> Exit c)"
  proof (induction w n k s "(r, s')" rule: wait_loop_induct)
    case (step f w n k s)
    show ?case
    proof (cases "\<not> m_tasksDone s \<and> \<not> m_compRestart s \<and> k \<le> n")
      case True
      then have "seq (seq (deref m_utilObj (msec_sleep w 1000)) (task_progress w)) (f w n (Suc k)) s = Some (r, s')"
        using step.hyps(2) by (simp add: seq_def bind_assoc)
      then obtain q t where q: "seq (deref m_utilObj (msec_sleep w 1000)) (task_progress w) s = Some (q, t)"
        by (auto simp: run_seq [of _ "f w n (Suc k)"] split: option.splits)
      moreover have "same_admins a b s t \<and> (\<forall>c. q \<noteq> Exit c)"
        using q admins_task_progress [of a b w] by (auto simp: keeps_def)
      ultimately show ?thesis
        using \<open>seq _ _ s = Some (r, s')\<close> step.hyps(1) [of w n "Suc k" t]
        by (auto simp: run_seq [of _ "f w n (Suc k)"] split: res.splits intro: admins.frame_trans)
    next
      case False
      then show ?thesis using step.hyps(2) by (auto simp: same_admins_def)
    qed
  qed
qed

lemma admins_waitOntask [admins_intros]: "keeps (same_admins a b) (waitOntask w)"
  unfolding waitOntask_def
  by (intro admins.keeps_rules admins_intros admins_wait_loop)

definition one_role :: "agent \<Rightarrow> bool" where
  "one_role s \<longleftrightarrow> (m_actvAdmObj s \<longrightarrow> haState s = HA_ACTIVE) \<and> (m_stbyAdmObj s \<longrightarrow> haState s = HA_STANDBY)"

lemma admins_stopActv: "keeps (same_admins False b) (stopActv w)"
  unfolding stopActv_def
  by (intro admins.keeps_rules admins_intros admins_modify) (simp add: same_admins_def)

lemma admins_stopStndby: "keeps (same_admins a False) (stopStndby w)"
  unfolding stopStndby_def
  by (intro admins.keeps_rules admins_intros admins_modify) (simp add: same_admins_def)

lemma stopActv_stops: "stopActv w s = Some (Ok x, s') \<Longrightarrow> \<not> m_actvAdmObj s'"
  by (auto simp: stopActv_def ok_simps split: if_splits)

lemma stopStndby_stops: "stopStndby w s = Some (Ok x, s') \<Longrightarrow> \<not> m_stbyAdmObj s'"
  by (auto simp: stopStndby_def ok_simps split: if_splits)

lemma stopApp_stops:
  assumes "stopApp w s = Some (Ok x, s')"
  shows "\<not> m_actvAdmObj s' \<and> \<not> m_stbyAdmObj s' \<and> haState s' = haState s"
proof -
  obtain s1 y z where s1: "stopActv w s = Some (Ok y, s1)" "stopStndby w s1 = Some (Ok z, s')"
    using assms by (auto simp: stopApp_def ok_simps)
  then show ?thesis
    using stopActv_stops [OF s1(1)] stopStndby_stops [OF s1(2)] keepsD [OF admins_stopActv s1(1)] keepsD [OF admins_stopStndby s1(2)]
    by (auto simp: same_admins_def)
qed

lemma passifyApp_keeps: "keeps (same_admins True False) (passifyApp w)"
  unfolding passifyApp_def stby_ctor_def
  by (intro admins.keeps_rules admins_intros admins_modify) (simp_all add: same_admins_def)

lemma activateApp_stops:
  assumes "activateApp w s = Some (Ok x, s')"
  shows "\<not> m_stbyAdmObj s' \<and> haState s' = haState s"
proof -
  define rest where "rest = bind (gets m_actvAdmObj) (\<lambda>actv.
     if actv then ret True
     else bind (new_object w ''HA_AGENT_ACTVAdm'' (\<lambda>s. s\<lparr>m_actvAdmObj := True\<rparr>)) (\<lambda>ok.
     if \<not> ok then ret False
     else bind (actv_start_ha w) (\<lambda>res.
     if res < 0 then
       seq actv_delete (seq (modify (\<lambda>s. s\<lparr>m_actvAdmObj := False\<rparr>)) (ret False))
     else bind (waitOntask w) (\<lambda>rc. ret (rc = 0)))))"
  have k: "keeps (same_admins False True) rest"
    unfolding rest_def by (intro admins.keeps_rules admins_intros admins_modify) (simp_all add: same_admins_def)
  obtain s1 y where s1: "when_do (m_stbyAdmObj s) (seq (stopStndby w) (modify (\<lambda>s. s\<lparr>m_oldhaState := HA_STANDBY\<rparr>))) s = Some (Ok y, s1)"
    "rest s1 = Some (Ok x, s')"
    using assms unfolding activateApp_def rest_def [symmetric] by (auto simp: ok_simps)
  have "\<not> m_stbyAdmObj s1 \<and> haState s1 = haState s"
    using s1(1) stopStndby_stops keepsD [OF admins_stopStndby, of w s _ _ False]
    by (auto simp: ok_simps same_admins_def split: if_splits)
  then show ?thesis using keepsD [OF k s1(2)] by (simp add: same_admins_def)
qed

text \<open>AMF takes the answers, and orders standby only on a node that is not active.\<close>

definition amf_accepts :: "aworld \<Rightarrow> bool" where
  "amf_accepts w \<longleftrightarrow> (\<forall>t x. aw_ok w t (Send ''saAmfResponse'' x))"

definition legal_event :: "agent \<Rightarrow> int \<Rightarrow> bool" where
  "legal_event s e \<longleftrightarrow> (e = 2 \<longrightarrow> haState s \<noteq> HA_ACTIVE)"

lemma run_amf_answer: "amf_answer w c b s = Some (r, s') \<Longrightarrow> \<exists>ok t. r = Ok ok \<and> s' = s\<lparr>trc := t\<rparr>"
  by (auto simp: amf_answer_def ask_ok_def run_simps)

lemma run_amf_response:
  "amf_accepts w \<Longrightarrow> amf_answer w ''saAmfResponse'' b s =
     Some (Ok True, s\<lparr>trc := Send ''saAmfResponse'' (if b then ''SA_AIS_OK'' else ''SA_AIS_ERR_FAILED_OPERATION'') # trc s\<rparr>)"
  by (simp add: amf_answer_def ask_ok_def amf_accepts_def run_simps)

lemma set_callback_one_role:
  assumes "amf_accepts w" "one_role s" "p \<noteq> HA_UNDEFINED" "p = HA_STANDBY \<longrightarrow> haState s \<noteq> HA_ACTIVE" "coremw_csi_set_callback w p s = Some (Ok x, s')"
  shows "one_role s'"
proof (cases "p = HA_QUIESCING")
  case True
  then show ?thesis
    using assms(5)
    by (auto simp: coremw_csi_set_callback_def deref_def ok_simps restore_state_def one_role_def split: if_splits
        dest!: run_amf_answer stopApp_stops)
next
  case False
  define s0 where "s0 = s\<lparr>haState := p\<rparr>"
  obtain d s1 where s1: "(case p of HA_ACTIVE \<Rightarrow> performStateTransitionToActiveJobs w (haState s)
             | HA_STANDBY \<Rightarrow> performStateTransitionToPassiveJobs w (haState s)
             | HA_QUIESCED \<Rightarrow> stopApp w
             | _ \<Rightarrow> ret True) s0 = Some (Ok d, s1)"
    and t: "one_role s' = one_role s1"
    using assms(5) False
    by (auto simp: coremw_csi_set_callback_def deref_def ok_simps restore_state_def s0_def run_amf_response [OF assms(1)] one_role_def
        split: if_splits)
  have "one_role s1"
  proof (cases p)
    case HA_ACTIVE
    then show ?thesis using s1
      by (auto simp: performStateTransitionToActiveJobs_def ok_simps s0_def one_role_def dest!: activateApp_stops)
  next
    case HA_STANDBY
    then have "\<not> m_actvAdmObj s" using assms(2,4) by (auto simp: one_role_def)
    then show ?thesis using s1 HA_STANDBY
      by (auto simp: performStateTransitionToPassiveJobs_def ok_simps s0_def one_role_def same_admins_def dest!: keepsD [OF passifyApp_keeps])
  next
    case HA_QUIESCED
    then show ?thesis using s1 by (auto simp: one_role_def dest!: stopApp_stops)
  qed (use False assms(3) s1 in \<open>auto simp: ok_simps\<close>)
  then show ?thesis using t by (simp add: one_role_def)
qed

lemma stop_callbacks_one_role:
  "coremw_csi_remove_callback w s = Some (Ok x, s') \<Longrightarrow> one_role s'"
  "coremw_csi_terminate_callback w s = Some (Ok x, s') \<Longrightarrow> one_role s'"
  by (auto simp: coremw_csi_remove_callback_def coremw_csi_terminate_callback_def deref_def ok_simps one_role_def split: if_splits
      dest!: run_amf_answer stopApp_stops)

lemma admins_healthcheck: "keeps (same_admins True True) (bind (ask_str w c) (\<lambda>key. coremw_healthcheck_callback w (f key)))"
  unfolding coremw_healthcheck_callback_def amf_answer_def
  by (intro admins.keeps_rules admins_intros admins_quiet quiet_intros)

lemma amf_callback_one_role:
  assumes "amf_accepts w" "one_role s" "legal_event s e" "amf_callback w e s = Some (Ok x, s')"
  shows "one_role s'"
proof -
  have h: "one_role s'" if "bind (ask_str w (Sys ''health check key'')) (\<lambda>key.
           coremw_healthcheck_callback w (case key of None \<Rightarrow> [] | Some k \<Rightarrow> cstr k)) s = Some (Ok x, s')"
    using keepsD [OF admins_healthcheck that] assms(2) by (simp add: one_role_def same_admins_def)
  show ?thesis
    using assms(3,4) set_callback_one_role [OF assms(1,2), of _ x s'] stop_callbacks_one_role [of w s x s'] h
    unfolding amf_callback_def legal_event_def by (fastforce split: if_splits)
qed

text \<open>Sequences of callbacks.\<close>

inductive amf_run :: "aworld \<Rightarrow> agent \<Rightarrow> agent \<Rightarrow> bool" for w where
  start: "amf_run w s s"
| event: "amf_run w s s' \<Longrightarrow> legal_event s' e \<Longrightarrow> amf_callback w e s' = Some (Ok (), s'') \<Longrightarrow> amf_run w s s''"


definition standby_agent :: agent where
  "standby_agent = ready_agent\<lparr>appMngrObj := True, m_stbyAdmObj := True, haState := HA_STANDBY\<rparr>"

lemma standby_quiesced: "\<exists>s'. amf_callback calm_world 3 standby_agent = Some (Ok (), s') \<and> haState s' = HA_QUIESCED"
  by (simp add: amf_callback_def coremw_csi_set_callback_def stopApp_def stopActv_def stopStndby_def stby_stop_def stby_delete_def
      deactivate_def reset_def post_def tell_def run_simps deref_def ask_ok_def amf_answer_def restore_state_def standby_agent_def example_simps)


section \<open>What the command line may be\<close>

definition good_args :: "string list \<Rightarrow> bool" where
  "good_args args \<longleftrightarrow> set args \<subseteq> {''--noha'', ''--active'', ''--noactive''} \<and> count_list args ''--noha'' \<le> 1 \<and>
     count_list args ''--active'' \<le> 1 \<and> (''--active'' \<in> set args \<longrightarrow> ''--noha'' \<in> set args)"

definition option_flags :: "string list \<Rightarrow> cmdline \<Rightarrow> cmdline" where
  "option_flags args c = c\<lparr>nohaflag := nohaflag c \<or> ''--noha'' \<in> set args, active := active c \<or> ''--active'' \<in> set args,
     noactive := noactive c \<or> ''--noactive'' \<in> set args, noha_opt_cnt := noha_opt_cnt c + count_list args ''--noha'',
     active_opt_cnt := active_opt_cnt c + count_list args ''--active''\<rparr>"

lemma getopt_exact:
  "getopt_long ''--noha'' = Option ''noha''" "getopt_long ''--active'' = Option ''active''" "getopt_long ''--noactive'' = Option ''noactive''"
  by (simp_all add: getopt_long_def long_options_def)

lemma getopt_name: "getopt_long arg = Option name \<Longrightarrow> name \<in> set long_options"
proof -
  have "name \<in> set long_options" if "List.filter P long_options = [name]" for P
  proof -
    have "name \<in> set (List.filter P long_options)" using that by simp
    then show ?thesis by simp
  qed
  then show "getopt_long arg = Option name \<Longrightarrow> name \<in> set long_options"
    by (auto simp: getopt_long_def Let_def split: if_splits list.splits)
qed

lemma getopt_other:
  assumes "getopt_long arg = Option name" "name = drop 2 arg"
  shows "arg \<in> {''--noha'', ''--active'', ''--noactive''}"
proof -
  have "take 2 arg = ''--''" using assms(1) by (auto simp: getopt_long_def split: if_splits)
  then have "arg = ''--'' @ name" using assms(2) append_take_drop_id [of 2 arg] by metis
  then show ?thesis using getopt_name [OF assms(1)] by (auto simp: long_options_def)
qed

lemma parse_loop_None:
  assumes "arg \<notin> {''--noha'', ''--active'', ''--noactive''}"
  shows "parse_loop (arg # args) n c \<noteq> Some (c', False)"
proof -
  have n: "parse_loop args True c \<noteq> Some (c', False)" for args c
    by (induction args "True" c rule: parse_loop.induct) (auto split: getopt_res.splits option.splits)
  show ?thesis using assms getopt_other [of arg] n by (auto simp: take_option_def Let_def split: getopt_res.splits)
qed

lemma option_flags_Nil [simp]: "option_flags [] c = c"
  by (simp add: option_flags_def)

lemma take_option_exact:
  assumes "passive_opt_cnt c = 0"
  shows "take_option ''noha'' ''--noha'' c = (if 0 < noha_opt_cnt c then None else Some (option_flags [''--noha''] c))"
    "take_option ''active'' ''--active'' c = (if 0 < active_opt_cnt c then None else Some (option_flags [''--active''] c))"
    "take_option ''noactive'' ''--noactive'' c = Some (option_flags [''--noactive''] c)"
  using assms by (simp_all add: take_option_def option_flags_def Let_def)

lemma option_flags_append: "option_flags (args @ args') c = option_flags args' (option_flags args c)"
  by (simp add: option_flags_def)

lemma parse_loop_iff:
  assumes "passive_opt_cnt c = 0" "noha_opt_cnt c \<le> 1" "active_opt_cnt c \<le> 1"
  shows "parse_loop args False c = Some (c', False) \<longleftrightarrow>
    set args \<subseteq> {''--noha'', ''--active'', ''--noactive''} \<and> noha_opt_cnt c + count_list args ''--noha'' \<le> 1 \<and>
    active_opt_cnt c + count_list args ''--active'' \<le> 1 \<and> c' = option_flags args c"
  using assms
proof (induction args arbitrary: c)
  case Nil
  then show ?case by auto
next
  case (Cons arg args)
  have f: "option_flags (arg # args) c = option_flags args (option_flags [arg] c)"
    using option_flags_append [of "[arg]" args c] by simp
  have k: "passive_opt_cnt (option_flags [arg] c) = 0" using Cons.prems by (simp add: option_flags_def)
  show ?case
  proof (cases "arg \<in> {''--noha'', ''--active'', ''--noactive''}")
    case False
    then show ?thesis using parse_loop_None [OF False] by auto
  next
    case True
    then consider "arg = ''--noha''" | "arg = ''--active''" | "arg = ''--noactive''" by auto
    then show ?thesis
    proof cases
      case 1
      then show ?thesis using Cons.prems Cons.IH [of "option_flags [arg] c"] f k
        by (auto simp: getopt_exact take_option_exact option_flags_def split: if_splits)
    next
      case 2
      then show ?thesis using Cons.prems Cons.IH [of "option_flags [arg] c"] f k
        by (auto simp: getopt_exact take_option_exact option_flags_def split: if_splits)
    next
      case 3
      then show ?thesis using Cons.prems Cons.IH [of "option_flags [arg] c"] f k
        by (auto simp: getopt_exact take_option_exact option_flags_def split: if_splits)
    qed
  qed
qed

text \<open>
  C35: The program accepts exactly the command lines of the options \<^verbatim>\<open>--noha\<close>, \<^verbatim>\<open>--active\<close> and \<^verbatim>\<open>--noactive\<close>,
  spelled out, with the first two at most once and \<^verbatim>\<open>--active\<close> only together with \<^verbatim>\<open>--noha\<close>; the flags say
  which were given. It accepts \<^verbatim>\<open>--active\<close> together with \<^verbatim>\<open>--noactive\<close>.
\<close>

theorem parse_command_line_spec:
  "parse_command_line args = (if good_args args then Some (option_flags args cmdline_init) else None)"
proof -
  have iff: "parse_loop args False cmdline_init = Some (c', False) \<longleftrightarrow>
    set args \<subseteq> {''--noha'', ''--active'', ''--noactive''} \<and> count_list args ''--noha'' \<le> 1 \<and>
    count_list args ''--active'' \<le> 1 \<and> c' = option_flags args cmdline_init" for c'
    using parse_loop_iff [of cmdline_init args c'] by (simp add: cmdline_init_def)
  have cnt: "noha_opt_cnt (option_flags args cmdline_init) = 0 \<longleftrightarrow> ''--noha'' \<notin> set args"
    "0 < active_opt_cnt (option_flags args cmdline_init) \<longleftrightarrow> ''--active'' \<in> set args"
    "passive_opt_cnt (option_flags args cmdline_init) = 0"
    by (simp_all add: option_flags_def cmdline_init_def count_list_0_iff zero_less_iff_neq_zero)
  show ?thesis
  proof (cases "parse_loop args False cmdline_init")
    case None
    then have "\<not> good_args args" using iff [of "option_flags args cmdline_init"] by (auto simp: good_args_def)
    then show ?thesis using None by (simp add: parse_command_line_def)
  next
    case (Some y)
    obtain c n where y: "y = (c, n)" by (cases y)
    show ?thesis
    proof (cases n)
      case True
      then have "\<not> good_args args" using iff [of "option_flags args cmdline_init"] Some y by (auto simp: good_args_def)
      then show ?thesis using Some y True by (simp add: parse_command_line_def)
    next
      case False
      then show ?thesis using iff [of c] Some y cnt by (auto simp: parse_command_line_def good_args_def)
    qed
  qed
qed

end
