(* ===== verification/Devmon_State.thy ===== *)
theory Devmon_State
  imports Agent_PowerOff
begin

text \<open>
  The device monitor of the data disk (\<^verbatim>\<open>src/ha_cnz/haadm_devmon_caa/drbd\<close>): the types of
  \<^verbatim>\<open>apos_ha_devmon_types.h\<close>, the state of its objects, \<^verbatim>\<open>apos_ha_devmon_utils.cpp\<close>,
  \<^verbatim>\<open>apos_ha_devmon_config.cpp\<close> and \<^verbatim>\<open>apos_ha_devmon_global.cpp\<close>. As for the agent, one record holds
  the members of all objects, a pointer is a flag, and everything outside the program answers through
  the parameter \<open>w\<close>, an environment of the same type. The two threads that watch the disk have a DRBD
  manager each. Trace and log output and the locks are not modelled.
\<close>

section \<open>Types and constants\<close>

text \<open>
  The character arrays are the strings they hold: each is written by a copy that clears the rest of the
  array.
\<close>

record DRBD_InfoT =
  inf_isConfigured :: bool
  inf_cstate :: string
  inf_role :: string
  inf_dstate :: string
  inf_diskinfo :: string

text \<open>The members of \<^verbatim>\<open>HA_DEVMON_DRBDMgr\<close>; the last three are those of the message.\<close>

record drbdmgr =
  g_cstate :: string
  g_ldisk :: string
  g_role :: string
  g_rdisk :: string
  g_diskinfo :: string
  g_type :: devmon_msg
  g_size :: "32 word"
  g_data :: "DRBD_InfoT option"

record devmon_config =
  dc_traceMask :: "64 word"
  dc_traceDir :: string
  dc_rebootTmout :: "32 word"
  dc_queryInterval :: "32 word"
  dc_callbackTmout :: "32 word"

definition devmon_default_config :: devmon_config where
  "devmon_default_config = \<lparr>dc_traceMask = 1, dc_traceDir = ''/var/log/acs/tra/logging/'', dc_rebootTmout = 3000,
     dc_queryInterval = 2000, dc_callbackTmout = 90000\<rparr>"

datatype devmon_queue_msg = DEVMON_SHUTDOWN | DEVMON_DRBDMON_CLOSE | DEVMON_TIMEOUT | DEVMON_CLOSE | TIMEOUT | OTHER_TYPE

definition APOS_HA_CMD_DDMGR :: string where
  "APOS_HA_CMD_DDMGR = ''/opt/ap/apos/bin/raidmgr''"
definition APOS_HA_CMD_RECOVERY_OPTS :: string where
  "APOS_HA_CMD_RECOVERY_OPTS = '' --recover --force &>/dev/null''"

section \<open>The state of the device monitor\<close>

record devmon =
  \<comment> \<open>Global\<close>
  d_shutdownOrdered :: bool
  d_haMode :: bool
  d_utilObj :: bool
  d_cngObj :: bool
  d_haObj :: bool
  fifo_fd :: int
  \<comment> \<open>HA_DEVMON_Utils\<close>
  d_ap_1 :: bool
  d_ap_2 :: bool
  \<comment> \<open>HA_DEVMON_Config\<close>
  d_Config :: devmon_config
  \<comment> \<open>HA_DEVMON_Adm\<close>
  d_dMonObj :: bool
  d_dRcvyObj :: bool
  \<comment> \<open>HA_DEVMON_DRBDMon\<close>
  mon_drbdObj :: "drbdmgr option"
  mon_reactor :: bool
  mon_reactorRunner :: bool
  m_sendMsg :: bool
  mon_timerid :: int
  \<comment> \<open>HA_DEVMON_DRBDRecovery\<close>
  rec_drbdObj :: "drbdmgr option"
  rec_reactor :: bool
  m_drbdRecoveryReactor :: bool
  rec_timerid :: int
  \<comment> \<open>devmonHAClass and APOS_HA_Devmon_AmfClass\<close>
  m_admObj :: bool
  d_HAState :: ha_state
  d_appMngrObj :: bool
  d_hCheckKey :: bool
  d_termAppEventReceived :: bool
  \<comment> \<open>history\<close>
  d_trc :: "acall list"

definition devmon_init :: devmon where
  "devmon_init = \<lparr>d_shutdownOrdered = False, d_haMode = False, d_utilObj = False, d_cngObj = False, d_haObj = False,
     fifo_fd = -1, d_ap_1 = False, d_ap_2 = False, d_Config = devmon_default_config, d_dMonObj = False, d_dRcvyObj = False,
     mon_drbdObj = None, mon_reactor = False, mon_reactorRunner = False, m_sendMsg = False, mon_timerid = -1,
     rec_drbdObj = None, rec_reactor = False, m_drbdRecoveryReactor = False, rec_timerid = -1,
     m_admObj = False, d_HAState = HA_UNDEFINED, d_appMngrObj = False, d_hCheckKey = False,
     d_termAppEventReceived = False, d_trc = []\<rparr>"

section \<open>Asking the environment\<close>

definition dask :: "(acall list \<Rightarrow> 'r) \<Rightarrow> acall \<Rightarrow> (devmon, 'r) prog" where
  "dask f c = (\<lambda>s. Some (Ok (f (d_trc s)), s\<lparr>d_trc := c # d_trc s\<rparr>))"

definition dask_ok :: "aworld \<Rightarrow> acall \<Rightarrow> (devmon, bool) prog" where
  "dask_ok w c = dask (\<lambda>t. aw_ok w t c) c"

definition dask_int :: "aworld \<Rightarrow> acall \<Rightarrow> (devmon, int) prog" where
  "dask_int w c = dask (\<lambda>t. aw_int w t c) c"

definition dask_str :: "aworld \<Rightarrow> acall \<Rightarrow> (devmon, string option) prog" where
  "dask_str w c = dask (\<lambda>t. aw_str w t c) c"

definition dtell :: "acall \<Rightarrow> (devmon, unit) prog" where
  "dtell c = dask (\<lambda>_. ()) c"

lemma run_dask [run_simps]: "dask f c s = Some (Ok (f (d_trc s)), s\<lparr>d_trc := c # d_trc s\<rparr>)"
  by (simp add: dask_def)

lemma dask_eq [ok_simps]: "dask f c s = Some (r, s') \<longleftrightarrow> r = Ok (f (d_trc s)) \<and> s' = s\<lparr>d_trc := c # d_trc s\<rparr>"
  by (auto simp: dask_def)

lemma wp_dask [wp_simps]: "wp (dask f c) Q E s = Q (f (d_trc s)) (s\<lparr>d_trc := c # d_trc s\<rparr>)"
  by (simp add: wp_def dask_def)

lemma wlp_dask [wp_simps]: "wlp (dask f c) Q E s = Q (f (d_trc s)) (s\<lparr>d_trc := c # d_trc s\<rparr>)"
  by (simp add: wlp_def dask_def)

lemma outcome_dask [outcome_simps]: "outcome (dask f c) R s = R (Ok (f (d_trc s))) (s\<lparr>d_trc := c # d_trc s\<rparr>)"
  by (simp add: outcome_def dask_def)

lemmas dask_defs [run_simps, wp_simps, outcome_simps, ok_simps] = dask_ok_def dask_int_def dask_str_def dtell_def

text \<open>Using an object through a pointer that is null is undefined.\<close>

definition through :: "(devmon \<Rightarrow> bool) \<Rightarrow> (devmon, 'a) prog \<Rightarrow> (devmon, 'a) prog" where
  "through obj m = bind (gets obj) (\<lambda>present. if present then m else crash)"

text \<open>Allocating an object: the constructor is the last argument.\<close>

definition dnew :: "aworld \<Rightarrow> string \<Rightarrow> (devmon \<Rightarrow> devmon) \<Rightarrow> (devmon, bool) prog" where
  "dnew w cls constructed =
     bind (dask_ok w (New cls)) (\<lambda>ok. seq (when_do ok (modify constructed)) (ret ok))"

section \<open>Access methods\<close>

text \<open>
  \<^verbatim>\<open>Global::Utils()\<close> and \<^verbatim>\<open>Global::Config()\<close>, which callers dereference. \<^verbatim>\<open>Config()\<close> looks at the
  pointer of the utilities: once these exist it allocates nothing.
\<close>

definition devmon_Utils :: "aworld \<Rightarrow> (devmon, unit) prog" where
  "devmon_Utils w =
     bind (gets d_utilObj) (\<lambda>present.
     seq (when_do (\<not> present)
            (seq (dnew w ''HA_DEVMON_Utils'' (\<lambda>s. s\<lparr>d_utilObj := True, d_ap_1 := False, d_ap_2 := False\<rparr>)) (ret ()))) (
     through d_utilObj (ret ())))"

definition devmon_Config :: "aworld \<Rightarrow> (devmon, unit) prog" where
  "devmon_Config w =
     bind (gets (\<lambda>s. \<not> d_utilObj s \<and> \<not> d_cngObj s)) (\<lambda>create.
     seq (when_do create
            (seq (dnew w ''HA_DEVMON_Config'' (\<lambda>s. s\<lparr>d_cngObj := True, d_Config := devmon_default_config\<rparr>)) (ret ()))) (
     through d_cngObj (ret ())))"

definition devmon_getConfig :: "aworld \<Rightarrow> (devmon, devmon_config) prog" where
  "devmon_getConfig w = seq (devmon_Config w) (gets d_Config)"

section \<open>Utilities\<close>

text \<open>As in the agent, \<^verbatim>\<open>fscanf(fp, "%10s", buff)\<close> overruns the ten bytes of the buffer on a long word.\<close>

definition devmon_Ap :: "aworld \<Rightarrow> (devmon, int) prog" where
  "devmon_Ap w =
     bind (dask_str w (Sys ''fopen node id'')) (\<lambda>file.
     case file of
       None \<Rightarrow> ret (-1)
     | Some content \<Rightarrow>
         (let word = take 10 (takeWhile (\<lambda>c. \<not> isspace c) (dropWhile isspace content)) in
          if word = [] then ret (-1)
          else if length word \<ge> 10 then crash
          else bind (dask_ok w (Sys ''fclose'')) (\<lambda>ok.
          if \<not> ok then ret (-1)
          else if atoi (cstr word) = 1 then seq (modify (\<lambda>s. s\<lparr>d_ap_1 := True\<rparr>)) (ret 0)
          else if atoi (cstr word) = 2 then seq (modify (\<lambda>s. s\<lparr>d_ap_2 := True\<rparr>)) (ret 0)
          else ret (-1))))"

definition devmon_Gep :: "(devmon, int) prog" where
  "devmon_Gep = ret 0"

definition devmon_Utils_init :: "aworld \<Rightarrow> (devmon, int) prog" where
  "devmon_Utils_init w =
     bind (devmon_Ap w) (\<lambda>rc. if rc < 0 then ret (-1) else bind devmon_Gep (\<lambda>rc. ret (if rc < 0 then -1 else 0)))"

partial_function (option) devmon_msec_sleep :: "aworld \<Rightarrow> 32 word \<Rightarrow> devmon \<Rightarrow> (unit res \<times> devmon) option" where
  "devmon_msec_sleep w msecs s =
     bind (dask_ok w (Sleep msecs)) (\<lambda>timeout s.
       if timeout then Some (Ok (), s) else devmon_msec_sleep w msecs s) s"

text \<open>
  \<^verbatim>\<open>_execlp\<close>: the child sets its alarm and becomes the shell. The seconds of the alarm are computed in
  unsigned arithmetic. A child that cannot become the shell runs on in a copy of the caller until the
  alarm ends it, and one that finds no configuration dies; the parent sees a failure.
\<close>

definition devmon_execlp :: "aworld \<Rightarrow> string \<Rightarrow> (devmon, int) prog" where
  "devmon_execlp w cmdStr =
     bind (gets d_cngObj) (\<lambda>configured.
     if \<not> configured then seq (dtell (Sys ''fork'')) (ret (-1))
     else bind (gets (\<lambda>s. dc_callbackTmout (d_Config s) div 1000 - 1)) (\<lambda>secs.
     bind (dask (\<lambda>t. aw_shell w t cmdStr) (Shell secs cmdStr)) (\<lambda>r.
     ret (case r of ForkFailed \<Rightarrow> -1 | ExecFailed \<Rightarrow> -1 | Status status \<Rightarrow> if status \<noteq> 0 then -1 else 0))))"

text \<open>\<^verbatim>\<open>runCommand\<close> strips the lines of the output and joins them, by the same loop as in the agent.\<close>

definition devmon_runCommand :: "aworld \<Rightarrow> string \<Rightarrow> (devmon, bool \<times> string) prog" where
  "devmon_runCommand w command =
     bind (dask_str w (Popen command)) (\<lambda>fp.
     case fp of
       None \<Rightarrow> ret (False, [])
     | Some out \<Rightarrow>
         (case join_lines (fgets_all 9999 out) of
            None \<Rightarrow> crash
          | Some output \<Rightarrow> ret (True, output)))"

definition devmon_getDiskState :: "aworld \<Rightarrow> string \<Rightarrow> bool \<Rightarrow> (devmon, bool \<times> string) prog" where
  "devmon_getDiskState w resource isLocal =
     (if resource \<noteq> [] then devmon_runCommand w (disk_state_cmd resource isLocal) else ret (False, []))"

definition devmon_getDrbdRole :: "aworld \<Rightarrow> string \<Rightarrow> bool \<Rightarrow> (devmon, bool \<times> string) prog" where
  "devmon_getDrbdRole w resource isLocal =
     (if resource = [] then ret (False, [])
      else if isLocal then devmon_runCommand w (local_role_cmd resource)
      else bind (devmon_runCommand w ''cat /etc/cluster/nodes/peer/hostname'') (\<lambda>(ok, peer_name).
           if ok then devmon_runCommand w (peer_role_cmd resource peer_name) else ret (False, [])))"

definition devmon_getConnectedState :: "aworld \<Rightarrow> string \<Rightarrow> (devmon, bool \<times> string) prog" where
  "devmon_getConnectedState w resource =
     (if resource = [] then ret (False, [])
      else bind (devmon_runCommand w (replication_cmd resource)) (\<lambda>(ok, temp).
      bind (if \<not> ok then ret []
            else if temp = ''Established'' \<or> temp = ''Off'' then
              bind (devmon_runCommand w (connection_cmd resource)) (\<lambda>(ok, temp). ret (if ok then temp else []))
            else ret temp) (\<lambda>state.
      ret (state \<noteq> [], state))))"

section \<open>The configuration file\<close>

definition devmon_read_key :: "string \<Rightarrow> (string \<Rightarrow> devmon_config \<Rightarrow> devmon_config) \<Rightarrow> string \<times> devmon_config \<Rightarrow> string \<times> devmon_config" where
  "devmon_read_key key set_field = (\<lambda>(pch, cfg).
     if sublist key pch then
       (case getToken pch (CHR ''='') of
          None \<Rightarrow> (pch, cfg)
        | Some (tmp, pch') \<Rightarrow> (pch', set_field tmp cfg))
     else (pch, cfg))"

definition devmon_read_keys :: "string \<times> devmon_config \<Rightarrow> string \<times> devmon_config" where
  "devmon_read_keys st =
     devmon_read_key ''DEVMON_REBOOT_TMOUT='' (\<lambda>tmp c. c\<lparr>dc_rebootTmout := atoi tmp\<rparr>) (
     devmon_read_key ''DEVMON_CALLBACK_TMOUT='' (\<lambda>tmp c. c\<lparr>dc_callbackTmout := atoi tmp\<rparr>) (
     devmon_read_key ''DEVMON_QUERY_INTVL='' (\<lambda>tmp c. c\<lparr>dc_queryInterval := word_of_int (strtol10 tmp)\<rparr>) (
     devmon_read_key ''DEVMON_TRACE_DIR='' (\<lambda>tmp c. c\<lparr>dc_traceDir := tmp\<rparr>) (
     devmon_read_key ''DEVMON_TRACE_CATGY='' (\<lambda>tmp c. c\<lparr>dc_traceMask := strtoull16 tmp\<rparr>) st))))"

definition devmon_config_line :: "string \<Rightarrow> devmon_config \<Rightarrow> devmon_config" where
  "devmon_config_line buff cfg =
     (let pch = dropWhile (\<lambda>c. c = CHR '' '' \<or> c = TAB) buff in
      if take 1 pch = ''#'' \<or> take 1 pch = [NL] then cfg
      else
        (let pch = (if CHR ''#'' \<in> set pch then takeWhile (\<lambda>c. c \<noteq> CHR ''#'') pch @ [NL] else pch) in
         snd (devmon_read_keys (pch, cfg))))"

text \<open>\<^verbatim>\<open>tmpConfig\<close> starts from zeros, not from the defaults.\<close>

definition devmon_tmpConfig :: devmon_config where
  "devmon_tmpConfig = \<lparr>dc_traceMask = 0, dc_traceDir = [], dc_rebootTmout = 0, dc_queryInterval = 0, dc_callbackTmout = 0\<rparr>"

definition devmon_parse_config :: "string \<Rightarrow> devmon_config" where
  "devmon_parse_config content =
     foldl (\<lambda>cfg l. devmon_config_line (cstr l) cfg) devmon_tmpConfig (fgets_all 100 content)"

definition devmon_initLog :: "aworld \<Rightarrow> devmon_config \<Rightarrow> (devmon, int) prog" where
  "devmon_initLog w tmp =
     bind (gets d_Config) (\<lambda>cur.
     bind (if dc_traceDir tmp \<noteq> dc_traceDir cur \<or> dc_traceMask tmp \<noteq> dc_traceMask cur
           then dask_ok w (Sys ''logtrace_init'') else ret True) (\<lambda>ok.
     if \<not> ok then ret (-1)
     else seq (modify (\<lambda>s. s\<lparr>d_Config := tmp\<rparr>)) (ret 0)))"

definition devmon_readConfig :: "aworld \<Rightarrow> (devmon, int) prog" where
  "devmon_readConfig w =
     bind (dask_str w (Sys ''fopen devmon config'')) (\<lambda>file.
     case file of
       None \<Rightarrow> ret (-1)
     | Some content \<Rightarrow>
         bind (devmon_initLog w (devmon_parse_config content)) (\<lambda>rc.
         bind (dask_ok w (Sys ''fclose'')) (\<lambda>closed.
         ret (if \<not> closed then -1 else rc))))"


section \<open>What a configuration file sets\<close>

text \<open>
  A file of plain lines, each a name, an equals sign and a value. A line sets a field if its name ends in
  the key of the field.
\<close>

definition plain_line :: "string \<times> string \<Rightarrow> bool" where
  "plain_line e \<longleftrightarrow> fst e \<noteq> [] \<and> hd (fst e) \<notin> {CHR '' '', TAB} \<and> {CHR ''='', CHR ''#'', NL, NUL} \<inter> set (fst e) = {} \<and>
     plain (snd e) \<and> length (fst e) + length (snd e) < 98"

definition set_field :: "string \<times> string \<Rightarrow> devmon_config \<Rightarrow> devmon_config" where
  "set_field = (\<lambda>(name, tok) c.
     if suffix ''DEVMON_TRACE_CATGY'' name then c\<lparr>dc_traceMask := strtoull16 tok\<rparr>
     else if suffix ''DEVMON_TRACE_DIR'' name then c\<lparr>dc_traceDir := tok\<rparr>
     else if suffix ''DEVMON_QUERY_INTVL'' name then c\<lparr>dc_queryInterval := word_of_int (strtol10 tok)\<rparr>
     else if suffix ''DEVMON_CALLBACK_TMOUT'' name then c\<lparr>dc_callbackTmout := atoi tok\<rparr>
     else if suffix ''DEVMON_REBOOT_TMOUT'' name then c\<lparr>dc_rebootTmout := atoi tok\<rparr>
     else c)"

text \<open>The value of the last line for a key.\<close>

definition last_value :: "string \<Rightarrow> (string \<times> string) list \<Rightarrow> string option" where
  "last_value key es = map_of (map (\<lambda>(name, tok). (suffix key name, tok)) (rev es)) True"

lemma devmon_read_key_line:
  assumes "CHR ''='' \<notin> set a" "plain tok" "CHR ''='' \<notin> set k" "key = k @ ''=''"
  shows "devmon_read_key key f (a @ CHR ''='' # tok @ [NL], cfg) =
     (if suffix k a then (a @ tok, f tok cfg) else (a @ CHR ''='' # tok @ [NL], cfg))"
proof -
  have "CHR ''='' \<notin> set (tok @ [NL])" using assms(2) by (auto simp: plain_def)
  then show ?thesis
    using assms sublist_key [of "CHR ''=''" k a "tok @ [NL]"] by (simp add: devmon_read_key_def getToken_line)
qed

lemma devmon_read_key_done:
  assumes "CHR ''='' \<notin> set ch" "CHR ''='' \<in> set key"
  shows "devmon_read_key key f (ch, cfg) = (ch, cfg)"
proof -
  have "\<not> sublist key ch" using assms by (meson set_mono_sublist subsetD)
  then show ?thesis by (simp add: devmon_read_key_def)
qed

lemma devmon_read_keys_line:
  assumes "CHR ''='' \<notin> set a" "plain tok"
  shows "snd (devmon_read_keys (a @ CHR ''='' # tok @ [NL], cfg)) = set_field (a, tok) cfg"
proof -
  note line = devmon_read_key_line [OF assms]
  have keys:
    "devmon_read_key ''DEVMON_TRACE_CATGY='' f (a @ CHR ''='' # tok @ [NL], c) =
       (if suffix ''DEVMON_TRACE_CATGY'' a then (a @ tok, f tok c) else (a @ CHR ''='' # tok @ [NL], c))"
    "devmon_read_key ''DEVMON_TRACE_DIR='' f (a @ CHR ''='' # tok @ [NL], c) =
       (if suffix ''DEVMON_TRACE_DIR'' a then (a @ tok, f tok c) else (a @ CHR ''='' # tok @ [NL], c))"
    "devmon_read_key ''DEVMON_QUERY_INTVL='' f (a @ CHR ''='' # tok @ [NL], c) =
       (if suffix ''DEVMON_QUERY_INTVL'' a then (a @ tok, f tok c) else (a @ CHR ''='' # tok @ [NL], c))"
    "devmon_read_key ''DEVMON_CALLBACK_TMOUT='' f (a @ CHR ''='' # tok @ [NL], c) =
       (if suffix ''DEVMON_CALLBACK_TMOUT'' a then (a @ tok, f tok c) else (a @ CHR ''='' # tok @ [NL], c))"
    "devmon_read_key ''DEVMON_REBOOT_TMOUT='' f (a @ CHR ''='' # tok @ [NL], c) =
       (if suffix ''DEVMON_REBOOT_TMOUT'' a then (a @ tok, f tok c) else (a @ CHR ''='' # tok @ [NL], c))" for f c
    by (rule line; simp)+
  show ?thesis
    using assms plain_no_eq [OF assms(2)] by (simp add: devmon_read_keys_def keys devmon_read_key_done set_field_def)
qed

lemma devmon_config_entry:
  assumes "plain_line e"
  shows "devmon_config_line (cstr (config_entry e)) cfg = set_field e cfg"
proof -
  obtain a tok where e: "e = (a, tok)" by force
  obtain c b where a: "a = c # b" "c \<notin> {CHR '' '', TAB, NL, CHR ''#''}"
    using assms e by (cases a) (auto simp: plain_line_def)
  have clean: "CHR ''='' \<notin> set a" "CHR ''#'' \<notin> set a" "NUL \<notin> set a" "plain tok" using assms e by (auto simp: plain_line_def)
  have line: "cstr (config_entry e) = a @ CHR ''='' # tok @ [NL]"
    using clean plain_no_eq [OF clean(4)] e by (simp add: config_entry_def cstr_idem)
  show ?thesis
    unfolding line using a clean plain_no_eq [OF clean(4)] e devmon_read_keys_line [OF clean(1,4), of cfg]
    by (simp add: devmon_config_line_def Let_def)
qed

lemma devmon_parse_entries:
  assumes "list_all plain_line es"
  shows "devmon_parse_config (concat (map config_entry es)) = fold set_field es devmon_tmpConfig"
proof -
  define ls where "ls = map (\<lambda>e. fst e @ CHR ''='' # snd e) es"
  have entries: "map config_entry es = map (\<lambda>l. l @ [NL]) ls" by (simp add: ls_def config_entry_def case_prod_unfold)
  have "NL \<notin> set l \<and> length l + 1 < 100" if "l \<in> set ls" for l
    using that assms plain_no_eq by (auto simp: ls_def list_all_iff plain_line_def)
  then have "fgets_all 100 (concat (map (\<lambda>l. l @ [NL]) ls)) = map (\<lambda>l. l @ [NL]) ls"
    by (intro fgets_all_lines) auto
  then have "devmon_parse_config (concat (map config_entry es)) =
      fold (\<lambda>l cfg. devmon_config_line (cstr l) cfg) (map config_entry es) devmon_tmpConfig"
    by (simp add: devmon_parse_config_def entries foldl_conv_fold)
  also have "\<dots> = fold set_field es devmon_tmpConfig"
    using assms by (auto simp: fold_map comp_def list_all_iff devmon_config_entry intro!: fold_cong)
  finally show ?thesis .
qed

lemma last_value_snoc: "last_value key (es @ [(name, tok)]) = (if suffix key name then Some tok else last_value key es)"
  by (simp add: last_value_def)

text \<open>No key ends in another one.\<close>

lemma key_not_suffix:
  assumes "\<not> suffix k k'" "\<not> suffix k' k"
  shows "\<not> (suffix k name \<and> suffix k' name)"
  using assms suffix_same_cases by blast

lemma keys_apart:
  "\<not> (suffix ''DEVMON_TRACE_CATGY'' name \<and> suffix ''DEVMON_TRACE_DIR'' name)"
  "\<not> (suffix ''DEVMON_TRACE_CATGY'' name \<and> suffix ''DEVMON_QUERY_INTVL'' name)"
  "\<not> (suffix ''DEVMON_TRACE_CATGY'' name \<and> suffix ''DEVMON_CALLBACK_TMOUT'' name)"
  "\<not> (suffix ''DEVMON_TRACE_CATGY'' name \<and> suffix ''DEVMON_REBOOT_TMOUT'' name)"
  "\<not> (suffix ''DEVMON_TRACE_DIR'' name \<and> suffix ''DEVMON_QUERY_INTVL'' name)"
  "\<not> (suffix ''DEVMON_TRACE_DIR'' name \<and> suffix ''DEVMON_CALLBACK_TMOUT'' name)"
  "\<not> (suffix ''DEVMON_TRACE_DIR'' name \<and> suffix ''DEVMON_REBOOT_TMOUT'' name)"
  "\<not> (suffix ''DEVMON_QUERY_INTVL'' name \<and> suffix ''DEVMON_CALLBACK_TMOUT'' name)"
  "\<not> (suffix ''DEVMON_QUERY_INTVL'' name \<and> suffix ''DEVMON_REBOOT_TMOUT'' name)"
  "\<not> (suffix ''DEVMON_CALLBACK_TMOUT'' name \<and> suffix ''DEVMON_REBOOT_TMOUT'' name)"
  by (rule key_not_suffix; simp add: suffix_to_prefix)+

lemma set_field_parts:
  "dc_traceMask (set_field (name, tok) c) = (if suffix ''DEVMON_TRACE_CATGY'' name then strtoull16 tok else dc_traceMask c)"
  "dc_traceDir (set_field (name, tok) c) = (if suffix ''DEVMON_TRACE_DIR'' name then tok else dc_traceDir c)"
  "dc_rebootTmout (set_field (name, tok) c) = (if suffix ''DEVMON_REBOOT_TMOUT'' name then atoi tok else dc_rebootTmout c)"
  "dc_queryInterval (set_field (name, tok) c) =
     (if suffix ''DEVMON_QUERY_INTVL'' name then word_of_int (strtol10 tok) else dc_queryInterval c)"
  "dc_callbackTmout (set_field (name, tok) c) = (if suffix ''DEVMON_CALLBACK_TMOUT'' name then atoi tok else dc_callbackTmout c)"
  using keys_apart [of name] by (simp_all add: set_field_def)

lemma fold_set_field:
  "dc_traceMask (fold set_field es devmon_tmpConfig) = (case last_value ''DEVMON_TRACE_CATGY'' es of None \<Rightarrow> 0 | Some t \<Rightarrow> strtoull16 t)"
  "dc_traceDir (fold set_field es devmon_tmpConfig) = (case last_value ''DEVMON_TRACE_DIR'' es of None \<Rightarrow> [] | Some t \<Rightarrow> t)"
  "dc_rebootTmout (fold set_field es devmon_tmpConfig) = (case last_value ''DEVMON_REBOOT_TMOUT'' es of None \<Rightarrow> 0 | Some t \<Rightarrow> atoi t)"
  "dc_queryInterval (fold set_field es devmon_tmpConfig) =
     (case last_value ''DEVMON_QUERY_INTVL'' es of None \<Rightarrow> 0 | Some t \<Rightarrow> word_of_int (strtol10 t))"
  "dc_callbackTmout (fold set_field es devmon_tmpConfig) = (case last_value ''DEVMON_CALLBACK_TMOUT'' es of None \<Rightarrow> 0 | Some t \<Rightarrow> atoi t)"
  by (induction es rule: rev_induct; (simp add: last_value_def devmon_tmpConfig_def; fail)?;
      clarsimp simp: last_value_snoc set_field_parts)+

text \<open>
  C40: Each field of the configuration has the value of the last line for its key, and zero if there is no
  such line: the default of the program is lost. A zero interval makes the timers fire at once, a zero
  callback timeout gives an alarm of 4294967295 seconds.
\<close>

theorem config_last_line_or_zero:
  assumes "list_all plain_line es"
  shows "devmon_parse_config (concat (map config_entry es)) =
     \<lparr>dc_traceMask = (case last_value ''DEVMON_TRACE_CATGY'' es of None \<Rightarrow> 0 | Some t \<Rightarrow> strtoull16 t),
      dc_traceDir = (case last_value ''DEVMON_TRACE_DIR'' es of None \<Rightarrow> [] | Some t \<Rightarrow> t),
      dc_rebootTmout = (case last_value ''DEVMON_REBOOT_TMOUT'' es of None \<Rightarrow> 0 | Some t \<Rightarrow> atoi t),
      dc_queryInterval = (case last_value ''DEVMON_QUERY_INTVL'' es of None \<Rightarrow> 0 | Some t \<Rightarrow> word_of_int (strtol10 t)),
      dc_callbackTmout = (case last_value ''DEVMON_CALLBACK_TMOUT'' es of None \<Rightarrow> 0 | Some t \<Rightarrow> atoi t)\<rparr>"
  unfolding devmon_parse_entries [OF assms] by (rule devmon_config.equality) (simp_all add: fold_set_field)

theorem config_last_line_or_zero_witness:
  "devmon_parse_config (concat (map config_entry [(''DEVMON_QUERY_INTVL'', ''5000''), (''DEVMON_TRACE_DIR'', ''/tmp/''), (''DEVMON_QUERY_INTVL'', ''7000'')])) =
     \<lparr>dc_traceMask = 0, dc_traceDir = ''/tmp/'', dc_rebootTmout = 0, dc_queryInterval = 7000, dc_callbackTmout = 0\<rparr> \<and>
   dc_callbackTmout devmon_tmpConfig div 1000 - 1 = 4294967295"
proof -
  let ?es = "[(''DEVMON_QUERY_INTVL'', ''5000''), (''DEVMON_TRACE_DIR'', ''/tmp/''), (''DEVMON_QUERY_INTVL'', ''7000'')]"
  have "list_all plain_line ?es" by (simp add: plain_line_def plain_def isspace_def)
  moreover have "last_value ''DEVMON_TRACE_CATGY'' ?es = None" "last_value ''DEVMON_TRACE_DIR'' ?es = Some ''/tmp/''"
    "last_value ''DEVMON_REBOOT_TMOUT'' ?es = None" "last_value ''DEVMON_QUERY_INTVL'' ?es = Some ''7000''"
    "last_value ''DEVMON_CALLBACK_TMOUT'' ?es = None"
    by (simp_all add: last_value_def suffix_to_prefix)
  moreover have "strtol10 ''7000'' = 7000" by code_simp
  ultimately show ?thesis using config_last_line_or_zero [of ?es] by (simp add: devmon_tmpConfig_def)
qed

end
