(* ===== verification/Devmon_Mon.thy ===== *)
theory Devmon_Mon
  imports Devmon_State
begin

text \<open>
  The threads of the device monitor: \<^verbatim>\<open>apos_ha_devmon_drbdmgr.cpp\<close>, which reads the state of the
  disk; the pipe to the agent, the report to AMF and the reboot of \<^verbatim>\<open>apos_ha_devmon_global.cpp\<close>;
  \<^verbatim>\<open>apos_ha_devmon_drbdmon.cpp\<close>, which tells the agent when the disk turns bad or good; and
  \<^verbatim>\<open>apos_ha_devmon_drbdrecovery.cpp\<close>, which starts the recovery of a degraded mirror.
\<close>

section \<open>The DRBD manager\<close>

definition no_info :: DRBD_InfoT where
  "no_info = \<lparr>inf_isConfigured = False, inf_cstate = [], inf_role = [], inf_dstate = [], inf_diskinfo = []\<rparr>"

definition DRBDMgr_ctor :: drbdmgr where
  "DRBDMgr_ctor = \<lparr>g_cstate = [], g_ldisk = [], g_role = [], g_rdisk = [], g_diskinfo = [],
     g_type = DRBD_DISK_HEALTHY, g_size = 0, g_data = None\<rparr>"

text \<open>The contents of the new structure are not looked at before \<^verbatim>\<open>isactive\<close> clears it.\<close>

definition DRBDMgr_init :: "aworld \<Rightarrow> drbdmgr \<Rightarrow> (devmon, int \<times> drbdmgr) prog" where
  "DRBDMgr_init w g =
     bind (dask_ok w (New ''DRBD_InfoT'')) (\<lambda>ok.
     ret (if ok then (0, g\<lparr>g_data := Some no_info, g_size := 305\<rparr>) else (-1, g)))"

text \<open>One of the four queries: a value that is found is copied, otherwise the result is -1.\<close>

definition take_value :: "(string \<Rightarrow> drbdmgr \<Rightarrow> drbdmgr) \<Rightarrow> (devmon, bool \<times> string) prog \<Rightarrow> aworld \<Rightarrow>
    int \<times> drbdmgr \<Rightarrow> (devmon, int \<times> drbdmgr) prog" where
  "take_value store query w = (\<lambda>(rCode, g).
     seq (devmon_Utils w) (
     bind query (\<lambda>(found, str). ret (if found then (rCode, store (copy16 str) g) else (-1, g)))))"

definition parse_proc_drbd :: "aworld \<Rightarrow> drbdmgr \<Rightarrow> (devmon, int \<times> drbdmgr) prog" where
  "parse_proc_drbd w g =
     bind (take_value (\<lambda>v g. g\<lparr>g_cstate := v\<rparr>) (devmon_getConnectedState w ''drbd1'') w (0, g)) (\<lambda>x.
     bind (take_value (\<lambda>v g. g\<lparr>g_role := v\<rparr>) (devmon_getDrbdRole w ''drbd1'' True) w x) (\<lambda>x.
     bind (take_value (\<lambda>v g. g\<lparr>g_ldisk := v\<rparr>) (devmon_getDiskState w ''drbd1'' True) w x) (\<lambda>x.
     take_value (\<lambda>v g. g\<lparr>g_rdisk := v\<rparr>) (devmon_getDiskState w ''drbd1'' False) w x)))"

definition isdegraded :: "aworld \<Rightarrow> drbdmgr \<Rightarrow> (devmon, int \<times> drbdmgr) prog" where
  "isdegraded w g =
     bind (parse_proc_drbd w g) (\<lambda>(rc, g).
     ret (if rc \<noteq> 0 then 0
          else if g_cstate g = ''Connected'' \<and> g_role g = ''Primary'' \<and> g_ldisk g = ''UpToDate'' \<and>
                  (g_rdisk g = ''Inconsistent'' \<or> g_rdisk g = ''Outdated'') then 1
          else 0, g))"

definition recovery_cmd :: string where
  "recovery_cmd = take (APOS_HA_CMD_LEN - 1) (APOS_HA_CMD_DDMGR @ APOS_HA_CMD_RECOVERY_OPTS)"

definition devmon_recovery :: "aworld \<Rightarrow> (devmon, int) prog" where
  "devmon_recovery w = seq (devmon_Utils w) (devmon_execlp w recovery_cmd)"

text \<open>
  The judgement of \<^verbatim>\<open>isactive\<close>: the tests are made one after the other and a later one overwrites the
  type of an earlier one.
\<close>

definition judge_disk :: "drbdmgr \<Rightarrow> int \<times> devmon_msg" where
  "judge_disk g =
     (let (rCode, type) =
        (if g_ldisk g \<noteq> ''Consistent'' \<and> g_ldisk g \<noteq> ''UpToDate'' \<or> g_rdisk g \<noteq> ''UpToDate''
         then (0, DRBD_DISK_FAULTY) else (1, DRBD_DISK_HEALTHY));
      (rCode, type) = (if g_role g \<noteq> ''Primary'' then (0, DRBD_ROLE_CHANGE) else (rCode, type));
      (rCode, type) = (if g_cstate g \<noteq> ''Connected'' then (0, DRBD_CONN_ERROR) else (rCode, type))
      in (rCode, type))"

definition isactive :: "aworld \<Rightarrow> drbdmgr \<Rightarrow> (devmon, int \<times> drbdmgr) prog" where
  "isactive w g =
     (if g_data g = None then crash
      else bind (parse_proc_drbd w (g\<lparr>g_data := Some no_info\<rparr>)) (\<lambda>(rc, g).
        if rc \<noteq> 0 then ret (1, g)
        else (let (rCode, type) = judge_disk g in
          ret (rCode, g\<lparr>g_type := type, g_data := Some \<lparr>inf_isConfigured = True, inf_cstate = g_cstate g,
                  inf_role = g_role g, inf_dstate = g_ldisk g, inf_diskinfo = g_diskinfo g\<rparr>\<rparr>))))"

definition DRBDMgr_reset :: "drbdmgr \<Rightarrow> drbdmgr" where
  "DRBDMgr_reset g = g\<lparr>g_cstate := [], g_role := [], g_rdisk := [], g_ldisk := [], g_diskinfo := []\<rparr>"

section \<open>The pipe to the agent\<close>

definition fifo_open :: "aworld \<Rightarrow> (devmon, int) prog" where
  "fifo_open w =
     bind (dask_int w (Sys ''mkfifo'')) (\<lambda>rc.
     bind (if rc \<noteq> 0 then dask_ok w (Sys ''errno is EEXIST'') else ret True) (\<lambda>ok.
     if \<not> ok then ret (-1)
     else bind (dask_int w (Sys ''open fifo'')) (\<lambda>fd.
     seq (modify (\<lambda>s. s\<lparr>fifo_fd := fd\<rparr>)) (ret (if fd = -1 then -1 else 0)))))"

definition fifo_close :: "aworld \<Rightarrow> (devmon, int) prog" where
  "fifo_close w = bind (dask_int w (Sys ''close fifo'')) (\<lambda>rc. ret (if rc = -1 then -1 else 0))"

definition devmon_code :: "devmon_msg \<Rightarrow> 32 word" where
  "devmon_code m = (case m of DRBD_DISK_HEALTHY \<Rightarrow> 1 | DRBD_DISK_FAULTY \<Rightarrow> 2 | DRBD_ROLE_CHANGE \<Rightarrow> 3 | DRBD_CONN_ERROR \<Rightarrow> 4
     | DEVMON_INVALID \<Rightarrow> 0)"

text \<open>A character array of a given size, and the bytes of the structures.\<close>

definition char_array :: "nat \<Rightarrow> string \<Rightarrow> string" where
  "char_array n str = str @ replicate (n - length str) NUL"

definition info_bytes :: "DRBD_InfoT \<Rightarrow> string" where
  "info_bytes i = [if inf_isConfigured i then CHR 0x01 else NUL] @ char_array 16 (inf_cstate i) @
     char_array 16 (inf_role i) @ char_array 16 (inf_dstate i) @ char_array 256 (inf_diskinfo i)"

definition msg_bytes :: "devmon_msg \<Rightarrow> 32 word \<Rightarrow> DRBD_InfoT \<Rightarrow> string" where
  "msg_bytes type sz i = bytes32 (devmon_code type) @ bytes32 sz @ info_bytes i"

definition write_buffer :: "aworld \<Rightarrow> drbdmgr \<Rightarrow> (devmon, int) prog" where
  "write_buffer w g =
     (case g_data g of
        None \<Rightarrow> crash
      | Some i \<Rightarrow>
          (let buffer = msg_bytes (g_type g) (g_size g) i in
           bind (dask_int w (Send ''devmon2agent'' buffer)) (\<lambda>byteCount.
           ret (if byteCount = int (length buffer) then 0 else -1))))"

section \<open>Restart, failover, reboot\<close>

definition devmon_compRestart :: "aworld \<Rightarrow> (devmon, unit) prog" where
  "devmon_compRestart w =
     bind (gets d_haObj) (\<lambda>ha.
     when_do ha
       (bind (dask_ok w (Report COMPONENT_RESTART)) (\<lambda>ok. when_do (\<not> ok) (exit_with EXIT_FAILURE))))"

text \<open>\<^verbatim>\<open>m_utilObj->msec_sleep(m_cngObj->getConfig().rebootTmout)\<close>, with the pointers as they are.\<close>

definition devmon_reboot_sleep :: "aworld \<Rightarrow> (devmon, unit) prog" where
  "devmon_reboot_sleep w =
     through d_utilObj (through d_cngObj (
     bind (gets (\<lambda>s. dc_rebootTmout (d_Config s))) (devmon_msec_sleep w)))"

definition devmon_reboot :: "aworld \<Rightarrow> (devmon, unit) prog" where
  "devmon_reboot w =
     bind (dask (\<lambda>t. aw_shell w t ''/sbin/reboot'') (Shell 0 ''/sbin/reboot'')) (\<lambda>r.
     seq (when_do (r \<noteq> Status 0) (devmon_reboot_sleep w)) (exit_with EXIT_FAILURE))"

definition devmon_fail :: "aworld \<Rightarrow> recovery \<Rightarrow> (devmon, unit) prog" where
  "devmon_fail w policy =
     bind (gets d_haObj) (\<lambda>ha.
     seq (when_do ha
            (bind (dask_ok w (Report policy)) (\<lambda>ok. when_do ok (devmon_reboot_sleep w)))) (
     devmon_reboot w))"

definition devmon_nodefailOver :: "aworld \<Rightarrow> (devmon, unit) prog" where
  "devmon_nodefailOver w = devmon_fail w NODE_FAILOVER"

definition devmon_nodefailFast :: "aworld \<Rightarrow> (devmon, unit) prog" where
  "devmon_nodefailFast w = devmon_fail w NODE_FAILFAST"

definition devmon_forceExit :: "aworld \<Rightarrow> (devmon, unit) prog" where
  "devmon_forceExit w =
     bind (gets d_haMode) (\<lambda>ha. seq (when_do ha (devmon_nodefailOver w)) (exit_with EXIT_FAILURE))"

section \<open>Queues and timers\<close>

definition devmon_msg_type :: "int \<Rightarrow> devmon_queue_msg" where
  "devmon_msg_type n =
     (if n = 0 then DEVMON_SHUTDOWN else if n = 1 then DEVMON_DRBDMON_CLOSE else if n = 2 then DEVMON_TIMEOUT
      else if n = 3 then DEVMON_CLOSE else if n = 4 then TIMEOUT else OTHER_TYPE)"

definition devmon_getq :: "aworld \<Rightarrow> string \<Rightarrow> (devmon, devmon_queue_msg option) prog" where
  "devmon_getq w queue =
     bind (dask_int w (Sys (''getq '' @ queue))) (\<lambda>n. ret (if n < 0 then None else Some (devmon_msg_type n)))"

definition devmon_post :: "aworld \<Rightarrow> string \<Rightarrow> (devmon, int) prog" where
  "devmon_post w message =
     bind (dask_ok w (New ''ACE_Message_Block'')) (\<lambda>mb.
     if \<not> mb then ret (-1)
     else bind (dask_ok w (Sys (''putq '' @ message))) (\<lambda>ok. ret (if ok then 0 else -1)))"

text \<open>\<^verbatim>\<open>m_reactor->schedule_timer\<close> with the query interval in seconds, and where its result is kept.\<close>

definition devmon_schedule :: "aworld \<Rightarrow> (int \<Rightarrow> devmon \<Rightarrow> devmon) \<Rightarrow> (devmon, int) prog" where
  "devmon_schedule w store =
     bind (devmon_getConfig w) (\<lambda>cfg.
     bind (dask_int w (Send ''schedule_timer'' (show_nat (unat (dc_queryInterval cfg div 1000))))) (\<lambda>timerid.
     seq (modify (store timerid)) (ret (if timerid < 0 then -1 else 0))))"

section \<open>Reporting to the agent\<close>

definition devmon_DRBDMon_ctor :: "devmon \<Rightarrow> devmon" where
  "devmon_DRBDMon_ctor s = s\<lparr>mon_drbdObj := None, mon_reactor := False, mon_reactorRunner := False, m_sendMsg := False, mon_timerid := -1\<rparr>"

definition initDRBDMon :: "aworld \<Rightarrow> (devmon, int) prog" where
  "initDRBDMon w =
     bind (dnew w ''HA_DEVMON_DRBDMgr'' (\<lambda>s. s\<lparr>mon_drbdObj := Some DRBDMgr_ctor\<rparr>)) (\<lambda>ok.
     if \<not> ok then ret (-1)
     else bind (DRBDMgr_init w DRBDMgr_ctor) (\<lambda>(rc, g).
     seq (modify (\<lambda>s. s\<lparr>mon_drbdObj := Some g\<rparr>)) (
     if rc < 0 then ret (-1)
     else bind (dnew w ''ACE_Reactor'' (\<lambda>s. s\<lparr>mon_reactor := True\<rparr>)) (\<lambda>ok.
     if \<not> ok then ret (-1)
     else bind (dnew w ''APOS_HA_ReactorRunner'' (\<lambda>s. s\<lparr>mon_reactorRunner := True\<rparr>)) (\<lambda>ok.
     if \<not> ok then ret (-1)
     else bind (dask_int w (Sys ''reactor open'')) (\<lambda>rc.
     if rc \<noteq> 0 then ret (-1) else devmon_schedule w (\<lambda>n s. s\<lparr>mon_timerid := n\<rparr>)))))))"

definition devmon_DRBDMon_open :: "aworld \<Rightarrow> (devmon, int) prog" where
  "devmon_DRBDMon_open w = bind (dask_int w (Sys ''activate DRBDMon'')) (\<lambda>rc. ret (if rc < 0 then -1 else 0))"

definition sendMsg :: "aworld \<Rightarrow> (devmon, int) prog" where
  "sendMsg w =
     bind (gets mon_drbdObj) (\<lambda>obj.
     case obj of
       None \<Rightarrow> crash
     | Some g \<Rightarrow>
         bind (write_buffer w g) (\<lambda>rCode.
         seq (modify (\<lambda>s. s\<lparr>mon_drbdObj := Some (DRBDMgr_reset g)\<rparr>)) (ret rCode)))"

definition devmon_healthCheck :: "aworld \<Rightarrow> (devmon, int) prog" where
  "devmon_healthCheck w =
     bind (gets mon_drbdObj) (\<lambda>obj.
     case obj of
       None \<Rightarrow> crash
     | Some g \<Rightarrow>
         bind (isactive w g) (\<lambda>(rCode, g).
         seq (modify (\<lambda>s. s\<lparr>mon_drbdObj := Some g\<rparr>)) (
         bind (gets m_sendMsg) (\<lambda>sent.
         bind (if rCode = 0 \<and> \<not> sent then
                 bind (sendMsg w) (\<lambda>rc.
                 seq (modify (\<lambda>s. s\<lparr>m_sendMsg := True\<rparr>)) (ret (if rc \<noteq> 0 then -1 else rCode)))
               else ret rCode) (\<lambda>rCode.
         bind (gets m_sendMsg) (\<lambda>sent.
         if rCode \<noteq> 0 \<and> sent then
           bind (sendMsg w) (\<lambda>rc.
           seq (modify (\<lambda>s. s\<lparr>m_sendMsg := False\<rparr>)) (ret (if rc \<noteq> 0 then -1 else rCode)))
         else ret rCode))))))"

partial_function (option) devmon_mon_loop :: "aworld \<Rightarrow> devmon \<Rightarrow> (unit res \<times> devmon) option" where
  "devmon_mon_loop w s =
     bind (devmon_getq w ''DRBDMon'') (\<lambda>msg s.
       if msg = Some TIMEOUT then seq (devmon_healthCheck w) (devmon_mon_loop w) s else Some (Ok (), s)) s"

text \<open>A thread that could not be set up.\<close>

definition devmon_give_up :: "aworld \<Rightarrow> (devmon, 'a) prog" where
  "devmon_give_up w =
     bind (gets d_haMode) (\<lambda>ha. seq (when_do ha (devmon_compRestart w)) (exit_with EXIT_FAILURE))"

definition devmon_DRBDMon_svc :: "aworld \<Rightarrow> (devmon, int) prog" where
  "devmon_DRBDMon_svc w =
     bind (initDRBDMon w) (\<lambda>rc. if rc < 0 then devmon_give_up w else seq (devmon_mon_loop w) (ret 0))"

definition devmon_DRBDMon_close :: "aworld \<Rightarrow> (devmon, int) prog" where
  "devmon_DRBDMon_close w = devmon_post w ''DRBDMon CLOSE''"

text \<open>\<^verbatim>\<open>close(u_long)\<close>, which ACE calls at the end of the thread.\<close>

definition devmon_DRBDMon_close_thread :: "aworld \<Rightarrow> (devmon, int) prog" where
  "devmon_DRBDMon_close_thread w =
     bind (gets mon_reactor) (\<lambda>reactor.
     seq (when_do reactor (dtell (Sys ''cancel_timer''))) (
     bind (gets d_shutdownOrdered) (\<lambda>ordered.
     if \<not> ordered then exit_with EXIT_FAILURE
     else bind (gets mon_reactorRunner) (\<lambda>runner.
     seq (when_do runner (seq (dtell (Sys ''stop reactor'')) (dtell (Sys ''wait reactor'')))) (
     seq (modify (\<lambda>s. s\<lparr>mon_reactorRunner := False, mon_reactor := False, mon_drbdObj := None\<rparr>)) (ret 0))))))"

definition devmon_DRBDMon_timeout :: "aworld \<Rightarrow> (devmon, int) prog" where
  "devmon_DRBDMon_timeout w =
     seq (devmon_post w ''DRBDMon TIMEOUT'') (through mon_reactor (devmon_schedule w (\<lambda>n s. s\<lparr>mon_timerid := n\<rparr>)))"

section \<open>Recovery of the mirror\<close>

definition DRBDRecovery_ctor :: "devmon \<Rightarrow> devmon" where
  "DRBDRecovery_ctor s = s\<lparr>rec_drbdObj := None, rec_reactor := False, m_drbdRecoveryReactor := False, rec_timerid := -1\<rparr>"

definition DRBDRecovery_init :: "aworld \<Rightarrow> (devmon, int) prog" where
  "DRBDRecovery_init w =
     bind (dnew w ''HA_DEVMON_DRBDMgr'' (\<lambda>s. s\<lparr>rec_drbdObj := Some DRBDMgr_ctor\<rparr>)) (\<lambda>ok.
     if \<not> ok then ret (-1)
     else bind (DRBDMgr_init w DRBDMgr_ctor) (\<lambda>(rc, g).
     seq (modify (\<lambda>s. s\<lparr>rec_drbdObj := Some g\<rparr>)) (
     if rc < 0 then ret (-1)
     else bind (dnew w ''ACE_Reactor'' (\<lambda>s. s\<lparr>rec_reactor := True\<rparr>)) (\<lambda>ok.
     if \<not> ok then ret (-1)
     else bind (dnew w ''APOS_HA_ReactorRunner'' (\<lambda>s. s\<lparr>m_drbdRecoveryReactor := True\<rparr>)) (\<lambda>ok.
     if \<not> ok then ret (-1)
     else bind (dask_int w (Sys ''reactor open'')) (\<lambda>rc.
     if rc \<noteq> 0 then ret (-1) else devmon_schedule w (\<lambda>n s. s\<lparr>rec_timerid := n\<rparr>)))))))"

definition DRBDRecovery_open :: "aworld \<Rightarrow> (devmon, int) prog" where
  "DRBDRecovery_open w = bind (dask_int w (Sys ''activate DRBDRecovery'')) (\<lambda>rc. ret (if rc < 0 then -1 else 0))"

definition DRBDRecovery_healthCheck :: "aworld \<Rightarrow> (devmon, int) prog" where
  "DRBDRecovery_healthCheck w =
     bind (gets rec_drbdObj) (\<lambda>obj.
     case obj of
       None \<Rightarrow> crash
     | Some g \<Rightarrow>
         bind (isdegraded w g) (\<lambda>(degraded, g).
         seq (modify (\<lambda>s. s\<lparr>rec_drbdObj := Some g\<rparr>)) (
         if degraded \<noteq> 0 then bind (devmon_recovery w) (\<lambda>rc. ret (if rc \<noteq> 0 then -1 else 0)) else ret 0)))"

partial_function (option) devmon_rec_loop :: "aworld \<Rightarrow> devmon \<Rightarrow> (unit res \<times> devmon) option" where
  "devmon_rec_loop w s =
     bind (devmon_getq w ''DRBDRecovery'') (\<lambda>msg s.
       if msg = Some TIMEOUT then seq (DRBDRecovery_healthCheck w) (devmon_rec_loop w) s else Some (Ok (), s)) s"

definition DRBDRecovery_svc :: "aworld \<Rightarrow> (devmon, int) prog" where
  "DRBDRecovery_svc w =
     bind (DRBDRecovery_init w) (\<lambda>rc. if rc < 0 then devmon_give_up w else seq (devmon_rec_loop w) (ret 0))"

definition DRBDRecovery_close :: "aworld \<Rightarrow> (devmon, int) prog" where
  "DRBDRecovery_close w = devmon_post w ''DRBDRecovery CLOSE''"

definition DRBDRecovery_close_thread :: "aworld \<Rightarrow> (devmon, int) prog" where
  "DRBDRecovery_close_thread w =
     bind (gets rec_reactor) (\<lambda>reactor.
     seq (when_do reactor (dtell (Sys ''cancel_timer''))) (
     bind (gets d_shutdownOrdered) (\<lambda>ordered.
     if \<not> ordered then exit_with EXIT_FAILURE
     else bind (gets m_drbdRecoveryReactor) (\<lambda>runner.
     seq (when_do runner (seq (dtell (Sys ''stop reactor'')) (dtell (Sys ''wait reactor'')))) (
     seq (modify (\<lambda>s. s\<lparr>m_drbdRecoveryReactor := False, rec_reactor := False, rec_drbdObj := None\<rparr>)) (ret 0))))))"

definition DRBDRecovery_timeout :: "aworld \<Rightarrow> (devmon, int) prog" where
  "DRBDRecovery_timeout w =
     seq (devmon_post w ''DRBDRecovery TIMEOUT'') (through rec_reactor (devmon_schedule w (\<lambda>n s. s\<lparr>rec_timerid := n\<rparr>)))"

section \<open>What every message looks like\<close>

text \<open>The messages written to the pipe, oldest first.\<close>

definition sent_msgs :: "devmon \<Rightarrow> string list" where
  "sent_msgs s = List.map_filter (\<lambda>c. case c of Send to_whom bs \<Rightarrow> if to_whom = ''devmon2agent'' then Some bs else None | _ \<Rightarrow> None) (rev (d_trc s))"

definition short :: "string \<Rightarrow> bool" where
  "short str \<longleftrightarrow> length str < 16 \<and> NUL \<notin> set str"

definition wf_info :: "DRBD_InfoT \<Rightarrow> bool" where
  "wf_info i \<longleftrightarrow> short (inf_cstate i) \<and> short (inf_role i) \<and> short (inf_dstate i) \<and> inf_diskinfo i = []"

definition wf_bufs :: "drbdmgr \<Rightarrow> bool" where
  "wf_bufs g \<longleftrightarrow> short (g_cstate g) \<and> short (g_role g) \<and> short (g_ldisk g) \<and> short (g_rdisk g) \<and> g_diskinfo g = [] \<and>
     g_type g \<noteq> DEVMON_INVALID"

definition wf_mgr :: "drbdmgr \<Rightarrow> bool" where
  "wf_mgr g \<longleftrightarrow> wf_bufs g \<and> (case g_data g of None \<Rightarrow> True | Some i \<Rightarrow> wf_info i \<and> g_size g = 305)"

text \<open>A message as it should be: one of the four types, the size of the structure, the structure.\<close>

definition framed :: "string \<Rightarrow> bool" where
  "framed bs \<longleftrightarrow> (\<exists>type i. type \<noteq> DEVMON_INVALID \<and> wf_info i \<and> bs = msg_bytes type 305 i)"

definition wf_devmon :: "devmon \<Rightarrow> bool" where
  "wf_devmon s \<longleftrightarrow> list_all framed (sent_msgs s) \<and> pred_option wf_mgr (mon_drbdObj s)"

lemma length_char_array [simp]: "length (char_array n str) = max n (length str)"
  by (simp add: char_array_def)

lemma length_msg_bytes: "wf_info i \<Longrightarrow> length (msg_bytes type sz i) = 313"
  by (simp add: msg_bytes_def info_bytes_def wf_info_def short_def)

lemma framed_length: "framed bs \<Longrightarrow> length bs = 313"
  by (auto simp: framed_def length_msg_bytes)

lemma sent_step [simp]:
  "sent_msgs (s\<lparr>d_trc := c # t\<rparr>) =
     sent_msgs (s\<lparr>d_trc := t\<rparr>) @ (case c of Send to_whom bs \<Rightarrow> if to_whom = ''devmon2agent'' then [bs] else [] | _ \<Rightarrow> [])"
  by (auto simp: sent_msgs_def List.map_filter_def split: acall.split)

lemma sent_same [simp]: "sent_msgs (s\<lparr>d_trc := d_trc s\<rparr>) = sent_msgs s"
  by (simp add: sent_msgs_def)

lemma sent_cong: "d_trc s = d_trc s' \<Longrightarrow> sent_msgs s = sent_msgs s'"
  by (simp add: sent_msgs_def)

lemma short_copy16 [simp]: "short (copy16 str)"
proof -
  have "set (take 15 (cstr str)) \<subseteq> set (cstr str)" by (rule set_take_subset)
  then show ?thesis using cstr_clean [of str] by (auto simp: short_def copy16_def)
qed

lemma wf_ctor: "wf_mgr DRBDMgr_ctor"
  by (simp add: wf_mgr_def wf_bufs_def DRBDMgr_ctor_def short_def)

lemma wf_reset: "wf_mgr g \<Longrightarrow> wf_mgr (DRBDMgr_reset g)"
  by (simp add: wf_mgr_def wf_bufs_def DRBDMgr_reset_def short_def split: option.splits)

lemma maintains_dask:
  assumes "\<And>to_whom bs. c = Send to_whom bs \<Longrightarrow> to_whom \<noteq> ''devmon2agent''"
  shows "maintains wf_devmon (dask f c) (\<lambda>_. True)"
  using assms by (cases c) (auto simp: maintains_def outcome_simps wf_devmon_def)

lemma maintains_state:
  assumes "\<And>s. d_trc (f s) = d_trc s" "\<And>s. mon_drbdObj (f s) = mon_drbdObj s"
  shows "maintains wf_devmon (modify f) (\<lambda>_. True)"
  using assms by (intro maintains_modify) (auto simp: wf_devmon_def cong: sent_cong)

lemma maintains_any_gets: "maintains I (gets f) (\<lambda>_. True)"
  by (rule maintains_gets) simp

lemma maintains_any_ret: "maintains I (ret x) (\<lambda>_. True)"
  by (rule maintains_ret) simp

lemma maintains_option:
  "maintains I m V \<Longrightarrow> (\<And>x. maintains I (k x) V) \<Longrightarrow> maintains I (case v of None \<Rightarrow> m | Some x \<Rightarrow> k x) V"
  by (cases v) auto

lemma maintains_const_when: "maintains I m (\<lambda>_. True) \<Longrightarrow> maintains I (when_do b m) (\<lambda>_. True)"
  by (rule maintains_when) auto

lemma maintains_split: "(\<And>x y. maintains I (k x y) V) \<Longrightarrow> maintains I (case p of (x, y) \<Rightarrow> k x y) V"
  by (cases p) simp

lemmas wf_intros = maintains_any maintains_any_gets maintains_any_ret maintains_crash maintains_if maintains_const_when
  maintains_option maintains_split maintains_dask maintains_state

lemma wf_Utils: "maintains wf_devmon (devmon_Utils w) (\<lambda>_. True)"
  unfolding devmon_Utils_def dnew_def dask_ok_def through_def by (intro wf_intros) simp_all

lemma wf_Config: "maintains wf_devmon (devmon_Config w) (\<lambda>_. True)"
  unfolding devmon_Config_def dnew_def dask_ok_def through_def by (intro wf_intros) simp_all

lemma wf_runCommand: "maintains wf_devmon (devmon_runCommand w cmd) (\<lambda>_. True)"
  unfolding devmon_runCommand_def dask_str_def by (intro wf_intros) simp_all

lemma wf_queries:
  "maintains wf_devmon (devmon_getConnectedState w r) (\<lambda>_. True)"
  "maintains wf_devmon (devmon_getDrbdRole w r l) (\<lambda>_. True)"
  "maintains wf_devmon (devmon_getDiskState w r l) (\<lambda>_. True)"
  unfolding devmon_getConnectedState_def devmon_getDrbdRole_def devmon_getDiskState_def
  by (intro wf_intros wf_runCommand)+

text \<open>A query keeps what its store keeps.\<close>

lemma wf_take_value:
  assumes "maintains wf_devmon query (\<lambda>_. True)" "\<And>v g. short v \<Longrightarrow> P g \<Longrightarrow> P (store v g)" "P (snd x)"
  shows "maintains wf_devmon (take_value store query w x) (\<lambda>y. P (snd y))"
  unfolding take_value_def using assms
  by (cases x) (auto intro!: maintains_any maintains_split wf_Utils maintains_ret)

lemma wf_parse:
  assumes "\<And>v g. short v \<Longrightarrow> P g \<Longrightarrow> P (g\<lparr>g_cstate := v\<rparr>) \<and> P (g\<lparr>g_role := v\<rparr>) \<and> P (g\<lparr>g_ldisk := v\<rparr>) \<and> P (g\<lparr>g_rdisk := v\<rparr>)" "P g"
  shows "maintains wf_devmon (parse_proc_drbd w g) (\<lambda>y. P (snd y))"
  unfolding parse_proc_drbd_def
  by (intro maintains_bind [where V = "\<lambda>y. P (snd y)"] wf_take_value wf_queries) (use assms in auto)

lemma judge_type: "snd (judge_disk g) \<noteq> DEVMON_INVALID"
  by (simp add: judge_disk_def)

lemma wf_isactive:
  assumes "wf_mgr g"
  shows "maintains wf_devmon (isactive w g) (\<lambda>y. wf_mgr (snd y))"
proof (cases "g_data g")
  case (Some i)
  let ?P = "\<lambda>g. wf_bufs g \<and> g_size g = 305 \<and> g_data g = Some no_info"
  have p: "maintains wf_devmon (parse_proc_drbd w (g\<lparr>g_data := Some no_info\<rparr>)) (\<lambda>y. ?P (snd y))"
    by (rule wf_parse) (use assms Some in \<open>auto simp: wf_bufs_def wf_mgr_def\<close>)
  show ?thesis
    unfolding isactive_def using Some
    by (simp, intro maintains_bind [OF p] maintains_prod maintains_if)
      (auto intro!: maintains_ret simp: wf_mgr_def wf_info_def wf_bufs_def no_info_def short_def judge_type Let_def case_prod_unfold)
qed (simp add: isactive_def maintains_crash)

lemma wf_isdegraded: "maintains wf_devmon (isdegraded w g) (\<lambda>_. True)"
  unfolding isdegraded_def
  by (rule maintains_bind [OF wf_parse [where P = "\<lambda>_. True"]]) (auto intro!: maintains_split maintains_any_ret)

lemma wf_write_buffer: "wf_mgr g \<Longrightarrow> maintains wf_devmon (write_buffer w g) (\<lambda>_. True)"
  unfolding write_buffer_def Let_def
  by (auto intro!: maintains_option maintains_any maintains_any_ret maintains_crash split: option.split
      simp: wf_mgr_def) (auto simp: maintains_def dask_int_def outcome_simps wf_devmon_def framed_def wf_bufs_def)

lemma wf_set_mgr: "pred_option wf_mgr g \<Longrightarrow> maintains wf_devmon (modify (\<lambda>s. s\<lparr>mon_drbdObj := g\<rparr>)) (\<lambda>_. True)"
  by (rule maintains_modify) (auto simp: wf_devmon_def cong: sent_cong)

lemma wf_get_mgr:
  "(\<And>g. wf_mgr g \<Longrightarrow> maintains wf_devmon (k g) V) \<Longrightarrow>
   maintains wf_devmon (bind (gets mon_drbdObj) (\<lambda>obj. case obj of None \<Rightarrow> crash | Some g \<Rightarrow> k g)) V"
  by (rule maintains_bind [OF maintains_gets [where V = "pred_option wf_mgr"]])
    (auto simp: wf_devmon_def maintains_crash split: option.split)

lemma wf_sendMsg: "maintains wf_devmon (sendMsg w) (\<lambda>_. True)"
  unfolding sendMsg_def
  by (intro wf_get_mgr maintains_any wf_write_buffer wf_set_mgr maintains_any_ret) (simp_all add: wf_reset)

lemma wf_healthCheck: "maintains wf_devmon (devmon_healthCheck w) (\<lambda>_. True)"
  unfolding devmon_healthCheck_def
proof (rule wf_get_mgr)
  fix g assume "wf_mgr g"
  show "maintains wf_devmon (bind (isactive w g) (\<lambda>(rCode, g).
         seq (modify (\<lambda>s. s\<lparr>mon_drbdObj := Some g\<rparr>)) (
         bind (gets m_sendMsg) (\<lambda>sent.
         bind (if rCode = 0 \<and> \<not> sent then
                 bind (sendMsg w) (\<lambda>rc.
                 seq (modify (\<lambda>s. s\<lparr>m_sendMsg := True\<rparr>)) (ret (if rc \<noteq> 0 then -1 else rCode)))
               else ret rCode) (\<lambda>rCode.
         bind (gets m_sendMsg) (\<lambda>sent.
         if rCode \<noteq> 0 \<and> sent then
           bind (sendMsg w) (\<lambda>rc.
           seq (modify (\<lambda>s. s\<lparr>m_sendMsg := False\<rparr>)) (ret (if rc \<noteq> 0 then -1 else rCode)))
         else ret rCode))))))  (\<lambda>_. True)"
    by (rule maintains_bind [OF wf_isactive [OF \<open>wf_mgr g\<close>]], rule maintains_prod)
      (intro wf_set_mgr wf_intros wf_sendMsg; simp)
qed

lemma wf_schedule:
  assumes "\<And>n s. d_trc (store n s) = d_trc s" "\<And>n s. mon_drbdObj (store n s) = mon_drbdObj s"
  shows "maintains wf_devmon (devmon_schedule w store) (\<lambda>_. True)"
  unfolding devmon_schedule_def devmon_getConfig_def dask_int_def
  by (intro wf_intros wf_Config) (auto simp: assms)

lemma wf_set_new: "wf_mgr g \<Longrightarrow> maintains wf_devmon (dnew w cls (\<lambda>s. s\<lparr>mon_drbdObj := Some g\<rparr>)) (\<lambda>_. True)"
  unfolding dnew_def dask_ok_def by (intro wf_intros wf_set_mgr) auto

lemma wf_new:
  assumes "\<And>s. d_trc (f s) = d_trc s" "\<And>s. mon_drbdObj (f s) = mon_drbdObj s"
  shows "maintains wf_devmon (dnew w cls f) (\<lambda>_. True)"
  unfolding dnew_def dask_ok_def by (intro wf_intros) (simp_all add: assms)

lemma wf_DRBDMgr_init:
  assumes "wf_mgr g"
  shows "maintains wf_devmon (DRBDMgr_init w g) (\<lambda>y. wf_mgr (snd y))"
  unfolding DRBDMgr_init_def dask_ok_def
  by (rule maintains_bind [OF maintains_dask], simp, rule maintains_ret)
    (use assms in \<open>auto simp: wf_mgr_def wf_bufs_def wf_info_def no_info_def short_def split: option.splits\<close>)

lemma wf_initDRBDMon: "maintains wf_devmon (initDRBDMon w) (\<lambda>_. True)"
proof -
  have rest: "maintains wf_devmon (bind (DRBDMgr_init w DRBDMgr_ctor) (\<lambda>(rc, g).
     seq (modify (\<lambda>s. s\<lparr>mon_drbdObj := Some g\<rparr>)) (
     if rc < 0 then ret (-1)
     else bind (dnew w ''ACE_Reactor'' (\<lambda>s. s\<lparr>mon_reactor := True\<rparr>)) (\<lambda>ok.
     if \<not> ok then ret (-1)
     else bind (dnew w ''APOS_HA_ReactorRunner'' (\<lambda>s. s\<lparr>mon_reactorRunner := True\<rparr>)) (\<lambda>ok.
     if \<not> ok then ret (-1)
     else bind (dask_int w (Sys ''reactor open'')) (\<lambda>rc.
     if rc \<noteq> 0 then ret (-1) else devmon_schedule w (\<lambda>n s. s\<lparr>mon_timerid := n\<rparr>))))))) (\<lambda>_. True)"
    unfolding dask_int_def
    by (rule maintains_bind [OF wf_DRBDMgr_init [OF wf_ctor]], rule maintains_prod)
      (intro wf_set_mgr wf_intros wf_new wf_schedule; simp)
  show ?thesis
    unfolding initDRBDMon_def
    by (rule maintains_any(1) [OF wf_set_new [OF wf_ctor]], rule maintains_if, rule maintains_any_ret, rule rest)
qed

lemmas devmon_mon_loop_induct [consumes 1, case_names step] = devmon_mon_loop.raw_induct [rotated]

lemma wf_getq: "maintains wf_devmon (devmon_getq w q) (\<lambda>_. True)"
  unfolding devmon_getq_def dask_int_def by (intro wf_intros) simp

lemma maintains_run: "maintains I m V \<Longrightarrow> I s \<Longrightarrow> m s = Some (r, s') \<Longrightarrow> I s'"
  by (auto dest: maintainsD outcomeD)

lemma wf_mon_loop: "devmon_mon_loop w s = Some (r, s') \<Longrightarrow> wf_devmon s \<Longrightarrow> wf_devmon s'"
proof (induction w s "(r, s')" arbitrary: r s' rule: devmon_mon_loop_induct)
  case (step f w s)
  obtain msg t where t: "devmon_getq w ''DRBDMon'' s = Some (Ok msg, t)"
    by (simp add: devmon_getq_def run_simps)
  then have wf: "wf_devmon t" using step.prems by (rule maintains_run [OF wf_getq, rotated])
  show ?case
  proof (cases "msg = Some TIMEOUT")
    case True
    then have run: "seq (devmon_healthCheck w) (f w) t = Some (r, s')" using step.hyps(2) t by (simp add: run_bind)
    then obtain q u where u: "devmon_healthCheck w t = Some (q, u)" by (auto simp: run_seq split: option.splits)
    then have "wf_devmon u" using wf by (rule maintains_run [OF wf_healthCheck, rotated])
    then show ?thesis using run u step.hyps(1) by (cases q) (auto simp: run_seq)
  next
    case False
    then show ?thesis using step.hyps(2) t wf by (simp add: run_bind)
  qed
qed

text \<open>
  C12: Whatever the tools print and whether or not calls succeed, the thread that reports to the agent
  writes only whole messages: 313 bytes with one of the four types, the size of the structure and the
  structure, whose character arrays end inside their bounds.
\<close>

theorem messages_well_formed:
  assumes "wf_devmon s"
  shows "outcome (devmon_DRBDMon_svc w) (\<lambda>_ s'. wf_devmon s' \<and> list_all (\<lambda>bs. framed bs \<and> length bs = 313) (sent_msgs s')) s"
proof -
  have lengths: "wf_devmon s' \<Longrightarrow> list_all (\<lambda>bs. framed bs \<and> length bs = 313) (sent_msgs s')" for s'
    by (auto simp: wf_devmon_def list_all_iff framed_length)
  have "outcome (devmon_give_up w :: (devmon, int) prog) (\<lambda>_ s'. wf_devmon s') t" if "wf_devmon t" for t
    unfolding devmon_give_up_def devmon_compRestart_def dask_ok_def using that
    by (auto simp: outcome_simps wf_devmon_def)
  moreover have "outcome (seq (devmon_mon_loop w) (ret 0)) (\<lambda>_ s'. wf_devmon s') t" if "wf_devmon t" for t
    using that by (auto simp: outcome_seq outcome_ret split: res.split intro!: outcomeI dest: wf_mon_loop)
  ultimately have "outcome (devmon_DRBDMon_svc w) (\<lambda>_ s'. wf_devmon s') s"
    unfolding devmon_DRBDMon_svc_def outcome_bind
    by (intro outcome_mono [OF maintainsD [OF wf_initDRBDMon assms]]) (auto split: res.split)
  then show ?thesis by (rule outcome_mono) (simp add: lengths)
qed

theorem messages_well_formed_witness:
  "wf_devmon devmon_init \<and> outcome (devmon_DRBDMon_svc (
       \<lparr>aw_ok = (\<lambda>_ _. True), aw_int = (\<lambda>_ _. 0), aw_str = (\<lambda>_ _. None), aw_shell = (\<lambda>_ _. Status 0), aw_spawn = (\<lambda>_ _. PipeFailed)\<rparr>))
     (\<lambda>_ s'. wf_devmon s' \<and> list_all (\<lambda>bs. framed bs \<and> length bs = 313) (sent_msgs s')) devmon_init"
proof -
  have "wf_devmon devmon_init" by (simp add: wf_devmon_def devmon_init_def sent_msgs_def List.map_filter_def)
  then show ?thesis using messages_well_formed [of devmon_init "\<lparr>aw_ok = (\<lambda>_ _. True), aw_int = (\<lambda>_ _. 0), aw_str = (\<lambda>_ _. None), aw_shell = (\<lambda>_ _. Status 0), aw_spawn = (\<lambda>_ _. PipeFailed)\<rparr>"] by simp
qed

end
