(* ===== verification/Devmon_Report.thy ===== *)
theory Devmon_Report
  imports Devmon_Mon
begin

text \<open>
  What the threads of the device monitor do over time. A supervision period fixes what the DRBD tools
  print and whether the pipe takes a message. Over any sequence of periods the reporting thread is
  compared with an abstract monitor that writes a message at every change between a good and a bad disk,
  and the recovery thread with the condition that the mirror is degraded.
\<close>

section \<open>Which changes are reported\<close>

text \<open>
  One supervision period as the tools show it: what each query prints, nothing if the command cannot be
  started. A query prints one line or nothing. All other calls succeed and the pipe takes the message
  if \<open>pd_accepts\<close>.
\<close>

record period =
  pd_replication :: "string option"
  pd_connection :: "string option"
  pd_role :: "string option"
  pd_ldisk :: "string option"
  pd_rdisk :: "string option"
  pd_accepts :: bool

definition shown :: "string option \<Rightarrow> string" where
  "shown x = (case x of None \<Rightarrow> [] | Some str \<Rightarrow> if one_line str then str else [])"

definition printed :: "string option \<Rightarrow> string option" where
  "printed x = map_option (\<lambda>str. if one_line str then str @ [NL] else []) x"

definition period_output :: "period \<Rightarrow> string \<Rightarrow> string option" where
  "period_output p cmd =
     (if cmd = replication_cmd ''drbd1'' then printed (pd_replication p)
      else if cmd = connection_cmd ''drbd1'' then printed (pd_connection p)
      else if cmd = local_role_cmd ''drbd1'' then printed (pd_role p)
      else if cmd = disk_state_cmd ''drbd1'' True then printed (pd_ldisk p)
      else if cmd = disk_state_cmd ''drbd1'' False then printed (pd_rdisk p)
      else Some [])"

definition period_world :: "period \<Rightarrow> aworld" where
  "period_world p =
     \<lparr>aw_ok = (\<lambda>_ _. True),
      aw_int = (\<lambda>_ c. case c of Send _ bs \<Rightarrow> if pd_accepts p then int (length bs) else -1 | _ \<Rightarrow> 0),
      aw_str = (\<lambda>_ c. case c of Popen cmd \<Rightarrow> period_output p cmd | _ \<Rightarrow> None),
      aw_shell = (\<lambda>_ _. Status 0),
      aw_spawn = (\<lambda>_ _. PipeFailed)\<rparr>"

text \<open>What the period shows: the connection state, whether all is readable, and the verdict.\<close>

definition conn_state :: "period \<Rightarrow> string" where
  "conn_state p =
     (if shown (pd_replication p) \<in> {''Established'', ''Off''} then shown (pd_connection p) else shown (pd_replication p))"

definition readable :: "period \<Rightarrow> bool" where
  "readable p \<longleftrightarrow> conn_state p \<noteq> [] \<and> pd_role p \<noteq> None \<and> pd_ldisk p \<noteq> None \<and> pd_rdisk p \<noteq> None"

definition verdict :: "period \<Rightarrow> devmon_msg" where
  "verdict p =
     (if conn_state p \<noteq> ''Connected'' then DRBD_CONN_ERROR
      else if shown (pd_role p) \<noteq> ''Primary'' then DRBD_ROLE_CHANGE
      else if shown (pd_ldisk p) \<in> {''Consistent'', ''UpToDate''} \<and> shown (pd_rdisk p) = ''UpToDate'' then DRBD_DISK_HEALTHY
      else DRBD_DISK_FAULTY)"

lemma command_texts_differ:
  "connection_cmd ''drbd1'' \<noteq> replication_cmd ''drbd1''" "local_role_cmd ''drbd1'' \<noteq> replication_cmd ''drbd1''"
  "disk_state_cmd ''drbd1'' True \<noteq> replication_cmd ''drbd1''" "disk_state_cmd ''drbd1'' False \<noteq> replication_cmd ''drbd1''"
  "local_role_cmd ''drbd1'' \<noteq> connection_cmd ''drbd1''" "disk_state_cmd ''drbd1'' True \<noteq> connection_cmd ''drbd1''"
  "disk_state_cmd ''drbd1'' False \<noteq> connection_cmd ''drbd1''" "disk_state_cmd ''drbd1'' True \<noteq> local_role_cmd ''drbd1''"
  "disk_state_cmd ''drbd1'' False \<noteq> local_role_cmd ''drbd1''" "disk_state_cmd ''drbd1'' False \<noteq> disk_state_cmd ''drbd1'' True"
  by (simp_all add: connection_cmd_def replication_cmd_def local_role_cmd_def disk_state_cmd_def quoted_def)

lemma period_outputs [simp]:
  "period_output p (replication_cmd ''drbd1'') = printed (pd_replication p)"
  "period_output p (connection_cmd ''drbd1'') = printed (pd_connection p)"
  "period_output p (local_role_cmd ''drbd1'') = printed (pd_role p)"
  "period_output p (disk_state_cmd ''drbd1'' True) = printed (pd_ldisk p)"
  "period_output p (disk_state_cmd ''drbd1'' False) = printed (pd_rdisk p)"
  by (simp_all add: period_output_def command_texts_differ)

lemma join_printed:
  "printed x = Some out \<Longrightarrow> join_lines (fgets_all 9999 out) = Some (shown x)"
proof -
  assume "printed x = Some out"
  then obtain str where x: "x = Some str" "out = (if one_line str then str @ [NL] else [])" by (auto simp: printed_def)
  show ?thesis
  proof (cases "one_line str")
    case True
    then have "fgets_all 9999 (str @ [NL]) = [str @ [NL]]"
      using fgets_all_lines [of "[str]" 9999] by (auto simp: one_line_def is_eol_def)
    moreover have "cstr (str @ [NL]) = str @ [NL]" using True by (intro cstr_idem) (auto simp: one_line_def)
    ultimately show ?thesis using x True strip_one_line [OF True] by (simp add: shown_def)
  next
    case False
    then show ?thesis using x by (simp add: shown_def fgets_all.simps)
  qed
qed

lemma run_command_shown:
  assumes "period_output p cmd = printed x"
  shows "devmon_runCommand (period_world p) cmd s = Some (Ok (x \<noteq> None, shown x), s\<lparr>d_trc := Popen cmd # d_trc s\<rparr>)"
proof (cases "printed x")
  case None
  then have "x = None" by (simp add: printed_def)
  then show ?thesis using assms None by (simp add: devmon_runCommand_def run_simps period_world_def shown_def)
next
  case (Some out)
  then have "x \<noteq> None" by (auto simp: printed_def)
  then show ?thesis using assms Some join_printed [OF Some] by (simp add: devmon_runCommand_def run_simps period_world_def)
qed

text \<open>Only the history grows, by calls that write nothing to the pipe.\<close>

definition looks :: "(devmon, 'a) prog \<Rightarrow> 'a \<Rightarrow> bool" where
  "looks m x \<longleftrightarrow> (\<forall>s. d_utilObj s \<longrightarrow> (\<exists>cmds. m s = Some (Ok x, s\<lparr>d_trc := map Popen cmds @ d_trc s\<rparr>)))"

lemma looks_ret: "looks (ret x) x"
  by (auto simp: looks_def run_simps intro!: exI [of _ "[]"])

lemma looks_bind: "looks m x \<Longrightarrow> looks (k x) y \<Longrightarrow> looks (bind m k) y"
  unfolding looks_def
proof (intro allI impI)
  fix s :: devmon
  assume m: "\<forall>s. d_utilObj s \<longrightarrow> (\<exists>cmds. m s = Some (Ok x, s\<lparr>d_trc := map Popen cmds @ d_trc s\<rparr>))"
    and k: "\<forall>s. d_utilObj s \<longrightarrow> (\<exists>cmds. k x s = Some (Ok y, s\<lparr>d_trc := map Popen cmds @ d_trc s\<rparr>))"
    and s: "d_utilObj s"
  obtain a where a: "m s = Some (Ok x, s\<lparr>d_trc := map Popen a @ d_trc s\<rparr>)" using m s by blast
  obtain b where "k x (s\<lparr>d_trc := map Popen a @ d_trc s\<rparr>) = Some (Ok y, s\<lparr>d_trc := map Popen b @ map Popen a @ d_trc s\<rparr>)"
    using k [rule_format, of "s\<lparr>d_trc := map Popen a @ d_trc s\<rparr>"] s by auto
  then show "\<exists>cmds. bind m k s = Some (Ok y, s\<lparr>d_trc := map Popen cmds @ d_trc s\<rparr>)"
    using a by (auto simp: run_bind intro!: exI [of _ "b @ a"])
qed

lemma looks_command: "period_output p cmd = printed x \<Longrightarrow> looks (devmon_runCommand (period_world p) cmd) (x \<noteq> None, shown x)"
  unfolding looks_def by (auto simp: run_command_shown intro!: exI [of _ "[cmd]"])

lemma looks_conn: "looks (devmon_getConnectedState (period_world p) ''drbd1'') (conn_state p \<noteq> [], conn_state p)"
proof -
  let ?r = "pd_replication p"
  have two: "looks (bind (devmon_runCommand (period_world p) (connection_cmd ''drbd1'')) (\<lambda>(ok, temp). ret (if ok then temp else [])))
    (shown (pd_connection p))"
    by (rule looks_bind [OF looks_command [of p _ "pd_connection p"]])
      (cases "pd_connection p"; simp add: looks_ret shown_def)+
  have one: "looks (if \<not> ?r \<noteq> None then ret []
            else if shown ?r = ''Established'' \<or> shown ?r = ''Off'' then
              bind (devmon_runCommand (period_world p) (connection_cmd ''drbd1'')) (\<lambda>(ok, temp). ret (if ok then temp else []))
            else ret (shown ?r)) (conn_state p)"
    using two by (cases ?r) (auto simp: conn_state_def shown_def looks_ret)
  have "looks (bind (devmon_runCommand (period_world p) (replication_cmd ''drbd1'')) (\<lambda>(ok, temp).
      bind (if \<not> ok then ret []
            else if temp = ''Established'' \<or> temp = ''Off'' then
              bind (devmon_runCommand (period_world p) (connection_cmd ''drbd1'')) (\<lambda>(ok, temp). ret (if ok then temp else []))
            else ret temp) (\<lambda>state.
      ret (state \<noteq> [], state)))) (conn_state p \<noteq> [], conn_state p)"
    by (rule looks_bind [OF looks_command [of p _ ?r]], simp, unfold case_prod_conv, rule looks_bind [OF one], rule looks_ret)
  then show ?thesis by (simp add: devmon_getConnectedState_def)
qed

lemma looks_role: "looks (devmon_getDrbdRole (period_world p) ''drbd1'' True) (pd_role p \<noteq> None, shown (pd_role p))"
  by (simp add: devmon_getDrbdRole_def looks_command del: not_None_eq)

lemma looks_disk:
  "looks (devmon_getDiskState (period_world p) ''drbd1'' True) (pd_ldisk p \<noteq> None, shown (pd_ldisk p))"
  "looks (devmon_getDiskState (period_world p) ''drbd1'' False) (pd_rdisk p \<noteq> None, shown (pd_rdisk p))"
  by (simp_all add: devmon_getDiskState_def looks_command del: not_None_eq)

lemma looks_take_value:
  assumes "looks query (found, v)"
  shows "looks (take_value store query w (rc, g)) (if found then (rc, store (copy16 v) g) else (-1, g))"
  unfolding take_value_def seq_def
  by (auto intro!: looks_bind [of _ "()"] looks_bind [OF assms] looks_ret)
    (auto simp: looks_def devmon_Utils_def through_def run_simps intro!: exI [of _ "[]"])

text \<open>The manager after the queries.\<close>

definition queried :: "period \<Rightarrow> drbdmgr \<Rightarrow> drbdmgr" where
  "queried p g =
     (let g = (if conn_state p \<noteq> [] then g\<lparr>g_cstate := copy16 (conn_state p)\<rparr> else g);
          g = (if pd_role p \<noteq> None then g\<lparr>g_role := copy16 (shown (pd_role p))\<rparr> else g);
          g = (if pd_ldisk p \<noteq> None then g\<lparr>g_ldisk := copy16 (shown (pd_ldisk p))\<rparr> else g)
      in (if pd_rdisk p \<noteq> None then g\<lparr>g_rdisk := copy16 (shown (pd_rdisk p))\<rparr> else g))"

lemma looks_value:
  assumes "looks query (found, v)"
  shows "looks (take_value store query w (rc, g)) (if found then rc else -1, if found then store (copy16 v) g else g)"
  using looks_take_value [OF assms, of store w rc g] by (cases found) simp_all

lemma looks_parse: "looks (parse_proc_drbd (period_world p) g) (if readable p then 0 else -1, queried p g)"
proof -
  have "looks (parse_proc_drbd (period_world p) g)
     (if pd_rdisk p \<noteq> None then if pd_ldisk p \<noteq> None then if pd_role p \<noteq> None then if conn_state p \<noteq> [] then 0 else -1 else -1 else -1 else -1,
      queried p g)"
    unfolding parse_proc_drbd_def queried_def Let_def
    by (rule looks_bind [OF looks_value [OF looks_conn]], rule looks_bind [OF looks_value [OF looks_role]],
        rule looks_bind [OF looks_value [OF looks_disk(1)]], rule looks_value [OF looks_disk(2)])
  then show ?thesis by (simp add: readable_def split: if_splits)
qed

lemma queried_frame [simp]:
  "g_type (queried p g) = g_type g" "g_size (queried p g) = g_size g" "g_data (queried p g) = g_data g"
  "g_diskinfo (queried p g) = g_diskinfo g"
  by (simp_all add: queried_def Let_def)

lemma copy16_eq: "NUL \<notin> set str \<Longrightarrow> length lit < 15 \<Longrightarrow> copy16 str = lit \<longleftrightarrow> str = lit"
  by (auto simp: copy16_def cstr_idem dest: arg_cong [of _ _ length])

lemma shown_clean: "NUL \<notin> set (shown x)"
  by (auto simp: shown_def one_line_def split: option.splits)

lemma conn_state_clean: "NUL \<notin> set (conn_state p)"
  by (simp add: conn_state_def shown_clean)

definition healthy :: "devmon_msg \<Rightarrow> bool" where
  "healthy m \<longleftrightarrow> m = DRBD_DISK_HEALTHY"

lemma judge_queried: "readable p \<Longrightarrow> judge_disk (queried p g) = (if healthy (verdict p) then 1 else 0, verdict p)"
  by (auto simp: judge_disk_def queried_def readable_def verdict_def healthy_def copy16_eq shown_clean conn_state_clean)

text \<open>The message that a period gives, and the type it has where nothing can be read: the last one.\<close>

definition found_info :: "period \<Rightarrow> drbdmgr \<Rightarrow> DRBD_InfoT" where
  "found_info p g =
     (if readable p then \<lparr>inf_isConfigured = True, inf_cstate = g_cstate (queried p g), inf_role = g_role (queried p g),
          inf_dstate = g_ldisk (queried p g), inf_diskinfo = g_diskinfo g\<rparr>
      else no_info)"

definition found :: "period \<Rightarrow> drbdmgr \<Rightarrow> drbdmgr" where
  "found p g =
     (if readable p then (queried p g)\<lparr>g_type := verdict p, g_data := Some (found_info p g)\<rparr>
      else (queried p g)\<lparr>g_data := Some (found_info p g)\<rparr>)"

definition is_bad :: "period \<Rightarrow> bool" where
  "is_bad p \<longleftrightarrow> readable p \<and> \<not> healthy (verdict p)"

lemma queried_data: "queried p (g\<lparr>g_data := x\<rparr>) = (queried p g)\<lparr>g_data := x\<rparr>"
  by (simp add: queried_def Let_def)

lemma judge_data: "judge_disk (g\<lparr>g_data := x\<rparr>) = judge_disk g"
  by (simp add: judge_disk_def)

lemma looks_isactive:
  assumes "g_data g \<noteq> None"
  shows "looks (isactive (period_world p) g) (if is_bad p then 0 else 1, found p g)"
proof -
  have "looks (bind (parse_proc_drbd (period_world p) (g\<lparr>g_data := Some no_info\<rparr>)) (\<lambda>(rc, g).
        if rc \<noteq> 0 then ret (1, g)
        else (let (rCode, type) = judge_disk g in
          ret (rCode, g\<lparr>g_type := type, g_data := Some \<lparr>inf_isConfigured = True, inf_cstate = g_cstate g,
                  inf_role = g_role g, inf_dstate = g_ldisk g, inf_diskinfo = g_diskinfo g\<rparr>\<rparr>))))
     (if is_bad p then 0 else 1, found p g)"
    by (rule looks_bind [OF looks_parse], cases "readable p")
      (auto simp: judge_queried judge_data is_bad_def found_def found_info_def queried_data looks_ret)
  then show ?thesis using assms by (auto simp: isactive_def)
qed

text \<open>
  The abstract monitor: whether a fault is reported, the type of the last message, and the messages
  written, each with its type and whether the resource was found. A message is written when the verdict
  changes between good and bad. Where the pipe refuses it, it is written again at once if it is about a
  fault, and nothing counts as reported.
\<close>

type_synonym amonitor = "bool \<times> devmon_msg \<times> (devmon_msg \<times> bool) list"

definition watch :: "period \<Rightarrow> amonitor \<Rightarrow> int \<times> amonitor" where
  "watch p = (\<lambda>(reported, last_type, msgs).
     (let type = (if readable p then verdict p else last_type); m = (type, readable p); rc = (if is_bad p then 0 else 1) in
      if is_bad p = reported then (rc, reported, type, msgs)
      else if pd_accepts p then (rc, is_bad p, type, msgs @ [m])
      else (-1, False, type, msgs @ (if is_bad p then [m, m] else [m]))))"

definition head_of :: "string \<Rightarrow> devmon_msg \<times> bool" where
  "head_of bs = (devmon_msg_of (word_of_bytes (take 4 bs)), bs ! 8 \<noteq> NUL)"

definition abs_mon :: "devmon \<Rightarrow> amonitor" where
  "abs_mon s = (m_sendMsg s, g_type (the (mon_drbdObj s)), map head_of (sent_msgs s))"

definition watching :: "devmon \<Rightarrow> bool" where
  "watching s \<longleftrightarrow> d_utilObj s \<and> (case mon_drbdObj s of None \<Rightarrow> False | Some g \<Rightarrow> g_data g \<noteq> None \<and> g_type g \<noteq> DEVMON_INVALID)"

lemma devmon_code_inverse: "m \<noteq> DEVMON_INVALID \<Longrightarrow> devmon_msg_of (devmon_code m) = m"
  by (cases m) (simp_all add: devmon_msg_of_def devmon_code_def)

lemma head_msg: "type \<noteq> DEVMON_INVALID \<Longrightarrow> head_of (msg_bytes type sz i) = (type, inf_isConfigured i)"
  by (simp add: head_of_def msg_bytes_def info_bytes_def word_of_bytes_bytes32 devmon_code_inverse nth_append)

lemma verdict_valid: "verdict p \<noteq> DEVMON_INVALID"
  by (simp add: verdict_def)

lemma found_parts [simp]:
  "g_data (found p g) = Some (found_info p g)" "inf_isConfigured (found_info p g) = readable p"
  "g_type (found p g) = (if readable p then verdict p else g_type g)"
  by (simp_all add: found_def found_info_def no_info_def)

lemma sent_looks [simp]: "sent_msgs (s\<lparr>d_trc := map Popen cmds @ t\<rparr>) = sent_msgs (s\<lparr>d_trc := t\<rparr>)"
  by (induction cmds) simp_all

lemma sent_fields [simp]:
  "sent_msgs (s\<lparr>mon_drbdObj := g\<rparr>) = sent_msgs s" "sent_msgs (s\<lparr>m_sendMsg := b\<rparr>) = sent_msgs s"
  by (simp_all add: sent_msgs_def)

lemma reset_parts [simp]: "g_data (DRBDMgr_reset g) = g_data g" "g_type (DRBDMgr_reset g) = g_type g" "g_size (DRBDMgr_reset g) = g_size g"
  by (simp_all add: DRBDMgr_reset_def)

lemma run_sendMsg:
  assumes "mon_drbdObj s = Some g" "g_data g = Some i"
  shows "sendMsg (period_world p) s =
     Some (Ok (if pd_accepts p then 0 else -1),
       s\<lparr>d_trc := Send ''devmon2agent'' (msg_bytes (g_type g) (g_size g) i) # d_trc s, mon_drbdObj := Some (DRBDMgr_reset g)\<rparr>)"
  using assms by (simp add: sendMsg_def write_buffer_def Let_def run_simps period_world_def)

lemma watch_step:
  assumes "watching s"
  shows "wp (devmon_healthCheck (period_world p)) (\<lambda>x s'. watching s' \<and> watch p (abs_mon s) = (x, abs_mon s')) (\<lambda>_ _. False) s"
proof -
  obtain g where g: "mon_drbdObj s = Some g" "g_data g \<noteq> None" "g_type g \<noteq> DEVMON_INVALID" "d_utilObj s"
    using assms by (auto simp: watching_def split: option.splits)
  obtain cmds where a: "isactive (period_world p) g s =
      Some (Ok (if is_bad p then 0 else 1, found p g), s\<lparr>d_trc := map Popen cmds @ d_trc s\<rparr>)"
    using looks_isactive [OF g(2)] g(4) by (auto simp: looks_def)
  show ?thesis
    using g a verdict_valid [of p]
    by (cases "is_bad p"; cases "m_sendMsg s"; cases "pd_accepts p")
      (simp_all add: devmon_healthCheck_def wp_def run_simps run_sendMsg watching_def abs_mon_def watch_def Let_def head_msg)
qed

interpretation monitor: simulation "\<lambda>p. devmon_healthCheck (period_world p)" watching abs_mon watch
  by unfold_locales (rule watch_step)

lemma run_monitor:
  assumes "watching s"
  obtains xs s' where "run_ops (\<lambda>p. devmon_healthCheck (period_world p)) ps s = Some (Ok xs, s')" "watching s'"
    "run_abs watch ps (abs_mon s) = (xs, abs_mon s')"
  by (rule wp_returnsD [OF monitor.run_simulates [OF assms, of ps]]) (use that in blast)

definition fresh_monitor :: devmon where
  "fresh_monitor = devmon_init\<lparr>d_utilObj := True, d_cngObj := True, mon_drbdObj := Some (DRBDMgr_ctor\<lparr>g_data := Some no_info, g_size := 305\<rparr>)\<rparr>"

definition good_period :: period where
  "good_period = \<lparr>pd_replication = Some ''Established'', pd_connection = Some ''Connected'', pd_role = Some ''Primary'',
     pd_ldisk = Some ''UpToDate'', pd_rdisk = Some ''UpToDate'', pd_accepts = True\<rparr>"

lemmas period_examples = fresh_monitor_def good_period_def devmon_init_def DRBDMgr_ctor_def watching_def readable_def conn_state_def
  shown_def one_line_def is_eol_def verdict_def is_bad_def healthy_def

text \<open>
  C9: Over any sequence of supervision periods, whatever the queries print and whichever writes the pipe
  refuses, the reporting thread does what the abstract monitor does: the same results, the same flag and
  the same messages in the same order. It never stops and never runs into undefined behaviour.
\<close>

theorem monitor_refines_edge_detector:
  assumes "watching s"
  shows "\<exists>xs s'. run_ops (\<lambda>p. devmon_healthCheck (period_world p)) ps s = Some (Ok xs, s') \<and>
     run_abs watch ps (abs_mon s) = (xs, abs_mon s')"
  by (rule run_monitor [OF assms, of ps]) blast

theorem monitor_refines_edge_detector_witness:
  "\<exists>xs s'. run_ops (\<lambda>p. devmon_healthCheck (period_world p)) [good_period, good_period\<lparr>pd_role := Some ''Secondary''\<rparr>] fresh_monitor
     = Some (Ok xs, s') \<and> abs_mon s' = (True, DRBD_ROLE_CHANGE, [(DRBD_ROLE_CHANGE, True)]) \<and> xs = [1, 0]"
  using monitor_refines_edge_detector [of fresh_monitor "[good_period, good_period\<lparr>pd_role := Some ''Secondary''\<rparr>]"]
  by (force simp: period_examples watch_def abs_mon_def sent_msgs_def List.map_filter_def)

text \<open>The verdicts at which good turns to bad or bad to good, starting from good.\<close>

definition changes :: "devmon_msg list \<Rightarrow> devmon_msg list" where
  "changes vs = map snd (filter (\<lambda>(a, b). healthy a \<noteq> healthy b) (zip (DRBD_DISK_HEALTHY # vs) vs))"

lemma watch_changes:
  assumes "list_all (\<lambda>p. readable p \<and> pd_accepts p) ps"
  shows "map fst (snd (snd (snd (run_abs watch ps (\<not> healthy v, t, msgs))))) =
     map fst msgs @ map snd (filter (\<lambda>(a, b). healthy a \<noteq> healthy b) (zip (v # map verdict ps) (map verdict ps)))"
  using assms
proof (induction ps arbitrary: v t msgs)
  case (Cons p ps)
  have "watch p (\<not> healthy v, t, msgs) = (if healthy (verdict p) then 1 else 0, \<not> healthy (verdict p), verdict p,
      msgs @ (if healthy v = healthy (verdict p) then [] else [(verdict p, True)]))"
    using Cons.prems by (auto simp: watch_def is_bad_def Let_def)
  then show ?case
    using Cons.IH [of "verdict p"] Cons.prems by (simp add: case_prod_unfold Let_def)
qed simp

text \<open>
  C14: As long as the queries can be read and the pipe takes what is written, the messages are exactly the
  changes between a good and a bad disk: one fault, of the first kind that is seen, then one message that
  the disk is healthy. A change from one kind of fault to another is not reported.
\<close>

theorem reports_are_changes:
  assumes "watching s" "\<not> m_sendMsg s" "sent_msgs s = []" "list_all (\<lambda>p. readable p \<and> pd_accepts p) ps"
  shows "\<exists>xs s'. run_ops (\<lambda>p. devmon_healthCheck (period_world p)) ps s = Some (Ok xs, s') \<and>
     map (fst \<circ> head_of) (sent_msgs s') = changes (map verdict ps)"
proof -
  obtain xs s' where run: "run_ops (\<lambda>p. devmon_healthCheck (period_world p)) ps s = Some (Ok xs, s')"
      "run_abs watch ps (abs_mon s) = (xs, abs_mon s')"
    by (rule run_monitor [OF assms(1), of ps])
  have "abs_mon s = (\<not> healthy DRBD_DISK_HEALTHY, g_type (the (mon_drbdObj s)), [])"
    using assms(2,3) by (simp add: abs_mon_def healthy_def)
  then have "map fst (snd (snd (abs_mon s'))) = changes (map verdict ps)"
    using run(2) watch_changes [OF assms(4), of DRBD_DISK_HEALTHY "g_type (the (mon_drbdObj s))" "[]"] by (simp add: changes_def)
  then show ?thesis using run(1) by (simp add: abs_mon_def)
qed

theorem reports_are_changes_witness:
  "\<exists>xs s'. run_ops (\<lambda>p. devmon_healthCheck (period_world p))
       [good_period, good_period\<lparr>pd_connection := Some ''Connecting''\<rparr>, good_period\<lparr>pd_role := Some ''Secondary''\<rparr>, good_period] fresh_monitor
     = Some (Ok xs, s') \<and> map (fst \<circ> head_of) (sent_msgs s') = [DRBD_CONN_ERROR, DRBD_DISK_HEALTHY]"
  using reports_are_changes [of fresh_monitor
      "[good_period, good_period\<lparr>pd_connection := Some ''Connecting''\<rparr>, good_period\<lparr>pd_role := Some ''Secondary''\<rparr>, good_period]"]
  by (simp add: period_examples sent_msgs_def List.map_filter_def changes_def)

lemma watch_quiet:
  assumes "list_all (\<lambda>p. \<not> is_bad p) ps"
  shows "snd (snd (snd (run_abs watch ps (False, t, msgs)))) = msgs \<and> \<not> fst (snd (run_abs watch ps (False, t, msgs)))"
  using assms
proof (induction ps arbitrary: t)
  case (Cons p ps)
  have "\<exists>u. watch p (False, t, msgs) = (1, False, u, msgs)"
    using Cons.prems by (simp add: watch_def Let_def)
  then obtain u where "watch p (False, t, msgs) = (1, False, u, msgs)" by blast
  then show ?case using Cons by (simp add: case_prod_unfold Let_def)
qed simp

text \<open>
  C37: A message that the disk is healthy again is written once. If the pipe refuses it, it is lost: after a
  reported fault, a good period whose write fails and any number of further good periods with a working
  pipe, no other message has been written, and the agent's last news is the fault.
\<close>

theorem refused_recovery_lost:
  assumes "watching s" "m_sendMsg s" "readable p" "healthy (verdict p)" "\<not> pd_accepts p"
    and "list_all (\<lambda>p. readable p \<and> healthy (verdict p) \<and> pd_accepts p) ps"
  shows "\<exists>xs s'. run_ops (\<lambda>p. devmon_healthCheck (period_world p)) (p # ps) s = Some (Ok xs, s') \<and>
     map head_of (sent_msgs s') = map head_of (sent_msgs s) @ [(DRBD_DISK_HEALTHY, True)] \<and> hd xs = -1 \<and> \<not> m_sendMsg s'"
proof -
  obtain xs s' where run: "run_ops (\<lambda>p. devmon_healthCheck (period_world p)) (p # ps) s = Some (Ok xs, s')"
      "run_abs watch (p # ps) (abs_mon s) = (xs, abs_mon s')"
    by (rule run_monitor [OF assms(1), of "p # ps"])
  have "watch p (abs_mon s) = (-1, False, DRBD_DISK_HEALTHY, map head_of (sent_msgs s) @ [(DRBD_DISK_HEALTHY, True)])"
    using assms(2-5) by (simp add: watch_def abs_mon_def is_bad_def healthy_def Let_def)
  moreover have "list_all (\<lambda>p. \<not> is_bad p) ps" using assms(6) by (auto simp: list_all_iff is_bad_def)
  ultimately show ?thesis
    using run watch_quiet [of ps DRBD_DISK_HEALTHY "map head_of (sent_msgs s) @ [(DRBD_DISK_HEALTHY, True)]"]
    by (auto simp: case_prod_unfold Let_def abs_mon_def)
qed

theorem refused_recovery_lost_witness:
  "\<exists>xs s'. run_ops (\<lambda>p. devmon_healthCheck (period_world p)) [good_period\<lparr>pd_accepts := False\<rparr>, good_period] (fresh_monitor\<lparr>m_sendMsg := True\<rparr>)
     = Some (Ok xs, s') \<and> map head_of (sent_msgs s') = [(DRBD_DISK_HEALTHY, True)] \<and> hd xs = -1 \<and> \<not> m_sendMsg s'"
  using refused_recovery_lost [of "fresh_monitor\<lparr>m_sendMsg := True\<rparr>" "good_period\<lparr>pd_accepts := False\<rparr>" "[good_period]"]
  by (simp add: period_examples sent_msgs_def List.map_filter_def)



section \<open>When recovery is started\<close>

definition degraded :: "period \<Rightarrow> bool" where
  "degraded p \<longleftrightarrow> readable p \<and> conn_state p = ''Connected'' \<and> shown (pd_role p) = ''Primary'' \<and>
     shown (pd_ldisk p) = ''UpToDate'' \<and> shown (pd_rdisk p) \<in> {''Inconsistent'', ''Outdated''}"

lemma looks_isdegraded: "looks (isdegraded (period_world p) g) (if degraded p then 1 else 0, queried p g)"
proof -
  have "looks (isdegraded (period_world p) g) (if readable p \<and> g_cstate (queried p g) = ''Connected'' \<and> g_role (queried p g) = ''Primary'' \<and>
      g_ldisk (queried p g) = ''UpToDate'' \<and> (g_rdisk (queried p g) = ''Inconsistent'' \<or> g_rdisk (queried p g) = ''Outdated'') then 1 else 0, queried p g)"
    unfolding isdegraded_def by (rule looks_bind [OF looks_parse]) (auto simp: looks_ret)
  then show ?thesis
    by (auto simp: degraded_def queried_def readable_def copy16_eq shown_clean conn_state_clean split: if_splits)
qed

text \<open>
  C39: The recovery thread runs the recovery command exactly in the periods in which the mirror is
  degraded, that is connected, primary and up to date here while the peer is inconsistent or outdated,
  once in each, with the alarm of the configuration.
\<close>

theorem recovery_iff_degraded:
  assumes "d_utilObj s" "d_cngObj s" "rec_drbdObj s = Some g"
  shows "\<exists>cmds s'. DRBDRecovery_healthCheck (period_world p) s = Some (Ok 0, s') \<and>
     d_trc s' = (if degraded p then [Shell (dc_callbackTmout (d_Config s) div 1000 - 1) recovery_cmd] else []) @ map Popen cmds @ d_trc s"
proof -
  obtain cmds where "isdegraded (period_world p) g s = Some (Ok (if degraded p then 1 else 0, queried p g), s\<lparr>d_trc := map Popen cmds @ d_trc s\<rparr>)"
    using looks_isdegraded [of p g] assms(1) unfolding looks_def by blast
  then show ?thesis
    using assms
    by (auto simp: DRBDRecovery_healthCheck_def devmon_recovery_def devmon_Utils_def through_def devmon_execlp_def run_simps period_world_def)
qed

theorem recovery_iff_degraded_witness:
  "\<exists>cmds s'. DRBDRecovery_healthCheck (period_world (good_period\<lparr>pd_rdisk := Some ''Outdated''\<rparr>)) (fresh_monitor\<lparr>rec_drbdObj := Some DRBDMgr_ctor\<rparr>)
     = Some (Ok 0, s') \<and> d_trc s' = Shell 89 ''/opt/ap/apos/bin/raidmgr --recover --force &>/dev/null'' # map Popen cmds"
  using recovery_iff_degraded [of "fresh_monitor\<lparr>rec_drbdObj := Some DRBDMgr_ctor\<rparr>" DRBDMgr_ctor "good_period\<lparr>pd_rdisk := Some ''Outdated''\<rparr>"]
  by (simp add: period_examples degraded_def devmon_default_config_def recovery_cmd_def APOS_HA_CMD_LEN_def APOS_HA_CMD_DDMGR_def
      APOS_HA_CMD_RECOVERY_OPTS_def)

lemma bad_period_reported:
  assumes "watching s" "\<not> m_sendMsg s" "is_bad p" "pd_accepts p"
  shows "\<exists>s' sz i. devmon_healthCheck (period_world p) s = Some (Ok 0, s') \<and> sent_msgs s' = sent_msgs s @ [msg_bytes (verdict p) sz i]"
proof -
  obtain g where g: "mon_drbdObj s = Some g" "g_data g \<noteq> None" "d_utilObj s"
    using assms(1) by (auto simp: watching_def split: option.splits)
  obtain cmds where a: "isactive (period_world p) g s =
      Some (Ok (if is_bad p then 0 else 1, found p g), s\<lparr>d_trc := map Popen cmds @ d_trc s\<rparr>)"
    using looks_isactive [OF g(2)] g(3) by (auto simp: looks_def)
  have "readable p" using assms(3) by (simp add: is_bad_def)
  then show ?thesis
    using g a assms(2-4) by (auto simp: devmon_healthCheck_def run_simps run_sendMsg)
qed

end
