(* ===== verification/Devmon_Pipe.thy ===== *)
theory Devmon_Pipe
  imports Devmon_Report Agent_RoleMgr
begin

text \<open>
  The pipe between the device monitor and the agent: what \<^verbatim>\<open>HA_AGENT_RoleMgr::readMsg\<close> makes of the
  bytes that \<^verbatim>\<open>Global::write_buffer\<close> has written. The pipe is a stream of bytes; one read takes up to
  the 1024 bytes of the buffer.
\<close>

definition pipe_read :: "string \<Rightarrow> string \<times> string" where
  "pipe_read pipe = (take 1024 pipe, drop 1024 pipe)"

definition is_next_read :: "aworld \<Rightarrow> agent \<Rightarrow> string \<Rightarrow> bool" where
  "is_next_read w a bs \<longleftrightarrow> aw_str w (trc a) (Sys ''read fifo'') = Some bs"

lemma take_msg: "take 4 (msg_bytes type sz i @ rest) = bytes32 (devmon_code type)"
  by (simp add: msg_bytes_def)

lemma read_message:
  assumes "is_next_read w a (msg_bytes type sz i @ rest)" "type \<noteq> DEVMON_INVALID"
  shows "readMsg w a = Some (Ok (Some type), a\<lparr>trc := Sys ''read fifo'' # trc a\<rparr>)"
proof -
  obtain c cs where c: "msg_bytes type sz i @ rest = c # cs"
    by (cases "msg_bytes type sz i @ rest") (auto simp: msg_bytes_def bytes32_def)
  have "take 4 ((c # cs) @ replicate 4 NUL) = bytes32 (devmon_code type)"
    unfolding c [symmetric] append_assoc by (rule take_msg)
  then show ?thesis
    using assms c by (simp add: readMsg_def is_next_read_def run_simps ask_str_def word_of_bytes_bytes32 devmon_code_inverse)
qed

lemma framedE:
  assumes "framed bs"
  obtains type i where "type \<noteq> DEVMON_INVALID" "wf_info i" "bs = msg_bytes type 305 i" "head_of bs = (type, inf_isConfigured i)"
  using assms head_msg by (auto simp: framed_def)

text \<open>From the 58th byte on a message holds the disk information, which is empty.\<close>

lemma framed_tail: "framed bs \<Longrightarrow> 57 \<le> n \<Longrightarrow> drop n bs = replicate (313 - n) NUL"
proof -
  assume "framed bs" and n: "57 \<le> n"
  then obtain type i where i: "wf_info i" "bs = msg_bytes type 305 i" by (auto elim: framedE)
  define pre where "pre = bytes32 (devmon_code type) @ bytes32 305 @ [if inf_isConfigured i then CHR 0x01 else NUL] @
    char_array 16 (inf_cstate i) @ char_array 16 (inf_role i) @ char_array 16 (inf_dstate i)"
  have "bs = pre @ replicate 256 NUL" "length pre = 57"
    using i by (simp_all add: pre_def msg_bytes_def info_bytes_def wf_info_def short_def char_array_def)
  then show ?thesis using n by simp
qed

lemma concat_framed_length: "list_all framed ms \<Longrightarrow> length (concat ms) = 313 * length ms"
  by (induction ms) (simp_all add: framed_length)

lemma read_zeros:
  assumes "is_next_read w a (replicate n NUL)" "0 < n"
  shows "readMsg w a = Some (Ok (Some DEVMON_INVALID), a\<lparr>trc := Sys ''read fifo'' # trc a\<rparr>)"
proof -
  obtain m where n: "replicate n NUL = NUL # replicate m NUL" using assms(2) by (cases n) auto
  have "take 4 ((NUL # replicate m NUL) @ replicate 4 NUL) = replicate 4 NUL"
    unfolding n [symmetric] replicate_add [symmetric] by simp
  moreover have "devmon_msg_of (word_of_bytes (replicate 4 NUL)) = DEVMON_INVALID"
  proof -
    have four: "replicate 4 NUL = [NUL, NUL, NUL, NUL]" by (simp add: numeral_eq_Suc)
    show ?thesis unfolding four by (simp add: word_of_bytes_def devmon_msg_of_def)
  qed
  ultimately show ?thesis
    using assms(1) by (simp add: readMsg_def is_next_read_def run_simps ask_str_def n del: append_Cons)
qed

text \<open>
  C10: A fault seen by the device monitor reaches the role manager: the message it writes is read back as
  the verdict, and the role manager then looks at the disk itself exactly if the role has changed. All
  other faults, a lost connection among them, have no effect.
\<close>

theorem fault_reaches_role_manager:
  assumes "watching s" "\<not> m_sendMsg s" "is_bad p" "pd_accepts p"
  shows "\<exists>s' bs. devmon_healthCheck (period_world p) s = Some (Ok 0, s') \<and> sent_msgs s' = sent_msgs s @ [bs] \<and>
     (\<forall>w a. aw_ok w (trc a) (New ''HA_DEVMON_MsgT'') \<and> is_next_read w (a\<lparr>trc := New ''HA_DEVMON_MsgT'' # trc a\<rparr>) bs \<longrightarrow>
        dispatch w a =
          (if verdict p = DRBD_ROLE_CHANGE
           then seq (bind (deref m_drbdObj (drbdHealth w False)) (\<lambda>rc. if rc < 0 then fail_or_exit w else ret (0 :: int))) (ret ())
           else ret ()) (a\<lparr>trc := Sys ''read fifo'' # New ''HA_DEVMON_MsgT'' # trc a\<rparr>))"
proof -
  obtain s' sz i where s': "devmon_healthCheck (period_world p) s = Some (Ok 0, s')" "sent_msgs s' = sent_msgs s @ [msg_bytes (verdict p) sz i]"
    using bad_period_reported [OF assms] by blast
  have "dispatch w a =
          (if verdict p = DRBD_ROLE_CHANGE
           then seq (bind (deref m_drbdObj (drbdHealth w False)) (\<lambda>rc. if rc < 0 then fail_or_exit w else ret (0 :: int))) (ret ())
           else ret ()) (a\<lparr>trc := Sys ''read fifo'' # New ''HA_DEVMON_MsgT'' # trc a\<rparr>)"
    if "aw_ok w (trc a) (New ''HA_DEVMON_MsgT'')" "is_next_read w (a\<lparr>trc := New ''HA_DEVMON_MsgT'' # trc a\<rparr>) (msg_bytes (verdict p) sz i)" for w a
    using that read_message [of w "a\<lparr>trc := New ''HA_DEVMON_MsgT'' # trc a\<rparr>" "verdict p" sz i "[]"] verdict_valid [of p]
    by (simp add: dispatch_def run_simps ask_ok_def processMsg_def)
  then show ?thesis using s' by blast
qed

theorem fault_reaches_role_manager_witness:
  "\<exists>s' bs. devmon_healthCheck (period_world (good_period\<lparr>pd_role := Some ''Secondary''\<rparr>)) fresh_monitor = Some (Ok 0, s') \<and> sent_msgs s' = [bs] \<and>
     (\<forall>w a. aw_ok w (trc a) (New ''HA_DEVMON_MsgT'') \<and> is_next_read w (a\<lparr>trc := New ''HA_DEVMON_MsgT'' # trc a\<rparr>) bs \<longrightarrow>
        dispatch w a =
          seq (bind (deref m_drbdObj (drbdHealth w False)) (\<lambda>rc. if rc < 0 then fail_or_exit w else ret (0 :: int))) (ret ())
            (a\<lparr>trc := Sys ''read fifo'' # New ''HA_DEVMON_MsgT'' # trc a\<rparr>))"
  using fault_reaches_role_manager [of fresh_monitor "good_period\<lparr>pd_role := Some ''Secondary''\<rparr>"]
  by (simp add: period_examples sent_msgs_def List.map_filter_def)

text \<open>
  C13: One read of the role manager takes all that is in the pipe, up to 1024 bytes, as one message. Of two
  or three messages that are waiting only the first is seen; of four the beginning of the last is lost
  too, and the next read takes its end for an invalid message.
\<close>

theorem queued_messages_lost:
  assumes "list_all framed ms" "ms \<noteq> []"
    and "is_next_read w a (fst (pipe_read (concat ms)))" "is_next_read w' a' (snd (pipe_read (concat ms)))"
  shows "readMsg w a = Some (Ok (Some (fst (head_of (hd ms)))), a\<lparr>trc := Sys ''read fifo'' # trc a\<rparr>) \<and>
     (length ms \<le> 3 \<longrightarrow> snd (pipe_read (concat ms)) = []) \<and>
     (length ms = 4 \<longrightarrow> readMsg w' a' = Some (Ok (Some DEVMON_INVALID), a'\<lparr>trc := Sys ''read fifo'' # trc a'\<rparr>))"
proof (intro conjI impI)
  obtain m ms' where ms: "ms = m # ms'" "framed m" using assms(1,2) by (cases ms) auto
  obtain type i where m: "type \<noteq> DEVMON_INVALID" "m = msg_bytes type 305 i" "head_of m = (type, inf_isConfigured i)"
    using ms(2) by (auto elim: framedE)
  have "fst (pipe_read (concat ms)) = m @ take (1024 - length m) (concat ms')"
    using framed_length [OF ms(2)] by (simp add: pipe_read_def ms(1))
  then show "readMsg w a = Some (Ok (Some (fst (head_of (hd ms)))), a\<lparr>trc := Sys ''read fifo'' # trc a\<rparr>)"
    using read_message [of w a type 305 i] assms(3) m ms by simp
next
  assume "length ms \<le> 3"
  then show "snd (pipe_read (concat ms)) = []" using concat_framed_length [OF assms(1)] by (simp add: pipe_read_def)
next
  assume n: "length ms = 4"
  then obtain m1 m2 m3 m4 where ms: "ms = [m1, m2, m3, m4]" by (auto simp: numeral_eq_Suc length_Suc_conv)
  have "framed m1" "framed m2" "framed m3" "framed m4" using assms(1) by (simp_all add: ms)
  then have "snd (pipe_read (concat ms)) = replicate 228 NUL"
    using framed_tail [of m4 85] by (simp add: ms pipe_read_def framed_length)
  then show "readMsg w' a' = Some (Ok (Some DEVMON_INVALID), a'\<lparr>trc := Sys ''read fifo'' # trc a'\<rparr>)"
    using read_zeros [of w' a' 228] assms(4) by simp
qed

theorem queued_messages_lost_witness:
  "let m1 = msg_bytes DRBD_CONN_ERROR 305 no_info; m2 = msg_bytes DRBD_ROLE_CHANGE 305 no_info;
       w = \<lparr>aw_ok = (\<lambda>_ _. True), aw_int = (\<lambda>_ _. 0), aw_str = (\<lambda>t _. if t = [] then Some (m1 @ m2) else Some []),
             aw_shell = (\<lambda>_ _. Status 0), aw_spawn = (\<lambda>_ _. PipeFailed)\<rparr>
   in readMsg w agent_init = Some (Ok (Some DRBD_CONN_ERROR), agent_init\<lparr>trc := [Sys ''read fifo'']\<rparr>) \<and> snd (pipe_read (m1 @ m2)) = []"
proof -
  define m1 where "m1 = msg_bytes DRBD_CONN_ERROR 305 no_info"
  define m2 where "m2 = msg_bytes DRBD_ROLE_CHANGE 305 no_info"
  define w where "w = \<lparr>aw_ok = (\<lambda>_ _. True), aw_int = (\<lambda>_ _. 0), aw_str = (\<lambda>t _. if t = [] then Some (m1 @ m2) else Some []),
             aw_shell = (\<lambda>_ _. Status 0), aw_spawn = (\<lambda>_ _. PipeFailed)\<rparr>"
  have wf: "wf_info no_info" by (simp add: wf_info_def no_info_def short_def)
  then have f: "framed m1" "framed m2" by (auto simp: framed_def m1_def m2_def)
  have h: "fst (head_of m1) = DRBD_CONN_ERROR" by (simp add: m1_def head_msg)
  have r: "is_next_read w agent_init (fst (pipe_read (concat [m1, m2])))"
    "is_next_read w (agent_init\<lparr>trc := [Sys ''read fifo'']\<rparr>) (snd (pipe_read (concat [m1, m2])))"
    using f by (simp_all add: is_next_read_def w_def pipe_read_def agent_init_def framed_length)
  show ?thesis
    unfolding m1_def [symmetric] m2_def [symmetric] Let_def w_def [symmetric]
    using queued_messages_lost [OF _ _ r] f h by (simp add: agent_init_def)
qed

end
