(* ===== verification/Devmon_Adm.thy ===== *)
theory Devmon_Adm
  imports Devmon_Report Agent_Ha
begin

text \<open>
  \<^verbatim>\<open>apos_ha_devmon_adm.cpp\<close>, the administrator that starts and stops the two threads;
  \<^verbatim>\<open>apos_ha_devmon_hamanager.cpp\<close> and \<^verbatim>\<open>apos_ha_devmon_amfclass.cpp\<close>, which create it when AMF makes
  the node active and delete it otherwise; and \<^verbatim>\<open>apos_ha_devmon_main.cpp\<close>. The thread of the
  administrator is given by its body; waiting for a thread is a call to the environment.
\<close>

section \<open>The administrator\<close>

definition Adm_DRBDMon :: "aworld \<Rightarrow> (devmon, bool) prog" where
  "Adm_DRBDMon w =
     bind (gets d_dMonObj) (\<lambda>present.
     if present then ret True else dnew w ''HA_DEVMON_DRBDMon'' (\<lambda>s. devmon_DRBDMon_ctor (s\<lparr>d_dMonObj := True\<rparr>)))"

definition Adm_DRBDRecovery :: "aworld \<Rightarrow> (devmon, bool) prog" where
  "Adm_DRBDRecovery w =
     bind (gets d_dRcvyObj) (\<lambda>present.
     if present then ret True else dnew w ''HA_DEVMON_DRBDRecovery'' (\<lambda>s. DRBDRecovery_ctor (s\<lparr>d_dRcvyObj := True\<rparr>)))"

definition Adm_initClasses :: "aworld \<Rightarrow> (devmon, int) prog" where
  "Adm_initClasses w =
     seq (devmon_Config w) (
     bind (devmon_readConfig w) (\<lambda>rc.
     if rc < 0 then ret (-1)
     else seq (devmon_Utils w) (
     bind (devmon_Utils_init w) (\<lambda>rc. ret (if rc < 0 then -1 else 0)))))"

definition Adm_start :: "aworld \<Rightarrow> (devmon, int) prog" where
  "Adm_start w =
     bind (dask_int w (Sys ''register SIGINT'')) (\<lambda>status.
     if status < 0 then ret (-1)
     else bind (dask_int w (Sys ''register SIGTERM'')) (\<lambda>status.
     if status < 0 then ret (-1)
     else bind (dask_int w (Sys ''register SIGHUP'')) (\<lambda>status.
     if status < 0 then ret (-1)
     else bind (Adm_initClasses w) (\<lambda>rc.
     if rc < 0 then ret (-1) else dask_int w (Sys ''activate Adm'')))))"

text \<open>\<^verbatim>\<open>start(devmonHAClass*)\<close>.\<close>

definition Adm_start_ha :: "aworld \<Rightarrow> (devmon, int) prog" where
  "Adm_start_ha w = seq (modify (\<lambda>s. s\<lparr>d_haObj := True, d_haMode := True\<rparr>)) (Adm_start w)"

definition Adm_stop :: "aworld \<Rightarrow> (devmon, unit) prog" where
  "Adm_stop w = seq (devmon_post w ''SHUTDOWN'') (ret ())"

definition devmon_readConfig_r :: "aworld \<Rightarrow> (devmon, unit) prog" where
  "devmon_readConfig_r w = seq (devmon_Config w) (seq (devmon_Config w) (seq (devmon_readConfig w) (ret ())))"

text \<open>\<^verbatim>\<open>SIGHUP\<close> is 1.\<close>

definition Adm_handle_signal :: "aworld \<Rightarrow> int \<Rightarrow> (devmon, int) prog" where
  "Adm_handle_signal w signum =
     seq (if signum = 1 then devmon_readConfig_r w else Adm_stop w) (ret 0)"

definition Adm_shutDown_all :: "aworld \<Rightarrow> (devmon, unit) prog" where
  "Adm_shutDown_all w =
     seq (dtell (Sys ''remove SIGHUP'')) (
     seq (dtell (Sys ''remove SIGTERM'')) (
     seq (dtell (Sys ''remove SIGINT'')) (
     seq (modify (\<lambda>s. s\<lparr>d_shutdownOrdered := True\<rparr>)) (
     seq (Adm_DRBDMon w) (
     seq (through d_dMonObj (devmon_DRBDMon_close w)) (
     seq (dtell (Sys ''wait DRBDMon'')) (
     seq (Adm_DRBDRecovery w) (
     seq (through d_dRcvyObj (DRBDRecovery_close w)) (
     seq (dtell (Sys ''wait DRBDRecovery'')) (
     seq (fifo_close w) (ret ())))))))))))"

partial_function (option) devmon_adm_loop :: "aworld \<Rightarrow> devmon \<Rightarrow> (unit res \<times> devmon) option" where
  "devmon_adm_loop w s =
     bind (devmon_getq w ''Adm'') (\<lambda>msg s.
       if msg = None then Some (Ok (), s)
       else if msg = Some DEVMON_SHUTDOWN then Adm_shutDown_all w s
       else devmon_adm_loop w s) s"

text \<open>Opening the pipe and starting the threads; True if all of it worked.\<close>

definition Adm_start_threads :: "aworld \<Rightarrow> (devmon, bool) prog" where
  "Adm_start_threads w =
     bind (fifo_open w) (\<lambda>rc.
     if rc < 0 then ret False
     else bind (Adm_DRBDMon w) (\<lambda>ok.
     if \<not> ok then ret False
     else bind (devmon_DRBDMon_open w) (\<lambda>rc.
     if rc \<noteq> 0 then ret False
     else bind (Adm_DRBDRecovery w) (\<lambda>ok.
     if \<not> ok then ret False
     else bind (DRBDRecovery_open w) (\<lambda>rc. ret (rc = 0))))))"

definition Adm_svc :: "aworld \<Rightarrow> (devmon, int) prog" where
  "Adm_svc w =
     bind (Adm_start_threads w) (\<lambda>ok.
     if \<not> ok then devmon_give_up w else seq (devmon_adm_loop w) (ret 0))"

definition devmon_deactivate :: "devmon \<Rightarrow> devmon" where
  "devmon_deactivate s = s\<lparr>d_cngObj := False, d_utilObj := False\<rparr>"

definition Adm_delete :: "(devmon, unit) prog" where
  "Adm_delete =
     modify (\<lambda>s. (devmon_deactivate (s\<lparr>d_dMonObj := False, d_dRcvyObj := False\<rparr>))\<lparr>d_shutdownOrdered := False, d_haMode := False\<rparr>)"

section \<open>Role changes\<close>

definition devmon_activateApp :: "aworld \<Rightarrow> (devmon, bool) prog" where
  "devmon_activateApp w =
     bind (gets m_admObj) (\<lambda>present.
     if present then ret True
     else bind (dnew w ''HA_DEVMON_Adm'' (\<lambda>s. s\<lparr>m_admObj := True, d_dMonObj := False, d_dRcvyObj := False\<rparr>)) (\<lambda>ok.
     if \<not> ok then ret False
     else bind (Adm_start_ha w) (\<lambda>res.
     if res < 0 then seq Adm_delete (seq (modify (\<lambda>s. s\<lparr>m_admObj := False\<rparr>)) (ret False))
     else ret True)))"

definition devmon_passifyApp :: "aworld \<Rightarrow> (devmon, bool) prog" where
  "devmon_passifyApp w =
     bind (gets m_admObj) (\<lambda>present.
     if \<not> present then ret True
     else seq (Adm_stop w) (
       seq (dtell (Sys ''wait Adm'')) (
       seq Adm_delete (
       seq (modify (\<lambda>s. s\<lparr>m_admObj := False\<rparr>)) (ret True)))))"

section \<open>AMF callbacks\<close>

definition devmon_amf_answer :: "aworld \<Rightarrow> string \<Rightarrow> bool \<Rightarrow> (devmon, bool) prog" where
  "devmon_amf_answer w call ok = dask_ok w (Send call (if ok then ''SA_AIS_OK'' else ''SA_AIS_ERR_FAILED_OPERATION''))"

definition devmon_restore_state :: "bool \<Rightarrow> ha_state \<Rightarrow> (devmon, unit) prog" where
  "devmon_restore_state ok previous = when_do (\<not> ok) (modify (\<lambda>s. s\<lparr>d_HAState := previous\<rparr>))"

definition devmon_csi_set_callback :: "aworld \<Rightarrow> ha_state \<Rightarrow> (devmon, unit) prog" where
  "devmon_csi_set_callback w p_HAState =
     through d_appMngrObj (
     bind (gets d_HAState) (\<lambda>previousHAState.
     seq (modify (\<lambda>s. s\<lparr>d_HAState := p_HAState\<rparr>)) (
     if p_HAState = HA_QUIESCING then
       seq (devmon_amf_answer w ''saAmfResponse'' True) (
       bind (devmon_passifyApp w) (\<lambda>done.
       bind (devmon_amf_answer w ''saAmfCSIQuiescingComplete'' done) (\<lambda>ok.
       devmon_restore_state ok previousHAState)))
     else
       bind (case p_HAState of
               HA_ACTIVE \<Rightarrow> devmon_activateApp w
             | HA_STANDBY \<Rightarrow> devmon_passifyApp w
             | HA_QUIESCED \<Rightarrow> devmon_passifyApp w
             | _ \<Rightarrow> ret True) (\<lambda>done.
       bind (devmon_amf_answer w ''saAmfResponse'' done) (\<lambda>ok.
       devmon_restore_state ok previousHAState)))))"

definition devmon_csi_remove_callback :: "aworld \<Rightarrow> (devmon, unit) prog" where
  "devmon_csi_remove_callback w =
     through d_appMngrObj (
     seq (modify (\<lambda>s. s\<lparr>d_HAState := HA_UNDEFINED\<rparr>)) (
     bind (devmon_passifyApp w) (\<lambda>done.
     seq (devmon_amf_answer w ''saAmfResponse'' done) (ret ()))))"

definition devmon_csi_terminate_callback :: "aworld \<Rightarrow> (devmon, unit) prog" where
  "devmon_csi_terminate_callback w =
     through d_appMngrObj (
     seq (modify (\<lambda>s. s\<lparr>d_HAState := HA_UNDEFINED\<rparr>)) (
     bind (devmon_passifyApp w) (\<lambda>done.
     bind (devmon_amf_answer w ''saAmfResponse'' done) (\<lambda>ok.
     when_do ok (modify (\<lambda>s. s\<lparr>d_termAppEventReceived := True\<rparr>))))))"

definition devmon_healthcheck_callback :: "aworld \<Rightarrow> string \<Rightarrow> (devmon, unit) prog" where
  "devmon_healthcheck_callback w key =
     through d_appMngrObj (through d_hCheckKey (
     when_do (key = ''apos_ha_devmond_hck'') (seq (devmon_amf_answer w ''saAmfResponse'' True) (ret ()))))"

definition devmon_amf_callback :: "aworld \<Rightarrow> int \<Rightarrow> (devmon, unit) prog" where
  "devmon_amf_callback w event =
     (if event = 1 then devmon_csi_set_callback w HA_ACTIVE
      else if event = 2 then devmon_csi_set_callback w HA_STANDBY
      else if event = 3 then devmon_csi_set_callback w HA_QUIESCED
      else if event = 4 then devmon_csi_set_callback w HA_QUIESCING
      else if event = 5 then devmon_csi_remove_callback w
      else if event = 6 then devmon_csi_terminate_callback w
      else bind (dask_str w (Sys ''health check key'')) (\<lambda>key.
           devmon_healthcheck_callback w (case key of None \<Rightarrow> [] | Some k \<Rightarrow> cstr k)))"

partial_function (option) devmon_amf_callbacks :: "aworld \<Rightarrow> devmon \<Rightarrow> (unit res \<times> devmon) option" where
  "devmon_amf_callbacks w s =
     bind (dask_int w (Sys ''next callback'')) (\<lambda>event s.
       if event \<le> 0 then Some (Ok (), s) else seq (devmon_amf_callback w event) (devmon_amf_callbacks w) s) s"

definition devmon_dispatch :: "aworld \<Rightarrow> (devmon, bool) prog" where
  "devmon_dispatch w = seq (devmon_amf_callbacks w) (dask_ok w (Sys ''saAmfDispatch''))"

section \<open>The daemon\<close>

text \<open>The result of \<^verbatim>\<open>safAMFInitialize\<close> is not looked at.\<close>

definition devmon_safAMFInitialize :: "aworld \<Rightarrow> (devmon, bool) prog" where
  "devmon_safAMFInitialize w =
     bind (dask_ok w (Sys ''saAmfInitialize'')) (\<lambda>ok.
     if \<not> ok then ret False else seq (modify (\<lambda>s. s\<lparr>d_appMngrObj := True\<rparr>)) (ret True))"

definition devmon_coreMWInitialize :: "aworld \<Rightarrow> (devmon, bool) prog" where
  "devmon_coreMWInitialize w =
     bind (dask_ok w (Sys ''signal SIGUSR2'')) (\<lambda>ok.
     if \<not> ok then ret False
     else seq (devmon_safAMFInitialize w) (
     bind (dask_ok w (Sys ''saAmfSelectionObjectGet'')) (\<lambda>ok.
     if \<not> ok then ret False
     else bind (dask_ok w (Sys ''saAmfComponentNameGet'')) (\<lambda>ok.
     if \<not> ok then ret False
     else bind (dask_ok w (Sys ''saAmfComponentRegister'')) (\<lambda>ok.
     if \<not> ok then ret False
     else seq (modify (\<lambda>s. s\<lparr>d_hCheckKey := True\<rparr>)) (
     dask_ok w (Sys ''saAmfHealthcheckStart'')))))))"

definition devmon_finalize :: "aworld \<Rightarrow> (devmon, bool) prog" where
  "devmon_finalize w =
     bind (dask_ok w (Sys ''saAmfHealthcheckStop'')) (\<lambda>ok.
     if \<not> ok then ret False
     else seq (modify (\<lambda>s. s\<lparr>d_hCheckKey := False\<rparr>)) (
     bind (dask_ok w (Sys ''saAmfComponentUnregister'')) (\<lambda>ok.
     if \<not> ok then ret False else dask_ok w (Sys ''saAmfFinalize''))))"

definition devmon_AmfFinalize :: "aworld \<Rightarrow> (devmon, bool) prog" where
  "devmon_AmfFinalize w = seq (modify (\<lambda>s. s\<lparr>d_hCheckKey := False\<rparr>)) (dask_ok w (Sys ''saAmfFinalize''))"

text \<open>
  The answers of \<^verbatim>\<open>poll\<close>: -2 interrupted, -1 failed, 0 nothing, otherwise bit 0 and bit 1 say which of
  the AMF handle and the shutdown pipe can be read.
\<close>

partial_function (option) devmon_poll_loop :: "aworld \<Rightarrow> devmon \<Rightarrow> (unit res \<times> devmon) option" where
  "devmon_poll_loop w s =
     bind (dask_int w (Sys ''poll'')) (\<lambda>r s.
       if r = -2 \<or> r = 0 then devmon_poll_loop w s
       else if r < 0 then Some (Ok (), s)
       else
         bind (if odd r then devmon_dispatch w else ret True) (\<lambda>dispatched s.
           if \<not> dispatched then Some (Ok (), s)
           else if odd r \<and> d_termAppEventReceived s then Some (Ok (), s)
           else if odd (r div 2) then seq (devmon_passifyApp w) (ret ()) s
           else devmon_poll_loop w s) s) s"

definition devmon_activate :: "aworld \<Rightarrow> (devmon, ha_return) prog" where
  "devmon_activate w =
     bind (devmon_coreMWInitialize w) (\<lambda>ok.
     if \<not> ok then ret HA_FAILURE
     else bind (dask_ok w (Sys ''pipe'')) (\<lambda>ok.
     if \<not> ok then ret HA_FAILURE
     else bind (dask_ok w (Sys ''fcntl read'')) (\<lambda>ok.
     if \<not> ok then ret HA_FAILURE
     else bind (dask_ok w (Sys ''fcntl write'')) (\<lambda>ok.
     if \<not> ok then ret HA_FAILURE
     else seq (devmon_poll_loop w) (
     seq (dtell (Sys ''close pipe'')) (
     bind (gets d_termAppEventReceived) (\<lambda>term.
     bind (if term then devmon_AmfFinalize w else devmon_finalize w) (\<lambda>ok.
     ret (if ok then HA_SUCCESS else HA_FAILURE_CLOSE)))))))))"

definition devmon_create_pidfile :: "aworld \<Rightarrow> (devmon, bool) prog" where
  "devmon_create_pidfile w =
     bind (dask_ok w (Sys ''open pidfile'')) (\<lambda>ok.
     if \<not> ok then ret False
     else bind (dask_ok w (Sys ''flock LOCK_EX'')) (\<lambda>ok.
     if \<not> ok then seq (dtell (Sys ''fclose'')) (ret False)
     else bind (dask_int w (Sys ''getpid'')) (\<lambda>pid.
     bind (dask_ok w (Send ''pidfile'' (show_nat (nat pid) @ [NL]))) (\<lambda>ok.
     if \<not> ok then seq (dtell (Sys ''fclose'')) (ret False)
     else bind (dask_ok w (Sys ''flock LOCK_UN'')) (\<lambda>ok.
     seq (dtell (Sys ''fclose'')) (ret ok))))))"

definition devmon_daemonize :: "aworld \<Rightarrow> (devmon, unit) prog" where
  "devmon_daemonize w =
     bind (dask_int w (Sys ''getppid'')) (\<lambda>ppid.
     if ppid = 1 then ret ()
     else bind (dask_ok w (Sys ''setuid'')) (\<lambda>_.
     bind (dask_int w (Sys ''fork'')) (\<lambda>pid.
     if pid < 0 then exit_with EXIT_FAILURE
     else if 0 < pid then exit_with EXIT_SUCCESS
     else bind (dask_int w (Sys ''setsid'')) (\<lambda>sid.
     if sid < 0 then exit_with EXIT_FAILURE
     else seq (dtell (Sys ''freopen'')) (
     bind (dask_ok w (Sys ''chdir'')) (\<lambda>ok.
     if \<not> ok then exit_with EXIT_FAILURE
     else bind (devmon_create_pidfile w) (\<lambda>ok.
     if \<not> ok then exit_with EXIT_FAILURE else dtell (Sys ''signal''))))))))"

section \<open>The program\<close>

definition devmon_long_options :: "string list" where
  "devmon_long_options = [''noha'', ''active'']"

text \<open>\<^verbatim>\<open>getopt_long\<close> on one argument, with the options of this program.\<close>

definition devmon_getopt_long :: "string \<Rightarrow> getopt_res" where
  "devmon_getopt_long arg =
     (if arg = ''--'' then EndOptions
      else if take 2 arg = ''--'' then
        (let name = drop 2 arg in
         if name \<in> set devmon_long_options then Option name
         else (case List.filter (prefix name) devmon_long_options of [full] \<Rightarrow> Option full | _ \<Rightarrow> BadOption))
      else if take 1 arg = ''-'' \<and> arg \<noteq> ''-'' then BadOption
      else NonOption)"

text \<open>The counters of the loop: how often \<^verbatim>\<open>--noha\<close> and \<^verbatim>\<open>--active\<close> were given. The flags are set with them.\<close>

definition devmon_take_option :: "string \<Rightarrow> string \<Rightarrow> nat \<times> nat \<Rightarrow> (nat \<times> nat) option" where
  "devmon_take_option name arg = (\<lambda>(noha_cnt, active_cnt).
     if name \<noteq> drop 2 arg then None
     else if name = ''noha'' then (if 0 < noha_cnt then None else Some (noha_cnt + 1, active_cnt))
     else if name = ''active'' then (if 0 < active_cnt then None else Some (noha_cnt, active_cnt + 1))
     else Some (noha_cnt, active_cnt))"

fun devmon_parse_loop :: "string list \<Rightarrow> bool \<Rightarrow> nat \<times> nat \<Rightarrow> ((nat \<times> nat) \<times> bool) option" where
  "devmon_parse_loop [] nonopt c = Some (c, nonopt)"
| "devmon_parse_loop (arg # args) nonopt c =
     (case devmon_getopt_long arg of
        EndOptions \<Rightarrow> Some (c, True)
      | BadOption \<Rightarrow> None
      | NonOption \<Rightarrow> devmon_parse_loop args True c
      | Option name \<Rightarrow> (case devmon_take_option name arg c of None \<Rightarrow> None | Some c' \<Rightarrow> devmon_parse_loop args nonopt c'))"

text \<open>None is the result -1, otherwise the value of \<^verbatim>\<open>nohaflag\<close>.\<close>

definition devmon_parse_command_line :: "string list \<Rightarrow> bool option" where
  "devmon_parse_command_line args =
     (case devmon_parse_loop args False (0, 0) of
        None \<Rightarrow> None
      | Some ((noha_cnt, active_cnt), nonopt) \<Rightarrow>
          if noha_cnt = 0 \<and> 0 < active_cnt then None
          else if nonopt then None
          else Some (0 < noha_cnt))"

definition run_devmon_daemon :: "aworld \<Rightarrow> (devmon, int) prog" where
  "run_devmon_daemon w =
     bind (dask_ok w (Sys ''logtrace_init'')) (\<lambda>ok.
     if \<not> ok then ret (-1)
     else bind (dnew w ''HA_DEVMON_Adm'' (\<lambda>s. s\<lparr>d_dMonObj := False, d_dRcvyObj := False\<rparr>)) (\<lambda>ok.
     if \<not> ok then ret (-1)
     else bind (Adm_start w) (\<lambda>res.
     seq (when_do (0 \<le> res) (dtell (Sys ''wait Adm''))) (seq Adm_delete (ret 0)))))"

definition devmon_main :: "aworld \<Rightarrow> string list \<Rightarrow> (devmon, int) prog" where
  "devmon_main w args =
     (case devmon_parse_command_line args of
        None \<Rightarrow> ret (-1)
      | Some noha \<Rightarrow>
          if noha then run_devmon_daemon w
          else bind (dask_ok w (New ''devmonHAClass'')) (\<lambda>ok.
          if \<not> ok then ret (-1)
          else seq (devmon_daemonize w) (
          bind (dask_ok w (Sys ''logtrace_init'')) (\<lambda>ok.
          if \<not> ok then ret (-1)
          else bind (devmon_activate w) (\<lambda>errorCode.
          seq (devmon_passifyApp w) (
          ret (case errorCode of HA_FAILURE \<Rightarrow> -2 | HA_FAILURE_CLOSE \<Rightarrow> -2 | HA_SUCCESS \<Rightarrow> 0)))))))"

section \<open>The monitor runs on the active node only\<close>

text \<open>
  The frame of what happens while the administrator is there: role and administrator stay, and what is
  allocated stays allocated.
\<close>

definition adm_kept :: "devmon \<Rightarrow> devmon \<Rightarrow> bool" where
  "adm_kept s s' \<longleftrightarrow> m_admObj s' = m_admObj s \<and> d_HAState s' = d_HAState s \<and>
     (d_utilObj s \<longrightarrow> d_utilObj s') \<and> (d_cngObj s \<longrightarrow> d_cngObj s')"

interpretation adm: frame adm_kept
  by unfold_locales (auto simp: adm_kept_def)

named_theorems adm_intros "routines that keep the administrator"

lemma adm_modify: "(\<And>s. adm_kept s (f s)) \<Longrightarrow> keeps adm_kept (modify f)"
  by (rule keeps_modify)

lemma adm_dask [adm_intros]: "keeps adm_kept (dask f c)"
  by (auto simp: keeps_def ok_simps adm_kept_def)

lemma adm_asks [adm_intros]: "keeps adm_kept (dask_ok w c)" "keeps adm_kept (dask_int w c)" "keeps adm_kept (dask_str w c)" "keeps adm_kept (dtell c)"
  by (simp_all add: dask_defs adm_dask)

lemma adm_through [adm_intros]: "keeps adm_kept m \<Longrightarrow> keeps adm_kept (through f m)"
  unfolding through_def by (intro adm.keeps_rules)

lemma adm_new [adm_intros]: "(\<And>s. adm_kept s (f s)) \<Longrightarrow> keeps adm_kept (dnew w c f)"
  unfolding dnew_def by (intro adm.keeps_rules adm_intros adm_modify)

lemma adm_access [adm_intros]: "keeps adm_kept (devmon_Utils w)" "keeps adm_kept (devmon_Config w)" "keeps adm_kept (devmon_getConfig w)"
  unfolding devmon_Utils_def devmon_getConfig_def devmon_Config_def
  by (intro adm.keeps_rules adm_intros; simp add: adm_kept_def)+

lemma adm_readConfig [adm_intros]: "keeps adm_kept (devmon_readConfig w)"
  unfolding devmon_readConfig_def devmon_initLog_def
  by (intro adm.keeps_rules adm_intros adm_modify; simp add: adm_kept_def)

lemma adm_Utils_init [adm_intros]: "keeps adm_kept (devmon_Utils_init w)"
  unfolding devmon_Utils_init_def devmon_Ap_def devmon_Gep_def Let_def
  by (intro adm.keeps_rules adm_intros adm_modify; simp add: adm_kept_def)

lemma adm_initClasses [adm_intros]: "keeps adm_kept (Adm_initClasses w)"
  unfolding Adm_initClasses_def by (intro adm.keeps_rules adm_intros)

lemma adm_post [adm_intros]: "keeps adm_kept (devmon_post w m)" "keeps adm_kept (Adm_stop w)"
  unfolding devmon_post_def Adm_stop_def by (intro adm.keeps_rules adm_intros)+

lemma adm_start [adm_intros]: "keeps adm_kept (Adm_start w)" "keeps adm_kept (Adm_start_ha w)"
  unfolding Adm_start_def Adm_start_ha_def by (intro adm.keeps_rules adm_intros adm_modify; simp add: adm_kept_def)+

lemma adm_signal [adm_intros]: "keeps adm_kept (Adm_handle_signal w n)"
  unfolding Adm_handle_signal_def devmon_readConfig_r_def by (intro adm.keeps_rules adm_intros)

lemma adm_runCommand [adm_intros]: "keeps adm_kept (devmon_runCommand w c)"
  unfolding devmon_runCommand_def by (intro adm.keeps_rules adm_intros)

lemma adm_parse [adm_intros]: "keeps adm_kept (parse_proc_drbd w g)"
  unfolding parse_proc_drbd_def take_value_def devmon_getConnectedState_def devmon_getDrbdRole_def devmon_getDiskState_def
  by (intro adm.keeps_rules adm_intros)

lemma adm_isactive [adm_intros]: "keeps adm_kept (isactive w g)" "keeps adm_kept (isdegraded w g)"
  unfolding isactive_def isdegraded_def Let_def by (intro adm.keeps_rules adm_intros)+

lemma adm_sendMsg [adm_intros]: "keeps adm_kept (sendMsg w)"
  unfolding sendMsg_def write_buffer_def Let_def by (intro adm.keeps_rules adm_intros adm_modify) (simp add: adm_kept_def)

lemma adm_healthCheck [adm_intros]: "keeps adm_kept (devmon_healthCheck w)"
  unfolding devmon_healthCheck_def by (intro adm.keeps_rules adm_intros adm_modify; simp add: adm_kept_def)

lemma adm_recovery [adm_intros]: "keeps adm_kept (DRBDRecovery_healthCheck w)"
  unfolding DRBDRecovery_healthCheck_def devmon_recovery_def devmon_execlp_def
  by (intro adm.keeps_rules adm_intros adm_modify; simp add: adm_kept_def)

lemma adm_timeouts [adm_intros]: "keeps adm_kept (devmon_DRBDMon_timeout w)" "keeps adm_kept (DRBDRecovery_timeout w)"
  unfolding devmon_DRBDMon_timeout_def DRBDRecovery_timeout_def devmon_schedule_def
  by (intro adm.keeps_rules adm_intros adm_modify; simp add: adm_kept_def)+

text \<open>An administrator exists only in the active role, and utilities and configuration exactly with it.\<close>

definition adm_pair :: "devmon \<Rightarrow> bool" where
  "adm_pair s \<longleftrightarrow> d_utilObj s = m_admObj s \<and> d_cngObj s = m_admObj s"

definition adm_inv :: "devmon \<Rightarrow> bool" where
  "adm_inv s \<longleftrightarrow> (m_admObj s \<longrightarrow> d_HAState s = HA_ACTIVE) \<and> adm_pair s"

lemma adm_pair_fields [simp]:
  "adm_pair (s\<lparr>d_HAState := h\<rparr>) = adm_pair s" "adm_pair (s\<lparr>d_trc := t\<rparr>) = adm_pair s"
  "adm_pair (s\<lparr>d_termAppEventReceived := b\<rparr>) = adm_pair s"
  by (simp_all add: adm_pair_def)

lemma adm_inv_kept: "adm_kept s s' \<Longrightarrow> adm_inv s \<Longrightarrow> m_admObj s \<Longrightarrow> adm_inv s'"
  by (auto simp: adm_kept_def adm_inv_def adm_pair_def)

lemma access_allocates:
  "devmon_Config w s = Some (Ok x, s') \<Longrightarrow> d_cngObj s'" "devmon_Utils w s = Some (Ok x, s') \<Longrightarrow> d_utilObj s'"
  by (auto simp: devmon_Config_def devmon_Utils_def through_def ok_simps split: if_splits)

lemma initClasses_allocates:
  assumes "Adm_initClasses w s = Some (Ok res, s')" "0 \<le> res"
  shows "d_cngObj s' \<and> d_utilObj s'"
proof -
  obtain t1 t2 t3 x y where t: "devmon_Config w s = Some (Ok (), t1)" "devmon_readConfig w t1 = Some (Ok x, t2)"
      "devmon_Utils w t2 = Some (Ok (), t3)" "devmon_Utils_init w t3 = Some (Ok y, s')"
    using assms by (auto simp: Adm_initClasses_def ok_simps split: if_splits)
  have "adm_kept t1 t2" "adm_kept t2 t3" "adm_kept t3 s'"
    using t(2-4) keepsD [OF adm_readConfig] keepsD [OF adm_access(1)] keepsD [OF adm_Utils_init] by blast+
  then show ?thesis using access_allocates(1) [OF t(1)] access_allocates(2) [OF t(3)] by (auto simp: adm_kept_def)
qed

lemma start_allocates:
  assumes "Adm_start_ha w s = Some (Ok res, s')"
  shows "adm_kept s s' \<and> (0 \<le> res \<longrightarrow> d_cngObj s' \<and> d_utilObj s')"
proof -
  have "0 \<le> res \<longrightarrow> d_cngObj s' \<and> d_utilObj s'"
    using assms by (auto simp: Adm_start_ha_def Adm_start_def ok_simps split: if_splits dest: initClasses_allocates)
  then show ?thesis using keepsD [OF adm_start(2) assms] by simp
qed

lemma activateApp_inv:
  assumes "devmon_activateApp w s = Some (Ok x, s')" "adm_pair s"
  shows "adm_pair s' \<and> d_HAState s' = d_HAState s"
  using assms
  by (auto simp: devmon_activateApp_def dnew_def ok_simps Adm_delete_def devmon_deactivate_def adm_kept_def adm_pair_def split: if_splits
      dest!: start_allocates)

lemma passifyApp_inv:
  assumes "devmon_passifyApp w s = Some (Ok x, s')" "adm_pair s"
  shows "\<not> m_admObj s' \<and> adm_pair s' \<and> d_HAState s' = d_HAState s"
  using assms
  by (auto simp: devmon_passifyApp_def ok_simps Adm_delete_def devmon_deactivate_def adm_kept_def adm_pair_def split: if_splits
      dest!: keepsD [OF adm_post(2)])

lemma run_devmon_response:
  "amf_accepts w \<Longrightarrow> devmon_amf_answer w ''saAmfResponse'' b s =
     Some (Ok True, s\<lparr>d_trc := Send ''saAmfResponse'' (if b then ''SA_AIS_OK'' else ''SA_AIS_ERR_FAILED_OPERATION'') # d_trc s\<rparr>)"
  by (simp add: devmon_amf_answer_def dask_ok_def amf_accepts_def run_simps)

lemma run_devmon_answer: "devmon_amf_answer w c b s = Some (r, s') \<Longrightarrow> \<exists>ok t. r = Ok ok \<and> s' = s\<lparr>d_trc := t\<rparr>"
  by (auto simp: devmon_amf_answer_def ok_simps)

lemma restore_inv: "devmon_restore_state ok h s = Some (Ok x, s') \<Longrightarrow> \<exists>h. s' = s\<lparr>d_HAState := h\<rparr>"
  by (cases ok) (auto simp: devmon_restore_state_def ok_simps intro: exI [of _ "d_HAState s"])

lemma quiescing_inv:
  assumes "adm_inv s" "devmon_csi_set_callback w HA_QUIESCING s = Some (Ok x, s')"
  shows "adm_inv s'"
proof -
  obtain r t d u q v where run: "devmon_amf_answer w ''saAmfResponse'' True (s\<lparr>d_HAState := HA_QUIESCING\<rparr>) = Some (Ok r, t)"
      "devmon_passifyApp w t = Some (Ok d, u)" "devmon_amf_answer w ''saAmfCSIQuiescingComplete'' d u = Some (Ok q, v)"
      "devmon_restore_state q (d_HAState s) v = Some (Ok x, s')"
    using assms(2) by (simp add: devmon_csi_set_callback_def through_def ok_simps split: if_splits) blast
  have "adm_pair t" using run_devmon_answer [OF run(1)] assms(1) by (auto simp: adm_inv_def)
  then have "\<not> m_admObj u \<and> adm_pair u" using passifyApp_inv [OF run(2)] by simp
  then show ?thesis using run_devmon_answer [OF run(3)] restore_inv [OF run(4)] by (auto simp: adm_inv_def)
qed

lemma set_callback_inv:
  assumes "amf_accepts w" "adm_inv s" "p \<notin> {HA_UNDEFINED, HA_QUIESCING}" "devmon_csi_set_callback w p s = Some (Ok x, s')"
  shows "adm_inv s'"
proof -
  define s0 where "s0 = s\<lparr>d_HAState := p\<rparr>"
  obtain d s1 q v where run: "(case p of HA_ACTIVE \<Rightarrow> devmon_activateApp w
             | HA_STANDBY \<Rightarrow> devmon_passifyApp w
             | HA_QUIESCED \<Rightarrow> devmon_passifyApp w
             | _ \<Rightarrow> ret True) s0 = Some (Ok d, s1)" "devmon_amf_answer w ''saAmfResponse'' d s1 = Some (Ok q, v)"
      "devmon_restore_state q (d_HAState s) v = Some (Ok x, s')"
    using assms(3,4) by (simp add: devmon_csi_set_callback_def through_def ok_simps s0_def split: if_splits) blast
  have s': "\<exists>t. s' = s1\<lparr>d_trc := t\<rparr>"
    using run(2,3) by (auto simp: run_devmon_response [OF assms(1)] devmon_restore_state_def ok_simps)
  have "adm_pair s0" "d_HAState s0 = p" using assms(2) by (simp_all add: s0_def adm_inv_def)
  then have "adm_inv s1"
    using run(1) assms(3) activateApp_inv [of w s0 d s1] passifyApp_inv [of w s0 d s1]
    by (cases p) (auto simp: adm_inv_def)
  then show ?thesis using s' by (auto simp: adm_inv_def)
qed

lemma stop_callbacks_inv:
  "devmon_csi_remove_callback w s = Some (Ok x, s') \<Longrightarrow> adm_inv s \<Longrightarrow> adm_inv s'"
  "devmon_csi_terminate_callback w s = Some (Ok x, s') \<Longrightarrow> adm_inv s \<Longrightarrow> adm_inv s'"
  by (auto simp: devmon_csi_remove_callback_def devmon_csi_terminate_callback_def through_def ok_simps adm_inv_def split: if_splits
      dest!: run_devmon_answer passifyApp_inv)

text \<open>A routine of which only the history tells.\<close>

interpretation traced: frame "\<lambda>s s' :: devmon. \<exists>t. s' = s\<lparr>d_trc := t\<rparr>"
proof -
  have "\<exists>t. s = s\<lparr>d_trc := t\<rparr>" for s :: devmon by (rule exI [of _ "d_trc s"]) simp
  then show "frame (\<lambda>s s' :: devmon. \<exists>t. s' = s\<lparr>d_trc := t\<rparr>)" by unfold_locales auto
qed

lemma traced_dask: "keeps (\<lambda>s s' :: devmon. \<exists>t. s' = s\<lparr>d_trc := t\<rparr>) (dask f c)"
proof (rule keepsI)
  fix s r s' assume "dask f c s = Some (r, s')"
  then have "r = Ok (f (d_trc s))" "s' = s\<lparr>d_trc := c # d_trc s\<rparr>" by (simp_all add: dask_eq)
  then show "(\<exists>t. s' = s\<lparr>d_trc := t\<rparr>) \<and> (\<forall>c. r \<noteq> Exit c)" by blast
qed

lemma traced_healthcheck: "keeps (\<lambda>s s' :: devmon. \<exists>t. s' = s\<lparr>d_trc := t\<rparr>) (bind (dask_str w c) (\<lambda>key. devmon_healthcheck_callback w (f key)))"
  unfolding devmon_healthcheck_callback_def devmon_amf_answer_def through_def dask_ok_def dask_str_def
  by (intro traced.keeps_rules traced_dask)

lemma devmon_callback_inv:
  assumes "amf_accepts w" "adm_inv s" "devmon_amf_callback w e s = Some (Ok (), s')"
  shows "adm_inv s'"
proof -
  have h: "adm_inv s'" if "bind (dask_str w (Sys ''health check key'')) (\<lambda>key.
           devmon_healthcheck_callback w (case key of None \<Rightarrow> [] | Some k \<Rightarrow> cstr k)) s = Some (Ok (), s')"
    using keepsD [OF traced_healthcheck that] assms(2) by (auto simp: adm_inv_def)
  note run = assms(3) [unfolded devmon_amf_callback_def]
  consider "e = 1" | "e = 2" | "e = 3" | "e = 4" | "e = 5" | "e = 6" | "e \<notin> {1, 2, 3, 4, 5, 6}" by blast
  then show ?thesis
  proof cases
    case 1
    then show ?thesis using run assms(1,2) by - (rule set_callback_inv [of w s HA_ACTIVE]; simp)
  next
    case 2
    then show ?thesis using run assms(1,2) by - (rule set_callback_inv [of w s HA_STANDBY]; simp)
  next
    case 3
    then show ?thesis using run assms(1,2) by - (rule set_callback_inv [of w s HA_QUIESCED]; simp)
  next
    case 4
    then show ?thesis using run assms(2) by - (rule quiescing_inv [of s w]; simp)
  next
    case 5
    then show ?thesis using run assms(2) by - (rule stop_callbacks_inv(1); simp)
  next
    case 6
    then show ?thesis using run assms(2) by - (rule stop_callbacks_inv(2); simp)
  next
    case 7
    then show ?thesis using run by - (rule h, simp)
  qed
qed

text \<open>
  The steps of the process: a callback of AMF, and while there is an administrator a signal, a period of
  either thread and a timeout of either timer, in any order.
\<close>

inductive devmon_step :: "aworld \<Rightarrow> devmon \<Rightarrow> devmon \<Rightarrow> bool" for w where
  callback: "devmon_amf_callback w e s = Some (Ok (), s') \<Longrightarrow> devmon_step w s s'"
| signal: "m_admObj s \<Longrightarrow> Adm_handle_signal w n s = Some (Ok rc, s') \<Longrightarrow> devmon_step w s s'"
| report: "m_admObj s \<Longrightarrow> devmon_healthCheck w s = Some (Ok rc, s') \<Longrightarrow> devmon_step w s s'"
| recover: "m_admObj s \<Longrightarrow> DRBDRecovery_healthCheck w s = Some (Ok rc, s') \<Longrightarrow> devmon_step w s s'"
| mon_timer: "m_admObj s \<Longrightarrow> devmon_DRBDMon_timeout w s = Some (Ok rc, s') \<Longrightarrow> devmon_step w s s'"
| rec_timer: "m_admObj s \<Longrightarrow> DRBDRecovery_timeout w s = Some (Ok rc, s') \<Longrightarrow> devmon_step w s s'"

inductive devmon_run :: "aworld \<Rightarrow> devmon \<Rightarrow> devmon \<Rightarrow> bool" for w where
  begin_run: "devmon_run w s s"
| step_run: "devmon_run w s s' \<Longrightarrow> devmon_step w s' s'' \<Longrightarrow> devmon_run w s s''"

lemma devmon_step_inv:
  assumes "devmon_step w s s'" "amf_accepts w" "adm_inv s"
  shows "adm_inv s'"
  using assms
proof (cases rule: devmon_step.cases)
  case (callback e)
  then show ?thesis using assms devmon_callback_inv by blast
next
  case (signal n rc)
  then show ?thesis using assms keepsD [OF adm_signal] adm_inv_kept by blast
next
  case (report rc)
  then show ?thesis using assms keepsD [OF adm_healthCheck] adm_inv_kept by blast
next
  case (recover rc)
  then show ?thesis using assms keepsD [OF adm_recovery] adm_inv_kept by blast
next
  case (mon_timer rc)
  then show ?thesis using assms keepsD [OF adm_timeouts(1)] adm_inv_kept by blast
next
  case (rec_timer rc)
  then show ?thesis using assms keepsD [OF adm_timeouts(2)] adm_inv_kept by blast
qed


definition standby_devmon :: devmon where
  "standby_devmon = devmon_init\<lparr>d_appMngrObj := True, d_HAState := HA_STANDBY\<rparr>"

text \<open>An environment in which every call succeeds and both files can be read.\<close>

definition devmon_world :: aworld where
  "devmon_world = (period_world good_period)\<lparr>aw_str := (\<lambda>_ c. if c = Sys ''fopen node id'' then Some ''1'' else if c = Sys ''fopen devmon config'' then Some [] else None)\<rparr>"

lemma devmon_becomes_active: "\<exists>s'. devmon_amf_callback devmon_world 1 standby_devmon = Some (Ok (), s') \<and> m_admObj s'"
proof -
  have "atoi ''1'' = 1" "cstr ''1'' = ''1''" by code_simp+
  then show ?thesis
    by (simp add: devmon_amf_callback_def devmon_csi_set_callback_def devmon_activateApp_def dnew_def Adm_start_ha_def Adm_start_def
        Adm_initClasses_def devmon_Config_def devmon_Utils_def devmon_readConfig_def devmon_initLog_def devmon_Utils_init_def devmon_Ap_def
        devmon_Gep_def devmon_amf_answer_def devmon_restore_state_def through_def run_simps standby_devmon_def devmon_init_def devmon_world_def
        period_world_def isspace_def Let_def)
qed


end
