(* ===== verification/Spec2Isabelle.thy ===== *)
theory Spec2Isabelle
  imports Prelude CString Sinetcc Nss_Fbs Nss_Cmd Agent_Ha Devmon_Pipe Devmon_Adm
begin

text \<open>
  Verification library for the APOS repository.
\<close>

section \<open>Taking the active role\<close>

text \<open>
  C15: On a node whose disk is up to date and was not the target of a synchronisation, where every call
  succeeds and no other node answers, the role manager becomes active: initialisation, health check,
  split brain algorithm, start of the jobs and of the DRBD monitor all succeed, and no lock file is left.
\<close>

theorem become_active_succeeds:
  assumes "good_start w" "steady_disk w ''UpToDate'' r" "r \<in> {''Primary'', ''Secondary''}"
    and "m_utilObj s" "m_cngObj s" "m_pwrOffObj s" "m_map s = Mapped"
    and "unat (mip_size (m_Config s)) \<le> length (mips (m_Config s))"
    and "f_persis s = Some (encode_persis p @ zs)" "length (pi_cstate p) < 16" "NUL \<notin> set (pi_cstate p)" "\<not> syncing_target (pi_cstate p)"
  shows "\<exists>s'. become_active w s = Some (Ok True, s') \<and> m_startJobsDone s' \<and> m_DMObj s' \<and> \<not> f_lock s'"
  using assms by (rule become_active_runs)

theorem become_active_succeeds_witness:
  "\<exists>s'. become_active (disk_world ''UpToDate'' ''Secondary'') (ready_agent\<lparr>m_pwrOffObj := True, m_map := Mapped,
      f_persis := Some (encode_persis \<lparr>pi_cstate = ''Connected'', pi_rebootCount = 1\<rparr> @ []), m_Config := mip_config, f_lock := True\<rparr>)
    = Some (Ok True, s') \<and> m_startJobsDone s' \<and> m_DMObj s' \<and> \<not> f_lock s'"
proof (rule become_active_succeeds [where p = "\<lparr>pi_cstate = ''Connected'', pi_rebootCount = 1\<rparr>" and zs = "[]" and r = "''Secondary''"])
  show "steady_disk (disk_world ''UpToDate'' ''Secondary'') ''UpToDate'' ''Secondary''"
    by (rule steady_disk_world) (simp_all add: one_line_def is_eol_def)
qed (simp_all add: good_start_def disk_world_def no_answer_def example_simps mip_config_def syncing_target_def)

section \<open>The command and the library on one database\<close>

text \<open>What the C library reads from the line of an entry; \<open>sz\<close> is the buffer space it needs.\<close>

definition seen_entry :: "(TsPassword \<Rightarrow> nat) \<Rightarrow> TsPassword \<Rightarrow> pwent" where
  "seen_entry sz p = \<lparr>pw_name = strName p, pw_uid = uId p, pw_size = sz p\<rparr>"

lemma lookup_uid:
  assumes "steady nw (map (seen_entry sz) es)" "\<forall>e \<in> set es. sz e \<le> n"
  shows "\<exists>t. nss_step nw (Getpwuid uid n) nss_init = Some (Ok (case find (uid_matches uid) (map (seen_entry sz) es) of
      None \<Rightarrow> (NOTFOUND, None) | Some e \<Rightarrow> (SUCCESS, Some e)), t)"
proof -
  have "\<forall>e \<in> set (map (seen_entry sz) es). pw_size e \<le> n" using assms(2) by (simp add: seen_entry_def)
  from scan_find [OF this, of "uid_matches uid"] show ?thesis
    using nss_run_abs [OF assms(1), of "[Getpwuid uid n]"]
    by (auto simp: cursor_step_def ok_simps)
qed

lemma find_uid_append:
  "\<forall>e \<in> set es. uId e \<noteq> uid \<Longrightarrow> find (uid_matches uid) (map (seen_entry sz) (es @ ps)) = find (uid_matches uid) (map (seen_entry sz) ps)"
  by (induction es) (auto simp: uid_matches_def seen_entry_def)

text \<open>
  C7: the command and the library agree on the database. After \<^verbatim>\<open>nss_ufbs -i\<close> of an id that LDAP
  knows, \<^verbatim>\<open>getpwuid_r\<close> of the library, in a process that opens the file the command wrote, answers that
  user; after \<^verbatim>\<open>nss_ufbs -r\<close> it answers that there is no such user, whether the id was there before or not.
\<close>

theorem lookup_follows_command:
  assumes "sunny w" "ldap_fits w" "db_ready db s" "uid_argument arg"
  shows "(\<forall>p k. dw_ldap w (atoi arg) = NSS_STATUS_SUCCESS p k \<longrightarrow> hd0 (strName p) \<notin> {CHR ''+'', CHR ''-''} \<longrightarrow>
      (\<exists>s'. nss_ufbs_main w [cmd, ''-i'', arg] s = Some (Ok RET_SUCCESS, s') \<and>
        (\<forall>nw sz n. steady nw (map (seen_entry sz) (db_entries db s')) \<longrightarrow> (\<forall>e \<in> set (db_entries db s'). sz e \<le> n) \<longrightarrow>
          (\<exists>t. nss_step nw (Getpwuid (uId p) n) nss_init = Some (Ok (SUCCESS, Some (seen_entry sz p)), t))))) \<and>
    (\<exists>code s'. nss_ufbs_main w [cmd, ''-r'', arg] s = Some (Ok code, s') \<and> code \<in> {RET_SUCCESS, ERR_NOTFOUND} \<and>
        (\<forall>nw sz n. steady nw (map (seen_entry sz) (db_entries db s')) \<longrightarrow> (\<forall>e \<in> set (db_entries db s'). sz e \<le> n) \<longrightarrow>
          (\<exists>t. nss_step nw (Getpwuid (atoi arg) n) nss_init = Some (Ok (NOTFOUND, None), t))))"
proof (intro conjI allI impI)
  fix p k assume p: "dw_ldap w (atoi arg) = NSS_STATUS_SUCCESS p k" "hd0 (strName p) \<notin> {CHR ''+'', CHR ''-''}"
  have "wp (nss_ufbs_main w [cmd, ''-i'', arg])
      (db_result w db s (RET_SUCCESS, filter (\<lambda>e. uId e \<noteq> uId p) (db_entries db s) @ [p])) (\<lambda>_ _. False) s"
    using wp_nss_ufbs_main [OF assms(1-3), of "[cmd, ''-i'', arg]"] p(1) assms(4) by (simp add: adb_step_def)
  then obtain s' where s': "nss_ufbs_main w [cmd, ''-i'', arg] s = Some (Ok RET_SUCCESS, s')"
      "db_entries db s' = filter (\<lambda>e. uId e \<noteq> uId p) (db_entries db s) @ [p]"
    by (auto simp: wp_iff db_result_def)
  have "find (uid_matches (uId p)) (map (seen_entry sz) (db_entries db s')) = Some (seen_entry sz p)" for sz
    unfolding s'(2) using p(2) by (subst find_uid_append) (auto simp: uid_matches_def seen_entry_def)
  then show "\<exists>s'. nss_ufbs_main w [cmd, ''-i'', arg] s = Some (Ok RET_SUCCESS, s') \<and>
        (\<forall>nw sz n. steady nw (map (seen_entry sz) (db_entries db s')) \<longrightarrow> (\<forall>e \<in> set (db_entries db s'). sz e \<le> n) \<longrightarrow>
          (\<exists>t. nss_step nw (Getpwuid (uId p) n) nss_init = Some (Ok (SUCCESS, Some (seen_entry sz p)), t)))"
    using s'(1) lookup_uid [where es = "db_entries db s'" and uid = "uId p"] by fastforce
next
  have gone: "code \<in> {RET_SUCCESS, ERR_NOTFOUND} \<and> (\<forall>e \<in> set es'. uId e \<noteq> atoi arg)"
    if "adb_step w [cmd, ''-r'', arg] es = (code, es')" for es es' code
    using that assms(4) by (auto simp: adb_step_def image_iff split: if_splits)
  have "wp (nss_ufbs_main w [cmd, ''-r'', arg])
      (\<lambda>code s'. code \<in> {RET_SUCCESS, ERR_NOTFOUND} \<and> (\<forall>e \<in> set (db_entries db s'). uId e \<noteq> atoi arg)) (\<lambda>_ _. False) s"
    by (rule wp_mono [OF wp_nss_ufbs_main [OF assms(1-3)]]) (use gone in \<open>unfold db_result_def, blast+\<close>)
  then obtain code s' where s': "nss_ufbs_main w [cmd, ''-r'', arg] s = Some (Ok code, s')" "code \<in> {RET_SUCCESS, ERR_NOTFOUND}"
      "\<forall>e \<in> set (db_entries db s'). uId e \<noteq> atoi arg"
    by (auto simp: wp_iff)
  have "find (uid_matches (atoi arg)) (map (seen_entry sz) (db_entries db s')) = None" for sz
    using find_uid_append [OF s'(3), of sz "[]"] by simp
  then show "\<exists>code s'. nss_ufbs_main w [cmd, ''-r'', arg] s = Some (Ok code, s') \<and> code \<in> {RET_SUCCESS, ERR_NOTFOUND} \<and>
        (\<forall>nw sz n. steady nw (map (seen_entry sz) (db_entries db s')) \<longrightarrow> (\<forall>e \<in> set (db_entries db s'). sz e \<le> n) \<longrightarrow>
          (\<exists>t. nss_step nw (Getpwuid (atoi arg) n) nss_init = Some (Ok (NOTFOUND, None), t)))"
    using s'(1,2) lookup_uid [where es = "db_entries db s'" and uid = "atoi arg"] by fastforce
qed

lemma example_insert:
  "wp (nss_ufbs_main example_dworld [''nss_ufbs'', ''-i'', ''5'']) (\<lambda>code s'. code = RET_SUCCESS \<and> db_entries ''/db'' s' = [example_user])
     (\<lambda>_ _. False) (example_files None)"
proof -
  have "uid_argument ''5''" "atoi ''5'' = 5"
    by (simp_all add: uid_argument_def isdigit_def atoi_def strtol10_def isspace_def digit_value_def)
  moreover have "db_entries ''/db'' (example_files None) = []"
    by (simp add: db_entries_def example_files_def content_of_def entries_def fgets_all_Nil STR_CONFIG_FILEPATH_def)
  ultimately show ?thesis
    using wp_nss_ufbs_main [OF example_dworld_fits example_ready, of "[''nss_ufbs'', ''-i'', ''5'']"]
    by (auto simp: adb_step_def db_result_def example_dworld_def example_user_def elim!: wp_mono)
qed

theorem lookup_follows_command_witness:
  "\<exists>s' t. nss_ufbs_main example_dworld [''nss_ufbs'', ''-i'', ''5''] (example_files None) = Some (Ok RET_SUCCESS, s') \<and>
     nss_step (demo_nworld\<lparr>nw_open := \<lambda>_ _. Inr [seen_entry (\<lambda>_. 40) example_user]\<rparr>) (Getpwuid 5 64) nss_init =
       Some (Ok (SUCCESS, Some (seen_entry (\<lambda>_. 40) example_user)), t)"
proof -
  let ?nw = "demo_nworld\<lparr>nw_open := \<lambda>_ _. Inr [seen_entry (\<lambda>_. 40) example_user]\<rparr>"
  obtain s' where s': "nss_ufbs_main example_dworld [''nss_ufbs'', ''-i'', ''5''] (example_files None) = Some (Ok RET_SUCCESS, s')"
      "db_entries ''/db'' s' = [example_user]"
    using example_insert by (auto simp: wp_iff)
  have arg: "uid_argument ''5''" "atoi ''5'' = 5"
    by (simp_all add: uid_argument_def isdigit_def atoi_def strtol10_def isspace_def digit_value_def)
  have "dw_ldap example_dworld (atoi ''5'') = NSS_STATUS_SUCCESS example_user 64" "hd0 (strName example_user) \<notin> {CHR ''+'', CHR ''-''}" "uId example_user = 5"
    by (simp_all add: arg example_dworld_def example_user_def hd0_def)
  moreover have "steady ?nw (map (seen_entry (\<lambda>_. 40)) [example_user])"
    using demo_steady by (simp add: steady_def)
  ultimately show ?thesis
    using lookup_follows_command [OF example_dworld_fits example_ready arg(1), of "''nss_ufbs''"] s'
    by (auto dest!: spec [of _ example_user] spec [of _ 64] spec [of _ ?nw] spec [of _ "\<lambda>_. 40"])
qed

end
